(* ===== verification/Prelude.thy ===== *)
theory Prelude
  imports Main "HOL-Library.Char_ord" "HOL-Library.List_Lexorder"
begin

text \<open>
  What every component of the development shares: results and Go errors as values, the
  loops over slices the code repeats (first match, filter by a seen-set), 64-bit and 32-bit
  integers with their wrap-around, and the collections of facts the component proofs use.

  A Go function that returns \<open>(T, error)\<close> is a function into \<open>goerr + T\<close>: \<open>Inl\<close> the
  error, \<open>Inr\<close> the value. Go errors are trees: a sentinel variable, an error built by
  \<open>fmt.Errorf\<close> (its text and the errors it wraps with percent-w), the joined list of
  \<open>errors.Join\<close>, and the one error struct of the repository, \<open>soxyAPIError\<close>.
\<close>

named_theorems go_simps \<open>equations that evaluate the models of Go's library on literals\<close>
named_theorems result_simps \<open>inversion of results\<close>


section \<open>Results\<close>

definition bindR :: "'e + 'a \<Rightarrow> ('a \<Rightarrow> 'e + 'b) \<Rightarrow> 'e + 'b" where
  "bindR r f = (case r of Inl e \<Rightarrow> Inl e | Inr v \<Rightarrow> f v)"

definition mapErr :: "('e \<Rightarrow> 'f) \<Rightarrow> 'e + 'a \<Rightarrow> 'f + 'a" where
  "mapErr h r = (case r of Inl e \<Rightarrow> Inl (h e) | Inr v \<Rightarrow> Inr v)"

definition guardR :: "bool \<Rightarrow> 'e \<Rightarrow> 'e + unit" where
  "guardR ok e = (if ok then Inr () else Inl e)"

definition isOk :: "'e + 'a \<Rightarrow> bool" where
  "isOk r = (case r of Inl _ \<Rightarrow> False | Inr _ \<Rightarrow> True)"

lemma bindR_simps [simp]: "bindR (Inl e) f = Inl e" "bindR (Inr v) f = f v"
  by (simp_all add: bindR_def)

lemma mapErr_simps [simp]: "mapErr h (Inl e) = Inl (h e)" "mapErr h (Inr v) = Inr v"
  by (simp_all add: mapErr_def)

lemma isOk_simps [simp]: "isOk (Inl e) = False" "isOk (Inr v) = True"
  by (simp_all add: isOk_def)

lemma guardR_simps [simp]: "guardR True e = Inr ()" "guardR False e = Inl e"
  by (simp_all add: guardR_def)

lemma bindR_Inr [result_simps]: "bindR r f = Inr w \<longleftrightarrow> (\<exists>v. r = Inr v \<and> f v = Inr w)"
  by (cases r) auto

lemma mapErr_Inr [result_simps]: "mapErr h r = Inr w \<longleftrightarrow> r = Inr w"
  by (cases r) auto

lemma guardR_Inr [result_simps]: "guardR b e = Inr u \<longleftrightarrow> b"
  by (cases b) auto

lemma guardR_Inl [result_simps]: "guardR b e = Inl e' \<longleftrightarrow> \<not> b \<and> e' = e"
  by (cases b) auto

lemma bindR_Inl [result_simps]:
  "bindR r f = Inl e \<longleftrightarrow> r = Inl e \<or> (\<exists>v. r = Inr v \<and> f v = Inl e)"
  by (cases r) auto

lemma mapErr_Inl [result_simps]: "mapErr h r = Inl e \<longleftrightarrow> (\<exists>e'. r = Inl e' \<and> e = h e')"
  by (cases r) auto

lemma isOk_iff: "isOk r \<longleftrightarrow> (\<exists>v. r = Inr v)"
  by (cases r) auto

text \<open>A loop that converts each element and stops at the first error.\<close>

fun mapR :: "('a \<Rightarrow> 'e + 'b) \<Rightarrow> 'a list \<Rightarrow> 'e + 'b list" where
  "mapR f [] = Inr []"
| "mapR f (x # xs) = bindR (f x) (\<lambda>y. bindR (mapR f xs) (\<lambda>ys. Inr (y # ys)))"

lemma mapR_Inr: "mapR f xs = Inr ys \<longleftrightarrow> list_all2 (\<lambda>x y. f x = Inr y) xs ys"
proof (induction xs arbitrary: ys)
  case Nil
  then show ?case by auto
next
  case (Cons x xs)
  then show ?case by (cases ys) (auto simp: result_simps)
qed

lemma mapR_isOk: "isOk (mapR f xs) \<longleftrightarrow> (\<forall>x \<in> set xs. isOk (f x))"
  by (induction xs) (auto simp: isOk_iff result_simps)

lemma mapR_length: "mapR f xs = Inr ys \<Longrightarrow> length ys = length xs"
  by (auto simp: mapR_Inr dest: list_all2_lengthD)

lemma mapR_Inr_mem: "mapR f xs = Inr ys \<Longrightarrow> y \<in> set ys \<Longrightarrow> \<exists>x \<in> set xs. f x = Inr y"
  by (force simp: mapR_Inr list_all2_conv_all_nth in_set_conv_nth)

lemma mapR_fold_mem: "mapR f xs = Inr ys \<Longrightarrow> x \<in> set xs \<Longrightarrow> \<exists>y \<in> set ys. f x = Inr y"
  by (force simp: mapR_Inr list_all2_conv_all_nth in_set_conv_nth)

lemma mapR_map: "mapR (\<lambda>x. Inr (g x)) xs = Inr (map g xs)"
  by (induction xs) auto

text \<open>A loop body that runs on a state and may fail: the whole loop stops at the error.\<close>

fun foldR :: "('s \<Rightarrow> 'a \<Rightarrow> 'e + 's) \<Rightarrow> 's \<Rightarrow> 'a list \<Rightarrow> 'e + 's" where
  "foldR f s [] = Inr s"
| "foldR f s (x # xs) = bindR (f s x) (\<lambda>s'. foldR f s' xs)"

lemma foldR_append: "foldR f s (xs @ ys) = bindR (foldR f s xs) (\<lambda>s'. foldR f s' ys)"
proof (induction xs arbitrary: s)
  case Nil
  then show ?case by simp
next
  case (Cons x xs)
  then show ?case by (cases "f s x") auto
qed

text \<open>An invariant of the body is an invariant of the loop.\<close>

lemma foldR_invariant:
  assumes "foldR f s xs = Inr s'" and "I s"
    and "\<And>s x s'. I s \<Longrightarrow> x \<in> set xs \<Longrightarrow> f s x = Inr s' \<Longrightarrow> I s'"
  shows "I s'"
  using assms
proof (induction xs arbitrary: s)
  case Nil
  then show ?case by simp
next
  case (Cons x xs)
  from Cons.prems(1) obtain t where t: "f s x = Inr t" "foldR f t xs = Inr s'"
    by (auto simp: result_simps)
  have "I t" by (rule Cons.prems(3)[OF Cons.prems(2) _ t(1)]) simp
  show ?case
  proof (rule Cons.IH[OF t(2) \<open>I t\<close>])
    fix u y v assume "I u" "y \<in> set xs" "f u y = Inr v"
    then show "I v" by (intro Cons.prems(3)[of u y v]) simp_all
  qed
qed


section \<open>Loops over slices\<close>

text \<open>
  \<open>keepFirst key xs\<close> is the loop with a \<open>seen\<close> map that the code writes wherever it
  drops repeated keys: an element whose key was seen before is skipped.
\<close>

fun keepFirstFrom :: "('a \<Rightarrow> 'k) \<Rightarrow> 'k list \<Rightarrow> 'a list \<Rightarrow> 'a list" where
  "keepFirstFrom key seen [] = []"
| "keepFirstFrom key seen (x # xs) =
     (if key x \<in> set seen then keepFirstFrom key seen xs
      else x # keepFirstFrom key (key x # seen) xs)"

definition keepFirst :: "('a \<Rightarrow> 'k) \<Rightarrow> 'a list \<Rightarrow> 'a list" where
  "keepFirst key xs = keepFirstFrom key [] xs"

lemma keepFirstFrom_keys:
  "set (map key (keepFirstFrom key seen xs)) = key ` set xs - set seen"
  by (induction xs arbitrary: seen) auto

lemma keepFirstFrom_distinct: "distinct (map key (keepFirstFrom key seen xs))"
proof (induction xs arbitrary: seen)
  case Nil
  then show ?case by simp
next
  case (Cons x xs)
  have "key x \<notin> set (map key (keepFirstFrom key (key x # seen) xs))"
    unfolding keepFirstFrom_keys by simp
  then show ?case using Cons.IH by simp
qed

lemma keepFirstFrom_subset: "set (keepFirstFrom key seen xs) \<subseteq> set xs"
  by (induction xs arbitrary: seen) auto

lemma keepFirst_keys: "key ` set (keepFirst key xs) = key ` set xs"
  using keepFirstFrom_keys[of key "[]" xs] by (simp add: keepFirst_def)

lemma keepFirst_distinct: "distinct (map key (keepFirst key xs))"
  by (simp add: keepFirst_def keepFirstFrom_distinct)

lemma keepFirst_subset: "set (keepFirst key xs) \<subseteq> set xs"
  by (simp add: keepFirst_def keepFirstFrom_subset)

lemma keepFirstFrom_cong_seen: "set s = set t \<Longrightarrow> keepFirstFrom key s xs = keepFirstFrom key t xs"
proof (induction xs arbitrary: s t)
  case Nil
  then show ?case by simp
next
  case (Cons x xs)
  have "keepFirstFrom key (key x # s) xs = keepFirstFrom key (key x # t) xs"
    by (rule Cons.IH) (simp add: Cons.prems)
  moreover have "keepFirstFrom key s xs = keepFirstFrom key t xs"
    by (rule Cons.IH[OF Cons.prems])
  ultimately show ?case using Cons.prems by simp
qed

lemma keepFirstFrom_id:
  "distinct (map key xs) \<Longrightarrow> set (map key xs) \<inter> set seen = {} \<Longrightarrow> keepFirstFrom key seen xs = xs"
  by (induction xs arbitrary: seen) auto

lemma keepFirst_id: "distinct (map key xs) \<Longrightarrow> keepFirst key xs = xs"
  by (simp add: keepFirst_def keepFirstFrom_id)

text \<open>The last binding of a key in a list of pairs: a Go map filled by a loop.\<close>

definition lastOf :: "('k \<times> 'v) list \<Rightarrow> 'k \<Rightarrow> 'v option" where
  "lastOf ps = map_of (rev ps)"


section \<open>Integers\<close>

text \<open>Go's \<open>int\<close> and \<open>int64\<close> are 64 bits wide, in two's complement; \<open>int32\<close> is 32 bits.\<close>

definition minInt64 :: int where "minInt64 = - (2 ^ 63)"
definition maxInt64 :: int where "maxInt64 = 2 ^ 63 - 1"
definition minInt32 :: int where "minInt32 = - (2 ^ 31)"
definition maxInt32 :: int where "maxInt32 = 2 ^ 31 - 1"

lemmas int_limits = minInt64_def maxInt64_def minInt32_def maxInt32_def

definition wrap64 :: "int \<Rightarrow> int" where
  "wrap64 x = (x + 2 ^ 63) mod 2 ^ 64 - 2 ^ 63"

definition inInt64 :: "int \<Rightarrow> bool" where
  "inInt64 x \<longleftrightarrow> minInt64 \<le> x \<and> x \<le> maxInt64"

lemma wrap64_id [simp]: "inInt64 x \<Longrightarrow> wrap64 x = x"
  by (simp add: wrap64_def inInt64_def int_limits)

lemma wrap64_range: "inInt64 (wrap64 x)"
proof -
  have "0 \<le> (x + 2 ^ 63) mod 2 ^ 64" "(x + 2 ^ 63) mod 2 ^ 64 < 2 ^ 64"
    by (simp_all add: pos_mod_bound)
  then show ?thesis by (simp add: wrap64_def inInt64_def int_limits)
qed

text \<open>Go's integer division truncates towards zero.\<close>

definition truncDiv :: "int \<Rightarrow> int \<Rightarrow> int" where
  "truncDiv a b = sgn a * sgn b * (\<bar>a\<bar> div \<bar>b\<bar>)"

lemma truncDiv_pos [simp]: "0 \<le> a \<Longrightarrow> 0 < b \<Longrightarrow> truncDiv a b = a div b"
  by (cases "a = 0") (simp_all add: truncDiv_def)

text \<open>The remainder of that division has the sign of the dividend.\<close>

definition truncMod :: "int \<Rightarrow> int \<Rightarrow> int" where
  "truncMod a b = a - b * truncDiv a b"

lemma truncMod_pos [simp]: "0 \<le> a \<Longrightarrow> 0 < b \<Longrightarrow> truncMod a b = a mod b"
  by (simp add: truncMod_def minus_mult_div_eq_mod)

end
