(* ===== verification/GoStrings.thy ===== *)
theory GoStrings
  imports Prelude
begin

text \<open>
  Go's \<open>strings\<close> and \<open>strconv\<close> as the repository uses them. A Go string is a sequence of
  bytes, here a \<open>char list\<close>. White space is what \<open>unicode.IsSpace\<close> says: six ASCII bytes
  and the UTF-8 encodings of U+0085, U+00A0, U+1680, U+2000 to U+200A, U+2028, U+2029,
  U+202F, U+205F and U+3000. Case mapping is ASCII's: every other byte is left alone, which
  is what Go does for the caseless scripts the provider writes (Hangul, digits).
\<close>


section \<open>White space\<close>

definition asciiSpace :: "char \<Rightarrow> bool" where
  "asciiSpace c \<longleftrightarrow> c \<in> {CHR 0x09, CHR 0x0A, CHR 0x0B, CHR 0x0C, CHR 0x0D, CHR 0x20}"

definition wideSpaces :: "string list" where
  "wideSpaces =
    [[CHR 0xC2, CHR 0x85], [CHR 0xC2, CHR 0xA0], [CHR 0xE1, CHR 0x9A, CHR 0x80],
     [CHR 0xE2, CHR 0x80, CHR 0x80], [CHR 0xE2, CHR 0x80, CHR 0x81],
     [CHR 0xE2, CHR 0x80, CHR 0x82], [CHR 0xE2, CHR 0x80, CHR 0x83],
     [CHR 0xE2, CHR 0x80, CHR 0x84], [CHR 0xE2, CHR 0x80, CHR 0x85],
     [CHR 0xE2, CHR 0x80, CHR 0x86], [CHR 0xE2, CHR 0x80, CHR 0x87],
     [CHR 0xE2, CHR 0x80, CHR 0x88], [CHR 0xE2, CHR 0x80, CHR 0x89],
     [CHR 0xE2, CHR 0x80, CHR 0x8A], [CHR 0xE2, CHR 0x80, CHR 0xA8],
     [CHR 0xE2, CHR 0x80, CHR 0xA9], [CHR 0xE2, CHR 0x80, CHR 0xAF],
     [CHR 0xE2, CHR 0x81, CHR 0x9F], [CHR 0xE3, CHR 0x80, CHR 0x80]]"

text \<open>
  \<open>spaceLen ws s\<close> is the length of the white-space rune at the front of \<open>s\<close>, 0 if there is
  none; \<open>ws\<close> lists the multi-byte ones, reversed when \<open>s\<close> is read from its end.
\<close>

definition spaceLen :: "string list \<Rightarrow> string \<Rightarrow> nat" where
  "spaceLen ws s =
    (case s of [] \<Rightarrow> 0
     | c # _ \<Rightarrow> if asciiSpace c then 1
               else (case List.find (\<lambda>w. take (length w) s = w) ws of None \<Rightarrow> 0 | Some w \<Rightarrow> length w))"

function dropSpaces :: "string list \<Rightarrow> string \<Rightarrow> string" where
  "dropSpaces ws s = (if spaceLen ws s = 0 \<or> s = [] then s else dropSpaces ws (drop (spaceLen ws s) s))"
  by pat_completeness auto
termination
  by (relation "measure (length \<circ> snd)") auto

declare dropSpaces.simps [simp del]

definition trimLeft :: "string \<Rightarrow> string" where
  "trimLeft s = dropSpaces wideSpaces s"

definition trimRight :: "string \<Rightarrow> string" where
  "trimRight s = rev (dropSpaces (map rev wideSpaces) (rev s))"

definition TrimSpace :: "string \<Rightarrow> string" where
  "TrimSpace s = trimRight (trimLeft s)"

lemma spaceLen_Nil [simp]: "spaceLen ws [] = 0"
  by (simp add: spaceLen_def)

lemma dropSpaces_Nil [simp]: "dropSpaces ws [] = []"
  by (simp add: dropSpaces.simps)

lemma dropSpaces_zero [simp]: "spaceLen ws s = 0 \<Longrightarrow> dropSpaces ws s = s"
  by (simp add: dropSpaces.simps)

lemma dropSpaces_done: "spaceLen ws (dropSpaces ws s) = 0"
proof (induction ws s rule: dropSpaces.induct)
  case (1 ws s)
  show ?case
  proof (cases "spaceLen ws s = 0 \<or> s = []")
    case True
    then show ?thesis by (auto simp: dropSpaces.simps[of ws s])
  next
    case False
    with "1.IH" show ?thesis by (simp add: dropSpaces.simps[of ws s])
  qed
qed

lemma dropSpaces_suffix: "\<exists>p. s = p @ dropSpaces ws s"
proof (induction ws s rule: dropSpaces.induct)
  case (1 ws s)
  show ?case
  proof (cases "spaceLen ws s = 0 \<or> s = []")
    case True
    then show ?thesis by (auto simp: dropSpaces.simps[of ws s])
  next
    case False
    with "1.IH" obtain p where "drop (spaceLen ws s) s = p @ dropSpaces ws (drop (spaceLen ws s) s)"
      by blast
    then have "s = (take (spaceLen ws s) s @ p) @ dropSpaces ws s"
      using False by (metis append.assoc append_take_drop_id dropSpaces.simps)
    then show ?thesis by blast
  qed
qed

lemma dropSpaces_idem [simp]: "dropSpaces ws (dropSpaces ws s) = dropSpaces ws s"
  by (rule dropSpaces_zero[OF dropSpaces_done])

definition startsSpace :: "string list \<Rightarrow> string \<Rightarrow> bool" where
  "startsSpace ws s \<longleftrightarrow> s \<noteq> [] \<and> (asciiSpace (hd s) \<or> (\<exists>w \<in> set ws. take (length w) s = w))"

lemma spaceLen_zero_iff:
  assumes "[] \<notin> set ws" shows "spaceLen ws s = 0 \<longleftrightarrow> \<not> startsSpace ws s"
proof (cases "List.find (\<lambda>w. take (length w) s = w) ws")
  case None
  then have "\<forall>w \<in> set ws. take (length w) s \<noteq> w" by (auto simp: find_None_iff)
  with None show ?thesis
    by (cases s) (simp_all add: spaceLen_def startsSpace_def)
next
  case (Some w)
  then have "w \<in> set ws" "take (length w) s = w" by (auto simp: find_Some_iff)
  with assms Some show ?thesis
    by (auto simp: spaceLen_def startsSpace_def split: list.splits)
qed

lemma startsSpace_append: "startsSpace ws p \<Longrightarrow> startsSpace ws (p @ r)"
proof -
  assume p: "startsSpace ws p"
  have "take (length w) (p @ r) = w" if "take (length w) p = w" for w
  proof -
    have "length w \<le> length p" using that by (metis length_take min.cobounded1)
    with that show ?thesis by (metis le_add_diff_inverse2 take_all_iff take_append append_Nil2 diff_is_0_eq take0)
  qed
  then show ?thesis using p unfolding startsSpace_def by (metis Nil_is_append_conv hd_append2)
qed

lemma wideSpaces_ne [simp]: "[] \<notin> set wideSpaces" "[] \<notin> set (map rev wideSpaces)"
  by (simp_all add: wideSpaces_def)

text \<open>
  A string that neither starts nor ends with white space is a fixed point of
  \<open>TrimSpace\<close>, and every result of \<open>TrimSpace\<close> is such a string.
\<close>

definition trimmed :: "string \<Rightarrow> bool" where
  "trimmed s \<longleftrightarrow> \<not> startsSpace wideSpaces s \<and> \<not> startsSpace (map rev wideSpaces) (rev s)"

lemma trimLeft_done: "\<not> startsSpace wideSpaces (trimLeft s)"
  using dropSpaces_done[of wideSpaces s] by (simp add: trimLeft_def spaceLen_zero_iff)

lemma trimRight_done: "\<not> startsSpace (map rev wideSpaces) (rev (trimRight s))"
  using dropSpaces_done[of "map rev wideSpaces" "rev s"]
  by (simp add: trimRight_def spaceLen_zero_iff del: set_map)

lemma trimRight_prefix: "\<exists>r. s = trimRight s @ r"
proof -
  obtain p where "rev s = p @ dropSpaces (map rev wideSpaces) (rev s)"
    using dropSpaces_suffix by blast
  then have "s = trimRight s @ rev p"
    by (metis rev_append rev_rev_ident trimRight_def)
  then show ?thesis by blast
qed

lemma TrimSpace_trimmed: "trimmed (TrimSpace s)"
proof -
  obtain r where "trimLeft s = TrimSpace s @ r"
    using trimRight_prefix[of "trimLeft s"] by (auto simp: TrimSpace_def)
  then have "\<not> startsSpace wideSpaces (TrimSpace s)"
    using trimLeft_done[of s] startsSpace_append by metis
  then show ?thesis by (simp add: trimmed_def TrimSpace_def trimRight_done)
qed

lemma TrimSpace_id: "trimmed s \<Longrightarrow> TrimSpace s = s"
proof -
  assume t: "trimmed s"
  then have "trimLeft s = s"
    unfolding trimLeft_def by (intro dropSpaces_zero) (simp add: trimmed_def spaceLen_zero_iff)
  moreover have "dropSpaces (map rev wideSpaces) (rev s) = rev s"
    using t by (intro dropSpaces_zero) (simp add: trimmed_def spaceLen_zero_iff del: set_map)
  ultimately show ?thesis by (simp add: TrimSpace_def trimRight_def)
qed

lemma TrimSpace_idem [simp]: "TrimSpace (TrimSpace s) = TrimSpace s"
  by (rule TrimSpace_id[OF TrimSpace_trimmed])

lemma TrimSpace_Nil [simp]: "TrimSpace [] = []"
  by (simp add: TrimSpace_def trimLeft_def trimRight_def)

lemma TrimSpace_subset: "set (TrimSpace s) \<subseteq> set s"
proof -
  obtain r p where "trimLeft s = TrimSpace s @ r" "s = p @ trimLeft s"
    using trimRight_prefix[of "trimLeft s"] dropSpaces_suffix[of s wideSpaces]
    by (auto simp: TrimSpace_def trimLeft_def)
  then show ?thesis by (metis Un_iff set_append subsetI)
qed

text \<open>Strings of printable ASCII without a blank are trimmed.\<close>

definition plainChar :: "char \<Rightarrow> bool" where
  "plainChar c \<longleftrightarrow> (33::nat) \<le> of_char c \<and> (of_char c :: nat) < 127"

lemma plainChar_not_space: "plainChar c \<Longrightarrow> \<not> asciiSpace c"
  by (auto simp: plainChar_def asciiSpace_def)

lemma plainChar_not_wide:
  assumes "plainChar c" "w \<in> set wideSpaces"
  shows "c \<noteq> hd w" "c \<noteq> hd (rev w)"
  using assms by (auto simp: wideSpaces_def plainChar_def)

lemma plain_not_starts:
  assumes "s = [] \<or> plainChar (hd s)"
  shows "\<not> startsSpace wideSpaces s" "\<not> startsSpace (map rev wideSpaces) s"
proof -
  have *: "take (length w) s \<noteq> w" if "s \<noteq> []" "w \<noteq> []" "hd s \<noteq> hd w" for w
    using that by (metis hd_take length_greater_0_conv)
  show "\<not> startsSpace wideSpaces s"
    using assms * plainChar_not_space plainChar_not_wide(1) wideSpaces_ne(1)
    unfolding startsSpace_def by metis
  show "\<not> startsSpace (map rev wideSpaces) s"
  proof
    assume "startsSpace (map rev wideSpaces) s"
    then obtain w where w: "s \<noteq> []" "w \<in> set wideSpaces" "take (length (rev w)) s = rev w"
      using assms plainChar_not_space by (auto simp: startsSpace_def)
    moreover have "rev w \<noteq> []" using w(2) wideSpaces_ne(1) by auto
    ultimately show False
      using * assms plainChar_not_wide(2)[of "hd s" w] by metis
  qed
qed

lemma TrimSpace_ends:
  "s \<noteq> [] \<Longrightarrow> plainChar (hd s) \<Longrightarrow> plainChar (last s) \<Longrightarrow> TrimSpace s = s"
  by (rule TrimSpace_id) (simp add: trimmed_def plain_not_starts hd_rev del: set_map)

lemma TrimSpace_plain:
  "list_all plainChar s \<Longrightarrow> TrimSpace s = s"
  by (cases "s = []") (simp_all add: TrimSpace_ends list_all_iff)


section \<open>Runes\<close>

text \<open>
  The length of the first rune of a string, as decoding of UTF-8 gives it: a well-formed sequence of
  two to four bytes is one rune, every other byte is one rune of its own.
\<close>

definition contByte :: "char \<Rightarrow> bool" where
  "contByte c \<longleftrightarrow> 128 \<le> (of_char c :: nat) \<and> (of_char c :: nat) < 192"

definition runeLen :: "string \<Rightarrow> nat" where
  "runeLen s = (case s of [] \<Rightarrow> 0 | c # r \<Rightarrow>
     (let n = (of_char c :: nat);
          b1 = (if r = [] then 0 else of_char (hd r)) :: nat
      in if 194 \<le> n \<and> n < 224 \<and> 1 \<le> length r \<and> contByte (hd r) then 2
         else if 224 \<le> n \<and> n < 240 \<and> 2 \<le> length r \<and> list_all contByte (take 2 r)
            \<and> \<not> (n = 224 \<and> b1 < 160) \<and> \<not> (n = 237 \<and> 160 \<le> b1) then 3
         else if 240 \<le> n \<and> n < 245 \<and> 3 \<le> length r \<and> list_all contByte (take 3 r)
            \<and> \<not> (n = 240 \<and> b1 < 144) \<and> \<not> (n = 244 \<and> 144 \<le> b1) then 4
         else 1))"

lemma runeLen_pos [simp]: "0 < runeLen (c # s)"
  by (simp add: runeLen_def Let_def)


section \<open>Case\<close>

definition asciiLower :: "char \<Rightarrow> char" where
  "asciiLower c = (if 65 \<le> (of_char c :: nat) \<and> (of_char c :: nat) \<le> 90
                   then char_of ((of_char c :: nat) + 32) else c)"

definition asciiUpper :: "char \<Rightarrow> char" where
  "asciiUpper c = (if 97 \<le> (of_char c :: nat) \<and> (of_char c :: nat) \<le> 122
                   then char_of ((of_char c :: nat) - 32) else c)"

definition ToLower :: "string \<Rightarrow> string" where
  "ToLower s = map asciiLower s"

definition ToUpper :: "string \<Rightarrow> string" where
  "ToUpper s = map asciiUpper s"

text \<open>
  \<open>strings.EqualFold\<close>. Two runes outside ASCII fold to an ASCII letter: the Kelvin sign
  (to k) and the long s (to s).
\<close>

fun foldCase :: "string \<Rightarrow> string" where
  "foldCase [] = []"
| "foldCase (c # s) =
    (if c = CHR 0xE2 \<and> take 2 s = [CHR 0x84, CHR 0xAA] then CHR ''k'' # foldCase (drop 2 s)
     else if c = CHR 0xC5 \<and> take 1 s = [CHR 0xBF] then CHR ''s'' # foldCase (drop 1 s)
     else asciiLower c # foldCase s)"

definition EqualFold :: "string \<Rightarrow> string \<Rightarrow> bool" where
  "EqualFold s t \<longleftrightarrow> foldCase s = foldCase t"

lemma EqualFold_refl [simp]: "EqualFold s s"
  by (simp add: EqualFold_def)

lemma EqualFold_sym: "EqualFold s t \<Longrightarrow> EqualFold t s"
  by (simp add: EqualFold_def)

lemma asciiLower_idem [simp]: "asciiLower (asciiLower c) = asciiLower c"
  by (auto simp: asciiLower_def)

lemma asciiUpper_idem [simp]: "asciiUpper (asciiUpper c) = asciiUpper c"
  by (auto simp: asciiUpper_def)

lemma ToLower_idem [simp]: "ToLower (ToLower s) = ToLower s"
  by (simp add: ToLower_def)

lemma ToUpper_idem [simp]: "ToUpper (ToUpper s) = ToUpper s"
  by (simp add: ToUpper_def)

lemma ToLower_append [simp]: "ToLower (s @ t) = ToLower s @ ToLower t"
  by (simp add: ToLower_def)

lemma ToUpper_append [simp]: "ToUpper (s @ t) = ToUpper s @ ToUpper t"
  by (simp add: ToUpper_def)

lemma ToLower_length [simp]: "length (ToLower s) = length s"
  by (simp add: ToLower_def)

lemma ToUpper_Nil_iff [simp]: "ToUpper s = [] \<longleftrightarrow> s = []"
  by (simp add: ToUpper_def)

text \<open>The same on the bits of a byte, for evaluation.\<close>

lemma asciiLower_bits [code]:
  "asciiLower (Char b0 b1 b2 b3 b4 b5 b6 b7) =
    (if \<not> b7 \<and> b6 \<and> \<not> b5 \<and> (b0 \<or> b1 \<or> b2 \<or> b3 \<or> b4) \<and> \<not> (b4 \<and> b3 \<and> (b2 \<or> b1 \<and> b0))
     then Char b0 b1 b2 b3 b4 True b6 b7 else Char b0 b1 b2 b3 b4 b5 b6 b7)"
  by (cases b0; cases b1; cases b2; cases b3; cases b4; cases b5; cases b6; cases b7)
    (simp_all add: asciiLower_def char_of_def of_char_def bit_0)

lemma asciiUpper_bits [code]:
  "asciiUpper (Char b0 b1 b2 b3 b4 b5 b6 b7) =
    (if \<not> b7 \<and> b6 \<and> b5 \<and> (b0 \<or> b1 \<or> b2 \<or> b3 \<or> b4) \<and> \<not> (b4 \<and> b3 \<and> (b2 \<or> b1 \<and> b0))
     then Char b0 b1 b2 b3 b4 False b6 b7 else Char b0 b1 b2 b3 b4 b5 b6 b7)"
  by (cases b0; cases b1; cases b2; cases b3; cases b4; cases b5; cases b6; cases b7)
    (simp_all add: asciiUpper_def char_of_def of_char_def bit_0)

lemma asciiSpace_code: "asciiSpace c \<longleftrightarrow> (of_char c :: nat) \<in> {9, 10, 11, 12, 13, 32}"
proof -
  have "c = d \<longleftrightarrow> (of_char c :: nat) = of_char d" for d by simp
  then show ?thesis unfolding asciiSpace_def by (simp del: of_char_eq_iff)
qed

lemma asciiLower_asciiSpace [simp]: "asciiSpace (asciiLower c) = asciiSpace c"
  by (auto simp: asciiLower_def asciiSpace_code)

lemma asciiUpper_asciiSpace [simp]: "asciiSpace (asciiUpper c) = asciiSpace c"
  by (auto simp: asciiUpper_def asciiSpace_code)


section \<open>Splitting, joining, searching\<close>

definition HasPrefix :: "string \<Rightarrow> string \<Rightarrow> bool" where
  "HasPrefix s p \<longleftrightarrow> take (length p) s = p"

definition HasSuffix :: "string \<Rightarrow> string \<Rightarrow> bool" where
  "HasSuffix s p \<longleftrightarrow> length p \<le> length s \<and> drop (length s - length p) s = p"

definition TrimSuffix :: "string \<Rightarrow> string \<Rightarrow> string" where
  "TrimSuffix s p = (if HasSuffix s p then take (length s - length p) s else s)"

fun Contains :: "string \<Rightarrow> string \<Rightarrow> bool" where
  "Contains [] p \<longleftrightarrow> p = []"
| "Contains (c # s) p \<longleftrightarrow> HasPrefix (c # s) p \<or> Contains s p"

text \<open>\<open>strings.Split\<close> at a one-byte separator: the empty string has one empty part.\<close>

fun Split :: "char \<Rightarrow> string \<Rightarrow> string list" where
  "Split d [] = [[]]"
| "Split d (c # s) =
    (if c = d then [] # Split d s
     else (case Split d s of [] \<Rightarrow> [[c]] | p # ps \<Rightarrow> (c # p) # ps))"

fun Join :: "string list \<Rightarrow> string \<Rightarrow> string" where
  "Join [] sep = []"
| "Join [x] sep = x"
| "Join (x # y # zs) sep = x @ sep @ Join (y # zs) sep"

text \<open>\<open>strings.ReplaceAll(s, "-", "")\<close>: every use in the repository deletes one byte.\<close>

definition deleteChar :: "char \<Rightarrow> string \<Rightarrow> string" where
  "deleteChar d s = filter (\<lambda>c. c \<noteq> d) s"

text \<open>
  \<open>strings.Fields\<close>: the maximal runs between white space. \<open>cur\<close> is the current run,
  reversed; \<open>skip\<close> counts the bytes of a white-space rune that are still to be skipped.
\<close>

fun fieldsFrom :: "string \<Rightarrow> nat \<Rightarrow> string \<Rightarrow> string list" where
  "fieldsFrom cur skip [] = (if cur = [] then [] else [rev cur])"
| "fieldsFrom cur (Suc k) (c # s) = fieldsFrom cur k s"
| "fieldsFrom cur 0 (c # s) =
    (let n = spaceLen wideSpaces (c # s) in
     if n = 0 then fieldsFrom (c # cur) 0 s
     else if cur = [] then fieldsFrom [] (n - 1) s
     else rev cur # fieldsFrom [] (n - 1) s)"

definition Fields :: "string \<Rightarrow> string list" where
  "Fields s = fieldsFrom [] 0 s"

text \<open>\<open>strings.FieldsFunc\<close> with a predicate on ASCII bytes.\<close>

fun fieldsFunc :: "(char \<Rightarrow> bool) \<Rightarrow> string \<Rightarrow> string \<Rightarrow> string list" where
  "fieldsFunc p cur [] = (if cur = [] then [] else [rev cur])"
| "fieldsFunc p cur (c # s) =
    (if p c then (if cur = [] then fieldsFunc p [] s else rev cur # fieldsFunc p [] s)
     else fieldsFunc p (c # cur) s)"

definition FieldsFunc :: "string \<Rightarrow> (char \<Rightarrow> bool) \<Rightarrow> string list" where
  "FieldsFunc s p = fieldsFunc p [] s"

lemma fieldsFrom_nonempty: "f \<in> set (fieldsFrom cur k s) \<Longrightarrow> f \<noteq> []"
  by (induction cur k s rule: fieldsFrom.induct) (auto simp: Let_def split: if_splits)

lemma Split_ne [simp]: "Split d s \<noteq> []"
  by (induction s) (auto split: list.splits)

lemma Split_no_sep: "d \<notin> set s \<Longrightarrow> Split d s = [s]"
  by (induction s) auto

lemma Split_append_sep: "d \<notin> set s \<Longrightarrow> Split d (s @ d # t) = s # Split d t"
  by (induction s) (auto split: list.splits)

lemma Split_parts_no_sep: "p \<in> set (Split d s) \<Longrightarrow> d \<notin> set p"
proof (induction s arbitrary: p)
  case Nil
  then show ?case by simp
next
  case (Cons c s)
  then show ?case by (cases "Split d s") (auto split: if_splits)
qed

lemma Join_Split [simp]: "Join (Split d s) [d] = s"
proof (induction s)
  case Nil
  then show ?case by simp
next
  case (Cons c s)
  then show ?case
    by (cases "Split d s"; cases "tl (Split d s)") auto
qed

lemma Split_Join:
  "xs \<noteq> [] \<Longrightarrow> (\<And>x. x \<in> set xs \<Longrightarrow> d \<notin> set x) \<Longrightarrow> Split d (Join xs [d]) = xs"
proof (induction xs "[d]" rule: Join.induct)
  case 1
  then show ?case by simp
next
  case (2 x)
  then show ?case by (simp add: Split_no_sep)
next
  case (3 x y zs)
  then show ?case using Split_append_sep[of d x "Join (y # zs) [d]"] by simp
qed

lemma HasPrefix_append [simp]: "HasPrefix (p @ s) p"
  by (simp add: HasPrefix_def)

lemma Contains_append: "Contains (a @ p @ b) p"
proof (induction a)
  case Nil
  have "HasPrefix (p @ b) p" by simp
  then show ?case by (cases "p @ b") (auto simp del: HasPrefix_append)
next
  case (Cons c a)
  then show ?case by simp
qed

lemma Contains_iff: "Contains s p \<longleftrightarrow> (\<exists>a b. s = a @ p @ b)"
proof
  assume "Contains s p"
  then show "\<exists>a b. s = a @ p @ b"
  proof (induction s)
    case Nil
    then show ?case by simp
  next
    case (Cons c s)
    show ?case
    proof (cases "HasPrefix (c # s) p")
      case True
      then have "c # s = [] @ p @ drop (length p) (c # s)"
        by (metis HasPrefix_def append_Nil append_take_drop_id)
      then show ?thesis by blast
    next
      case False
      with Cons obtain a b where "s = a @ p @ b" by auto
      then have "c # s = (c # a) @ p @ b" by simp
      then show ?thesis by blast
    qed
  qed
next
  assume "\<exists>a b. s = a @ p @ b"
  then show "Contains s p" using Contains_append by blast
qed


section \<open>Numbers in decimal\<close>

definition isDigit :: "char \<Rightarrow> bool" where
  "isDigit c \<longleftrightarrow> 48 \<le> (of_char c :: nat) \<and> (of_char c :: nat) \<le> 57"

lemma isDigit_bits [code]:
  "isDigit (Char b0 b1 b2 b3 b4 b5 b6 b7) \<longleftrightarrow> \<not> b7 \<and> \<not> b6 \<and> b5 \<and> b4 \<and> \<not> (b3 \<and> (b2 \<or> b1))"
  by (cases b0; cases b1; cases b2; cases b3; cases b4; cases b5; cases b6; cases b7)
    (simp_all add: isDigit_def of_char_def)

definition digitVal :: "char \<Rightarrow> nat" where
  "digitVal c = of_char c - 48"

fun decVal :: "nat \<Rightarrow> string \<Rightarrow> nat option" where
  "decVal acc [] = Some acc"
| "decVal acc (c # s) = (if isDigit c then decVal (10 * acc + digitVal c) s else None)"

text \<open>\<open>strconv.ParseInt(s, 10, bits)\<close>; \<open>strconv.Atoi\<close> is the case of 64 bits.\<close>

definition ParseInt :: "nat \<Rightarrow> string \<Rightarrow> int option" where
  "ParseInt bits s =
    (let neg = (s \<noteq> [] \<and> hd s = CHR ''-'');
         ds = (if s \<noteq> [] \<and> (hd s = CHR ''-'' \<or> hd s = CHR ''+'') then tl s else s)
     in if ds = [] then None
        else case decVal 0 ds of
          None \<Rightarrow> None
        | Some n \<Rightarrow>
            (if neg then (if int n \<le> 2 ^ (bits - 1) then Some (- int n) else None)
             else (if int n < 2 ^ (bits - 1) then Some (int n) else None)))"

definition Atoi :: "string \<Rightarrow> int option" where
  "Atoi s = ParseInt 64 s"

fun natStr :: "nat \<Rightarrow> string" where
  "natStr n = (if n < 10 then [char_of (48 + n)] else natStr (n div 10) @ [char_of (48 + n mod 10)])"

declare natStr.simps [simp del]

definition Itoa :: "int \<Rightarrow> string" where
  "Itoa i = (if i < 0 then CHR ''-'' # natStr (nat (- i)) else natStr (nat i))"

definition zeroPad :: "nat \<Rightarrow> string \<Rightarrow> string" where
  "zeroPad w s = replicate (w - length s) (CHR ''0'') @ s"

lemma decVal_append:
  "decVal a (s @ t) = (case decVal a s of None \<Rightarrow> None | Some b \<Rightarrow> decVal b t)"
  by (induction s arbitrary: a) auto

lemma isDigit_char_of [simp]: "(n::nat) < 10 \<Longrightarrow> isDigit (char_of (48 + n))"
  by (simp add: isDigit_def)

lemma digitVal_char_of [simp]: "(n::nat) < 10 \<Longrightarrow> digitVal (char_of (48 + n)) = n"
  by (simp add: digitVal_def)

lemma decVal_natStr: "decVal 0 (natStr n) = Some n"
proof (induction n rule: natStr.induct)
  case (1 n)
  show ?case
  proof (cases "n < 10")
    case True
    then show ?thesis by (simp add: natStr.simps[of n])
  next
    case False
    with 1 show ?thesis by (simp add: natStr.simps[of n] decVal_append)
  qed
qed

lemma natStr_ne [simp]: "natStr n \<noteq> []"
  by (simp add: natStr.simps[of n])

lemma natStr_digits: "list_all isDigit (natStr n)"
proof (induction n rule: natStr.induct)
  case (1 n)
  then show ?case by (cases "n < 10") (simp_all add: natStr.simps[of n])
qed

lemma isDigit_plain: "isDigit c \<Longrightarrow> plainChar c"
  by (simp add: isDigit_def plainChar_def)

lemma isDigit_not_sign: "isDigit c \<Longrightarrow> c \<noteq> CHR ''-'' \<and> c \<noteq> CHR ''+''"
  by (auto simp: isDigit_def)

lemma ParseInt_natStr: "int n < 2 ^ (bits - 1) \<Longrightarrow> ParseInt bits (natStr n) = Some (int n)"
proof -
  assume "int n < 2 ^ (bits - 1)"
  moreover have "isDigit (hd (natStr n))"
    using natStr_digits[of n] by (cases "natStr n") auto
  ultimately show ?thesis
    using isDigit_not_sign[of "hd (natStr n)"] by (simp add: ParseInt_def decVal_natStr Let_def)
qed

lemma natStr_inject: "natStr m = natStr n \<Longrightarrow> m = n"
  by (metis decVal_natStr option.inject)

lemma decVal_bound: "decVal a s = Some n \<Longrightarrow> n < (a + 1) * 10 ^ length s"
proof (induction s arbitrary: a)
  case Nil
  then show ?case by simp
next
  case (Cons c s)
  then have "isDigit c" "decVal (10 * a + digitVal c) s = Some n" by (auto split: if_splits)
  then have "n < (10 * a + digitVal c + 1) * 10 ^ length s" using Cons.IH by blast
  also have "digitVal c \<le> 9" using \<open>isDigit c\<close> unfolding isDigit_def digitVal_def by linarith
  then have "(10 * a + digitVal c + 1) * 10 ^ length s \<le> (10 * a + 10) * 10 ^ length s"
    by (intro mult_right_mono) auto
  finally show ?case by (simp add: algebra_simps)
qed

lemma decVal_digits: "decVal a s = Some n \<Longrightarrow> list_all isDigit s"
  by (induction s arbitrary: a) (auto split: if_splits)

lemma decVal_total: "list_all isDigit s \<Longrightarrow> \<exists>n. decVal a s = Some n"
  by (induction s arbitrary: a) auto


section \<open>Quoting\<close>

text \<open>
  \<open>strconv.Quote\<close> and the percent-q verb: printable bytes stand for themselves, the quote
  and the backslash are escaped, and control bytes take their escape.
\<close>

definition hexDigit :: "nat \<Rightarrow> char" where
  "hexDigit n = (if n < 10 then char_of (48 + n) else char_of (87 + n))"

definition quoteByte :: "char \<Rightarrow> string" where
  "quoteByte c =
    (if c = CHR 0x22 then [CHR 0x5C, CHR 0x22]
     else if c = CHR 0x5C then [CHR 0x5C, CHR 0x5C]
     else if c = CHR 0x07 then [CHR 0x5C, CHR ''a'']
     else if c = CHR 0x08 then [CHR 0x5C, CHR ''b'']
     else if c = CHR 0x0C then [CHR 0x5C, CHR ''f'']
     else if c = CHR 0x0A then [CHR 0x5C, CHR ''n'']
     else if c = CHR 0x0D then [CHR 0x5C, CHR ''r'']
     else if c = CHR 0x09 then [CHR 0x5C, CHR ''t'']
     else if c = CHR 0x0B then [CHR 0x5C, CHR ''v'']
     else if (of_char c :: nat) < 32 \<or> c = CHR 0x7F
       then [CHR 0x5C, CHR ''x'', hexDigit (of_char c div 16), hexDigit (of_char c mod 16)]
     else [c])"

definition quoteGo :: "string \<Rightarrow> string" where
  "quoteGo s = [CHR 0x22] @ concat (map quoteByte s) @ [CHR 0x22]"

definition hexOf :: "nat list \<Rightarrow> string" where
  "hexOf bs = concat (map (\<lambda>b. [hexDigit (b div 16), hexDigit (b mod 16)]) bs)"

end
