(* ===== verification/GoErrors.thy ===== *)
theory GoErrors
  imports GoStrings
begin

text \<open>
  Go errors as trees. A sentinel is a package variable compared by identity; an error of
  \<open>fmt.Errorf\<close> carries its text and the errors wrapped with percent-w; \<open>errors.Join\<close>
  keeps the list of its arguments that are not nil; \<open>APIError\<close> is the repository's
  \<open>*soxyAPIError\<close>. \<open>errorsIs\<close> and \<open>asAPIError\<close> walk the tree as \<open>errors.Is\<close> and
  \<open>errors.As\<close> do, and \<open>errorText\<close> is the \<open>Error\<close> method.
\<close>

datatype sentinel =
    ErrNoProxyCapacity | ErrLeaseRenewal | ErrUnknownPolicy | ErrEgressQuarantined
  | ErrAuthenticationRequired | ErrUIContractChanged | ErrCaptchaRequired
  | ErrProviderAccessBlocked | ErrProviderThrottled | ErrProviderServerError
  | ErrProviderTransport | ErrProviderInvalidResult | ErrBrowserStartFailed
  | ErrIdentityMismatch | ErrNoBookableShowtime | ErrTargetDateUnavailable
  | ErrSeatAvailabilityIncomplete | ErrScheduleResponseMissing | ErrTheaterResponseMissing
  | ErrLocalExecution | ErrClosed
  | DeadlineExceeded | Canceled | ErrNotExist | EOF

fun sentinelText :: "sentinel \<Rightarrow> string" where
  "sentinelText ErrNoProxyCapacity = ''no egress proxy is currently available''"
| "sentinelText ErrLeaseRenewal = ''egress proxy lease renewal failed''"
| "sentinelText ErrUnknownPolicy = ''unknown egress policy''"
| "sentinelText ErrEgressQuarantined = ''egress session was quarantined''"
| "sentinelText ErrAuthenticationRequired = ''CGV authentication is required''"
| "sentinelText ErrUIContractChanged = ''CGV UI contract changed''"
| "sentinelText ErrCaptchaRequired = ''manual CAPTCHA entry is required''"
| "sentinelText ErrProviderAccessBlocked = ''CGV blocked the current network identity''"
| "sentinelText ErrProviderThrottled = ''CGV temporarily rate limited requests''"
| "sentinelText ErrProviderServerError = ''CGV provider returned a server error''"
| "sentinelText ErrProviderTransport = ''CGV provider transport failed''"
| "sentinelText ErrProviderInvalidResult = ''CGV provider rejected or returned an invalid result''"
| "sentinelText ErrBrowserStartFailed = ''CGV browser could not start''"
| "sentinelText ErrIdentityMismatch = ''CGV provider identity does not match the assignment''"
| "sentinelText ErrNoBookableShowtime = ''CGV has no bookable showtime for the assignment''"
| "sentinelText ErrTargetDateUnavailable = ''CGV target date is not selectable''"
| "sentinelText ErrSeatAvailabilityIncomplete = ''CGV seat availability is incomplete''"
| "sentinelText ErrScheduleResponseMissing = ''CGV schedule response was not captured''"
| "sentinelText ErrTheaterResponseMissing = ''CGV theater response was not captured''"
| "sentinelText ErrLocalExecution = ''local scanner invariant failed''"
| "sentinelText ErrClosed = ''browser factory is closed''"
| "sentinelText DeadlineExceeded = ''context deadline exceeded''"
| "sentinelText Canceled = ''context canceled''"
| "sentinelText ErrNotExist = ''file does not exist''"
| "sentinelText EOF = ''EOF''"

datatype goerr =
    Sentinel sentinel
  | Errorf string "goerr list"
  | Joined "goerr list"
  | APIError int string

type_synonym 'a result = "goerr + 'a"

abbreviation errNew :: "string \<Rightarrow> goerr" where
  "errNew s \<equiv> Errorf s []"

text \<open>\<open>(*soxyAPIError).Error\<close>.\<close>

definition apiErrorText :: "int \<Rightarrow> string \<Rightarrow> string" where
  "apiErrorText status code =
    (if code \<noteq> [] then ''Soxy returned HTTP '' @ Itoa status @ '' ('' @ code @ '')''
     else ''Soxy returned HTTP '' @ Itoa status)"

fun errorText :: "goerr \<Rightarrow> string" where
  "errorText (Sentinel s) = sentinelText s"
| "errorText (Errorf t _) = t"
| "errorText (Joined es) = Join (map errorText es) [CHR 0x0A]"
| "errorText (APIError st code) = apiErrorText st code"

fun errorsIs :: "goerr \<Rightarrow> sentinel \<Rightarrow> bool" where
  "errorsIs (Sentinel s) t \<longleftrightarrow> s = t"
| "errorsIs (Errorf _ es) t \<longleftrightarrow> (\<exists>e \<in> set es. errorsIs e t)"
| "errorsIs (Joined es) t \<longleftrightarrow> (\<exists>e \<in> set es. errorsIs e t)"
| "errorsIs (APIError _ _) t \<longleftrightarrow> False"

fun asAPIError :: "goerr \<Rightarrow> (int \<times> string) option"
  and asAPIErrors :: "goerr list \<Rightarrow> (int \<times> string) option" where
  "asAPIError (Sentinel s) = None"
| "asAPIError (Errorf _ es) = asAPIErrors es"
| "asAPIError (Joined es) = asAPIErrors es"
| "asAPIError (APIError st code) = Some (st, code)"
| "asAPIErrors [] = None"
| "asAPIErrors (e # es) = (case asAPIError e of Some x \<Rightarrow> Some x | None \<Rightarrow> asAPIErrors es)"

text \<open>\<open>fmt.Errorf("%w: ...", sentinel)\<close> and \<open>fmt.Errorf("...: %w", err)\<close>.\<close>

definition wrapS :: "sentinel \<Rightarrow> string \<Rightarrow> goerr" where
  "wrapS s t = Errorf (sentinelText s @ '': '' @ t) [Sentinel s]"

definition wrapE :: "string \<Rightarrow> goerr \<Rightarrow> goerr" where
  "wrapE t e = Errorf (t @ '': '' @ errorText e) [e]"

definition wrapSE :: "sentinel \<Rightarrow> string \<Rightarrow> goerr \<Rightarrow> goerr" where
  "wrapSE s t e = Errorf (sentinelText s @ '': '' @ t @ '': '' @ errorText e) [Sentinel s, e]"

definition errorsJoin :: "goerr option list \<Rightarrow> goerr option" where
  "errorsJoin es = (case List.map_filter id es of [] \<Rightarrow> None | xs \<Rightarrow> Some (Joined xs))"

lemma errorsIs_wrapS [simp]: "errorsIs (wrapS s t) r \<longleftrightarrow> s = r"
  by (simp add: wrapS_def)

lemma errorsIs_wrapE [simp]: "errorsIs (wrapE t e) r \<longleftrightarrow> errorsIs e r"
  by (simp add: wrapE_def)

lemma errorsIs_wrapSE [simp]: "errorsIs (wrapSE s t e) r \<longleftrightarrow> s = r \<or> errorsIs e r"
  by (simp add: wrapSE_def)

lemma asAPIError_wrap [simp]:
  "asAPIError (wrapS s t) = None" "asAPIError (wrapE t e) = asAPIError e"
  "asAPIError (wrapSE s t e) = asAPIError e"
  by (simp_all add: wrapS_def wrapE_def wrapSE_def split: option.split)

lemma errorText_wrapS_ne [simp]: "errorText (wrapS s t) \<noteq> []"
  by (simp add: wrapS_def)

lemma errorText_wrapE_ne [simp]: "errorText (wrapE t e) \<noteq> []"
  by (simp add: wrapE_def)

lemma errorText_wrapSE_ne [simp]: "errorText (wrapSE s t e) \<noteq> []"
  by (simp add: wrapSE_def)

lemma sentinelText_ne [simp]: "sentinelText s \<noteq> []"
  by (cases s) simp_all

lemma errorsJoin_simps [simp]:
  "errorsJoin [] = None" "errorsJoin (None # es) = errorsJoin es"
  by (simp_all add: errorsJoin_def)

lemma errorsJoin_None_iff: "errorsJoin es = None \<longleftrightarrow> (\<forall>e \<in> set es. e = None)"
  by (induction es) (auto simp: errorsJoin_def List.map_filter_def split: list.splits)

end
