(* ===== verification/GoUrl.thy ===== *)
theory GoUrl
  imports GoErrors
begin

text \<open>
  \<open>net/url\<close> and the textual IP addresses of \<open>net\<close>, as the egress component uses them:
  \<open>url.Parse\<close> with its authority, host and user information, \<open>Hostname\<close> and \<open>Port\<close>, percent
  escaping, \<open>URL.String\<close>, \<open>net.JoinHostPort\<close>, \<open>net.ParseIP\<close>, \<open>IsPrivate\<close> and
  \<open>IsLoopback\<close>. The toolchain is Go 1.27: a host outside brackets holds at most one colon, and
  brackets hold a valid IPv6 address.
\<close>

section \<open>Cutting\<close>

fun cutChar :: "char \<Rightarrow> string \<Rightarrow> string \<times> string option" where
  "cutChar d [] = ([], None)"
| "cutChar d (c # s) = (if c = d then ([], Some s) else (let (a, b) = cutChar d s in (c # a, b)))"

text \<open>\<open>strings.LastIndex\<close> of one byte, as the parts before and after it.\<close>

definition cutLast :: "char \<Rightarrow> string \<Rightarrow> (string \<times> string) option" where
  "cutLast d s = (case cutChar d (rev s) of (a, None) \<Rightarrow> None | (a, Some b) \<Rightarrow> Some (rev b, rev a))"

lemma cutChar_none: "d \<notin> set s \<Longrightarrow> cutChar d s = (s, None)"
  by (induction s) auto

lemma cutChar_some: "d \<notin> set a \<Longrightarrow> cutChar d (a @ d # b) = (a, Some b)"
  by (induction a) auto

lemma cutLast_none: "d \<notin> set s \<Longrightarrow> cutLast d s = None"
  by (simp add: cutLast_def cutChar_none)

lemma cutLast_some: "d \<notin> set b \<Longrightarrow> cutLast d (a @ d # b) = Some (a, b)"
  by (simp add: cutLast_def cutChar_some)


section \<open>IP addresses\<close>

definition hexVal :: "char \<Rightarrow> nat option" where
  "hexVal c = (let n = (of_char c :: nat) in
     if 48 \<le> n \<and> n \<le> 57 then Some (n - 48)
     else if 97 \<le> n \<and> n \<le> 102 then Some (n - 87)
     else if 65 \<le> n \<and> n \<le> 70 then Some (n - 55) else None)"

text \<open>A decimal octet has at most three digits, no leading zero, and fits a byte.\<close>

definition parseOctet :: "string \<Rightarrow> nat option" where
  "parseOctet s =
    (if s = [] \<or> 3 < length s \<or> (1 < length s \<and> hd s = CHR ''0'') then None
     else case decVal 0 s of Some n \<Rightarrow> if n < 256 then Some n else None | None \<Rightarrow> None)"

fun allSome :: "'a option list \<Rightarrow> 'a list option" where
  "allSome [] = Some []"
| "allSome (None # xs) = None"
| "allSome (Some x # xs) = map_option ((#) x) (allSome xs)"

definition parseIPv4 :: "string \<Rightarrow> nat list option" where
  "parseIPv4 s = (let ps = Split (CHR ''.'') s in
     if length ps = 4 then allSome (map parseOctet ps) else None)"

fun hexGroup :: "nat \<Rightarrow> string \<Rightarrow> nat option" where
  "hexGroup acc [] = Some acc"
| "hexGroup acc (c # s) = (case hexVal c of None \<Rightarrow> None | Some v \<Rightarrow> hexGroup (16 * acc + v) s)"

definition parseGroup :: "string \<Rightarrow> nat list option" where
  "parseGroup s = (if s = [] \<or> 4 < length s then None
     else map_option (\<lambda>n. [n div 256, n mod 256]) (hexGroup 0 s))"

text \<open>The bytes of colon-separated groups; an IPv4 tail counts as two groups.\<close>

fun groupBytes :: "string list \<Rightarrow> nat list option" where
  "groupBytes [] = Some []"
| "groupBytes [g] = (if CHR ''.'' \<in> set g then parseIPv4 g else parseGroup g)"
| "groupBytes (g # gs) = (case (parseGroup g, groupBytes gs) of (Some a, Some b) \<Rightarrow> Some (a @ b) | _ \<Rightarrow> None)"

definition groupsOf :: "string \<Rightarrow> string list" where
  "groupsOf s = (if s = [] then [] else Split (CHR '':'') s)"

fun cutEllipsis :: "string \<Rightarrow> (string \<times> string) option" where
  "cutEllipsis (a # b # s) =
     (if a = CHR '':'' \<and> b = CHR '':'' then Some ([], s)
      else map_option (\<lambda>(l, r). (a # l, r)) (cutEllipsis (b # s)))"
| "cutEllipsis _ = None"

definition parseIPv6 :: "string \<Rightarrow> nat list option" where
  "parseIPv6 s =
    (case cutEllipsis s of
       None \<Rightarrow> (case groupBytes (Split (CHR '':'') s) of
                 Some bs \<Rightarrow> if length bs = 16 then Some bs else None | None \<Rightarrow> None)
     | Some (l, r) \<Rightarrow>
         (if CHR ''.'' \<in> set l then None
          else case (groupBytes (groupsOf l), groupBytes (groupsOf r)) of
           (Some a, Some b) \<Rightarrow>
             if length a + length b \<le> 14 then Some (a @ replicate (16 - length a - length b) 0 @ b) else None
         | _ \<Rightarrow> None))"

text \<open>
  \<open>net.ParseIP\<close>: 4 bytes or 16. An address of 16 bytes in the IPv4-mapped range reads as its
  IPv4 form in the tests below, as \<open>IP.To4\<close> makes it.
\<close>

definition ParseIP :: "string \<Rightarrow> nat list option" where
  "ParseIP s = (if CHR '':'' \<in> set s then parseIPv6 s else parseIPv4 s)"

definition to4 :: "nat list \<Rightarrow> nat list option" where
  "to4 ip = (if length ip = 4 then Some ip
     else if length ip = 16 \<and> take 12 ip = replicate 10 0 @ [255, 255] then Some (drop 12 ip) else None)"

definition IsPrivate :: "nat list \<Rightarrow> bool" where
  "IsPrivate ip = (case to4 ip of
      Some v4 \<Rightarrow> v4 ! 0 = 10 \<or> (v4 ! 0 = 172 \<and> v4 ! 1 div 16 = 1) \<or> (v4 ! 0 = 192 \<and> v4 ! 1 = 168)
    | None \<Rightarrow> length ip = 16 \<and> ip ! 0 div 2 = 126)"

definition IsLoopback :: "nat list \<Rightarrow> bool" where
  "IsLoopback ip = (case to4 ip of Some v4 \<Rightarrow> v4 ! 0 = 127 | None \<Rightarrow> ip = replicate 15 0 @ [1])"


section \<open>Percent escapes\<close>

datatype escMode = encodePath | encodePathSegment | encodeHost | encodeZone | encodeUserPassword | encodeFragment

definition isAlnum :: "char \<Rightarrow> bool" where
  "isAlnum c \<longleftrightarrow> (let n = (of_char c :: nat) in
     (48 \<le> n \<and> n \<le> 57) \<or> (65 \<le> n \<and> n \<le> 90) \<or> (97 \<le> n \<and> n \<le> 122))"

definition shouldEscape :: "char \<Rightarrow> escMode \<Rightarrow> bool" where
  "shouldEscape c m =
    (if isAlnum c then False
     else if (m = encodeHost \<or> m = encodeZone)
        \<and> c \<in> {CHR ''!'', CHR ''$'', CHR ''&'', CHR 0x27, CHR ''('', CHR '')'', CHR ''*'', CHR ''+'', CHR '','',
               CHR '';'', CHR ''='', CHR '':'', CHR ''['', CHR '']'', CHR ''<'', CHR ''>'', CHR 0x22} then False
     else if c \<in> {CHR ''-'', CHR ''_'', CHR ''.'', CHR ''~''} then False
     else if c \<in> {CHR ''$'', CHR ''&'', CHR ''+'', CHR '','', CHR ''/'', CHR '':'', CHR '';'', CHR ''='', CHR ''?'', CHR ''@''}
       then (case m of
           encodePath \<Rightarrow> c = CHR ''?''
         | encodePathSegment \<Rightarrow> c \<in> {CHR ''/'', CHR '';'', CHR '','', CHR ''?''}
         | encodeUserPassword \<Rightarrow> c \<in> {CHR ''@'', CHR ''/'', CHR ''?'', CHR '':''}
         | encodeFragment \<Rightarrow> False
         | _ \<Rightarrow> True)
     else if m = encodeFragment \<and> c \<in> {CHR ''!'', CHR ''('', CHR '')'', CHR ''*''} then False
     else True)"

definition upperHex :: "nat \<Rightarrow> char" where
  "upperHex n = (if n < 10 then char_of (48 + n) else char_of (55 + n))"

definition escapeByte :: "escMode \<Rightarrow> char \<Rightarrow> string" where
  "escapeByte m c = (if shouldEscape c m
     then [CHR ''%'', upperHex (of_char c div 16), upperHex (of_char c mod 16)] else [c])"

definition escape :: "escMode \<Rightarrow> string \<Rightarrow> string" where
  "escape m s = concat (map (escapeByte m) s)"

definition PathEscape :: "string \<Rightarrow> string" where
  "PathEscape s = escape encodePathSegment s"

fun unescape :: "escMode \<Rightarrow> string \<Rightarrow> string option" where
  "unescape m [] = Some []"
| "unescape m (c # s) =
     (if c = CHR ''%'' then
        (case s of
           a # b # r \<Rightarrow>
             (case (hexVal a, hexVal b) of
                (Some x, Some y) \<Rightarrow>
                  if m = encodeHost \<and> x < 8 \<and> \<not> (x = 2 \<and> y = 5) then None
                  else if m = encodeZone \<and> \<not> (x = 2 \<and> y = 5) \<and> 16 * x + y \<noteq> 32
                     \<and> shouldEscape (char_of (16 * x + y)) encodeHost then None
                  else map_option ((#) (char_of (16 * x + y))) (unescape m r)
              | _ \<Rightarrow> None)
         | _ \<Rightarrow> None)
      else if (m = encodeHost \<or> m = encodeZone) \<and> (of_char c :: nat) < 128 \<and> shouldEscape c m then None
      else map_option ((#) c) (unescape m s))"

lemma char_split: "(of_char c :: nat) div 16 < 16" "(of_char c :: nat) mod 16 < 16"
proof -
  have "(of_char c :: nat) < 256" by (rule nat_of_char_less_256)
  then show "(of_char c :: nat) div 16 < 16" "(of_char c :: nat) mod 16 < 16"
    by (simp_all add: less_mult_imp_div_less)
qed

lemma hexVal_upperHex: "n < 16 \<Longrightarrow> hexVal (upperHex n) = Some n"
  by (auto simp: hexVal_def upperHex_def Let_def)

text \<open>Reading back an escaped text gives the text, in the modes that allow every byte.\<close>

lemma unescape_escape:
  assumes "m' \<noteq> encodeHost" "m' \<noteq> encodeZone" shows "unescape m' (escape m s) = Some s"
proof (induction s)
  case Nil
  then show ?case by (simp add: escape_def)
next
  case (Cons c s)
  have percent: "shouldEscape (CHR ''%'') m" by (cases m) (simp_all add: shouldEscape_def isAlnum_def)
  have byte: "char_of (16 * ((of_char c :: nat) div 16) + of_char c mod 16) = c" by simp
  show ?case
  proof (cases "shouldEscape c m")
    case True
    then show ?thesis using Cons assms char_split[of c] byte
      by (simp add: escape_def escapeByte_def hexVal_upperHex)
  next
    case False
    with percent have "c \<noteq> CHR ''%''" by blast
    then show ?thesis using Cons assms False by (simp add: escape_def escapeByte_def)
  qed
qed


section \<open>URLs\<close>

record url =
  uScheme :: string
  uOpaque :: string
  uUser :: "(string \<times> string option) option"
  uHost :: string
  uPath :: string
  uRawQuery :: string
  uForceQuery :: bool
  uFragment :: string

definition zeroUrl :: url where
  "zeroUrl = \<lparr>uScheme = [], uOpaque = [], uUser = None, uHost = [], uPath = [], uRawQuery = [],
     uForceQuery = False, uFragment = []\<rparr>"

definition isLetter :: "char \<Rightarrow> bool" where
  "isLetter c \<longleftrightarrow> isAlnum c \<and> \<not> isDigit c"

text \<open>\<open>getScheme\<close>: the scheme and the rest; \<open>None\<close> is the missing-scheme error.\<close>

fun schemeLoop :: "string \<Rightarrow> string \<Rightarrow> (string \<times> string) option" where
  "schemeLoop seen [] = Some ([], rev seen)"
| "schemeLoop seen (c # s) =
     (if isLetter c then schemeLoop (c # seen) s
      else if isDigit c \<or> c \<in> {CHR ''+'', CHR ''-'', CHR ''.''} then
        (if seen = [] then Some ([], c # s) else schemeLoop (c # seen) s)
      else if c = CHR '':'' then (if seen = [] then None else Some (rev seen, s))
      else Some ([], rev seen @ c # s))"

definition validOptionalPort :: "string \<Rightarrow> bool" where
  "validOptionalPort p \<longleftrightarrow> p = [] \<or> (hd p = CHR '':'' \<and> list_all isDigit (tl p))"

definition validUserinfo :: "string \<Rightarrow> bool" where
  "validUserinfo s \<longleftrightarrow> list_all (\<lambda>c. isAlnum c \<or> c \<in> {CHR ''-'', CHR ''.'', CHR ''_'', CHR '':'', CHR ''~'', CHR ''!'',
     CHR ''$'', CHR ''&'', CHR 0x27, CHR ''('', CHR '')'', CHR ''*'', CHR ''+'', CHR '','', CHR '';'', CHR ''='', CHR ''%'', CHR ''@''}) s"

text \<open>
  \<open>parseHost\<close>. Inside brackets stands an IPv6 address, with a zone after the escaped percent sign;
  outside them at most one colon, in front of the port.
\<close>

fun cutZone :: "string \<Rightarrow> string \<times> string option" where
  "cutZone [] = ([], None)"
| "cutZone (c # s) = (if HasPrefix (c # s) ''%25'' then ([], Some (drop 2 s))
                     else (let (a, z) = cutZone s in (c # a, z)))"

definition parseBracketHost :: "string \<Rightarrow> string option" where
  "parseBracketHost host =
    (case cutLast (CHR '']'') host of
       None \<Rightarrow> None
     | Some (inner, port) \<Rightarrow>
         if \<not> validOptionalPort port then None
         else case cutZone (tl inner) of
             (a, None) \<Rightarrow> (case unescape encodeHost a of
                 Some h \<Rightarrow> if CHR '':'' \<in> set h \<and> parseIPv6 h \<noteq> None then Some (CHR ''['' # h @ CHR '']'' # port) else None
               | None \<Rightarrow> None)
           | (a, Some z) \<Rightarrow> (case (unescape encodeHost a, unescape encodeZone z) of
                 (Some h, Some zn) \<Rightarrow> if CHR '':'' \<in> set h \<and> parseIPv6 h \<noteq> None \<and> zn \<noteq> []
                   then Some (CHR ''['' # h @ CHR ''%'' # zn @ CHR '']'' # port) else None
               | _ \<Rightarrow> None))"

definition parseHost :: "string \<Rightarrow> string option" where
  "parseHost host =
    (if host \<noteq> [] \<and> hd host = CHR ''['' then parseBracketHost host
     else if CHR ''['' \<in> set host then None
     else case cutChar (CHR '':'') host of
         (_, None) \<Rightarrow> unescape encodeHost host
       | (_, Some port) \<Rightarrow> if list_all isDigit port then unescape encodeHost host else None)"

definition parseUser :: "string \<Rightarrow> (string \<times> string option) option" where
  "parseUser s =
    (if \<not> validUserinfo s then None
     else case cutChar (CHR '':'') s of
         (a, None) \<Rightarrow> map_option (\<lambda>u. (u, None)) (unescape encodeUserPassword a)
       | (a, Some b) \<Rightarrow> (case (unescape encodeUserPassword a, unescape encodeUserPassword b) of
             (Some u, Some p) \<Rightarrow> Some (u, Some p) | _ \<Rightarrow> None))"

definition parseAuthority :: "string \<Rightarrow> ((string \<times> string option) option \<times> string) option" where
  "parseAuthority s =
    (case cutLast (CHR ''@'') s of
       None \<Rightarrow> map_option (\<lambda>h. (None, h)) (parseHost s)
     | Some (ui, h) \<Rightarrow> (case (parseHost h, parseUser ui) of
           (Some h', Some u) \<Rightarrow> Some (Some u, h') | _ \<Rightarrow> None))"

definition hasCTL :: "string \<Rightarrow> bool" where
  "hasCTL s \<longleftrightarrow> \<not> list_all (\<lambda>c. 32 \<le> (of_char c :: nat) \<and> c \<noteq> CHR 0x7F) s"

definition splitQuery :: "string \<Rightarrow> string \<times> string \<times> bool" where
  "splitQuery rest =
    (case cutChar (CHR ''?'') rest of
       (a, Some []) \<Rightarrow> (a, [], True)
     | (a, Some q) \<Rightarrow> (a, q, False)
     | (a, None) \<Rightarrow> (a, [], False))"

definition parseHierarchy :: "url \<Rightarrow> string \<Rightarrow> url option" where
  "parseHierarchy u rest =
    (if HasPrefix rest ''//'' \<and> (uScheme u \<noteq> [] \<or> \<not> HasPrefix rest ''///'') then
       (let (authority, more) = cutChar (CHR ''/'') (drop 2 rest);
            path = (case more of None \<Rightarrow> [] | Some p \<Rightarrow> CHR ''/'' # p)
        in case (parseAuthority authority, unescape encodePath path) of
             (Some (us, h), Some p) \<Rightarrow> Some (u\<lparr>uUser := us, uHost := h, uPath := p\<rparr>)
           | _ \<Rightarrow> None)
     else map_option (\<lambda>p. u\<lparr>uPath := p\<rparr>) (unescape encodePath rest))"

definition parseNoFragment :: "string \<Rightarrow> url option" where
  "parseNoFragment raw =
    (if hasCTL raw then None
     else if raw = ''*'' then Some (zeroUrl\<lparr>uPath := ''*''\<rparr>)
     else case schemeLoop [] raw of
       None \<Rightarrow> None
     | Some (scheme, rest0) \<Rightarrow>
         (let (rest, q, force) = splitQuery rest0;
              u = zeroUrl\<lparr>uScheme := ToLower scheme, uRawQuery := q, uForceQuery := force\<rparr>
          in if \<not> HasPrefix rest ''/'' \<and> scheme \<noteq> [] then Some (u\<lparr>uOpaque := rest\<rparr>)
             else if \<not> HasPrefix rest ''/'' \<and> CHR '':'' \<in> set (fst (cutChar (CHR ''/'') rest)) then None
             else parseHierarchy u rest))"

definition urlError :: "string \<Rightarrow> goerr" where
  "urlError raw = errNew (''parse '' @ quoteGo raw)"

definition urlParse :: "string \<Rightarrow> url result" where
  "urlParse raw =
    (let (u, frag) = cutChar (CHR ''#'') raw in
     case parseNoFragment u of
       None \<Rightarrow> Inl (urlError u)
     | Some url \<Rightarrow>
         (case frag of None \<Rightarrow> Inr url | Some [] \<Rightarrow> Inr url
          | Some f \<Rightarrow> (case unescape encodeFragment f of
                Some f' \<Rightarrow> Inr (url\<lparr>uFragment := f'\<rparr>) | None \<Rightarrow> Inl (urlError raw))))"

text \<open>\<open>Hostname\<close> and \<open>Port\<close> split the host at its last colon, when digits only follow it.\<close>

definition splitHostPort :: "string \<Rightarrow> string \<times> string" where
  "splitHostPort hp =
    (let (h, p) = (case cutLast (CHR '':'') hp of
           Some (a, b) \<Rightarrow> if list_all isDigit b then (a, b) else (hp, [])
         | None \<Rightarrow> (hp, []))
     in (if HasPrefix h ''['' \<and> HasSuffix h '']'' then butlast (tl h) else h, p))"

definition Hostname :: "url \<Rightarrow> string" where "Hostname u = fst (splitHostPort (uHost u))"
definition Port :: "url \<Rightarrow> string" where "Port u = snd (splitHostPort (uHost u))"

definition JoinHostPort :: "string \<Rightarrow> string \<Rightarrow> string" where
  "JoinHostPort host port =
    (if CHR '':'' \<in> set host then CHR ''['' # host @ '']:'' @ port else host @ '':'' @ port)"

definition userString :: "string \<times> string option \<Rightarrow> string" where
  "userString u = escape encodeUserPassword (fst u) @
     (case snd u of None \<Rightarrow> [] | Some p \<Rightarrow> CHR '':'' # escape encodeUserPassword p)"

text \<open>
  \<open>URL.String\<close> for the URLs the repository prints: no opaque part. The path is escaped anew, as
  \<open>EscapedPath\<close> does when no other escaping was read.
\<close>

definition urlString :: "url \<Rightarrow> string" where
  "urlString u =
    (if uScheme u = [] then [] else uScheme u @ '':'') @
    (if uHost u \<noteq> [] \<or> uPath u \<noteq> [] \<and> uScheme u \<noteq> [] \<or> uUser u \<noteq> None then ''//'' else []) @
    (case uUser u of None \<Rightarrow> [] | Some us \<Rightarrow> userString us @ ''@'') @
    escape encodeHost (uHost u) @
    (if uPath u \<noteq> [] \<and> hd (uPath u) \<noteq> CHR ''/'' \<and> uHost u \<noteq> [] then ''/'' else []) @
    escape encodePath (uPath u) @
    (if uForceQuery u \<or> uRawQuery u \<noteq> [] then CHR ''?'' # uRawQuery u else []) @
    (if uFragment u = [] then [] else CHR ''#'' # escape encodeFragment (uFragment u))"

end
