(* ===== verification/GoTime.thy ===== *)
theory GoTime
  imports GoErrors
begin

text \<open>
  Go's \<open>time\<close>. A \<open>time.Duration\<close> is a 64-bit count of nanoseconds, a \<open>time.Time\<close> is an
  instant, here the count of nanoseconds from the Unix epoch (an \<open>int\<close>: the range of
  \<open>time.Time\<close> is far beyond 64 bits of nanoseconds), with the zero value at the start of
  year 1. Calendar days are proleptic Gregorian triples.
\<close>

type_synonym duration = int
type_synonym instant = int

definition millisecond :: duration where "millisecond = 1000000"
definition second :: duration where "second = 1000000000"
definition minute :: duration where "minute = 60 * second"
definition hour :: duration where "hour = 60 * minute"

lemmas duration_units = millisecond_def second_def minute_def hour_def

definition zeroTime :: instant where "zeroTime = - 62135596800 * second"

definition IsZero :: "instant \<Rightarrow> bool" where "IsZero t \<longleftrightarrow> t = zeroTime"

text \<open>\<open>Time.Sub\<close> saturates at the ends of the 64-bit range.\<close>

definition timeSub :: "instant \<Rightarrow> instant \<Rightarrow> duration" where
  "timeSub t u = max minInt64 (min maxInt64 (t - u))"


section \<open>Calendar days\<close>

record ymd =
  yr :: int
  mo :: int
  dy :: int

definition isLeap :: "int \<Rightarrow> bool" where
  "isLeap y \<longleftrightarrow> 4 dvd y \<and> (\<not> 100 dvd y \<or> 400 dvd y)"

definition daysIn :: "int \<Rightarrow> int \<Rightarrow> int" where
  "daysIn y m = (if m = 2 then (if isLeap y then 29 else 28)
                 else if m \<in> {4, 6, 9, 11} then 30 else 31)"

definition validYmd :: "ymd \<Rightarrow> bool" where
  "validYmd d \<longleftrightarrow> 1 \<le> mo d \<and> mo d \<le> 12 \<and> 1 \<le> dy d \<and> dy d \<le> daysIn (yr d) (mo d)"

text \<open>Days before the first day of a month, and the day number counted from 0001-01-01 as 1.\<close>

definition daysBeforeMonth :: "int \<Rightarrow> int \<Rightarrow> int" where
  "daysBeforeMonth y m =
    (if m \<le> 1 then 0 else if m = 2 then 31
     else (if isLeap y then 1 else 0) +
       (if m = 3 then 59 else if m = 4 then 90 else if m = 5 then 120 else if m = 6 then 151
        else if m = 7 then 181 else if m = 8 then 212 else if m = 9 then 243
        else if m = 10 then 273 else if m = 11 then 304 else 334))"

definition daysBeforeYear :: "int \<Rightarrow> int" where
  "daysBeforeYear y = 365 * (y - 1) + (y - 1) div 4 - (y - 1) div 100 + (y - 1) div 400"

definition dayNumber :: "ymd \<Rightarrow> int" where
  "dayNumber d = daysBeforeYear (yr d) + daysBeforeMonth (yr d) (mo d) + dy d"

text \<open>\<open>Time.Weekday\<close>: Sunday is 0; 0001-01-01 is a Monday.\<close>

definition weekday :: "ymd \<Rightarrow> int" where
  "weekday d = dayNumber d mod 7"

definition nextDay :: "ymd \<Rightarrow> ymd" where
  "nextDay d =
    (if dy d < daysIn (yr d) (mo d) then d\<lparr>dy := dy d + 1\<rparr>
     else if mo d < 12 then d\<lparr>mo := mo d + 1, dy := 1\<rparr>
     else d\<lparr>yr := yr d + 1, mo := 1, dy := 1\<rparr>)"

text \<open>\<open>Time.AddDate(0, 0, n)\<close> for \<open>n \<ge> 0\<close>.\<close>

fun addDays :: "nat \<Rightarrow> ymd \<Rightarrow> ymd" where
  "addDays 0 d = d"
| "addDays (Suc n) d = addDays n (nextDay d)"

lemma nextDay_valid: "validYmd d \<Longrightarrow> validYmd (nextDay d)"
  by (auto simp: validYmd_def nextDay_def daysIn_def)

lemma div_pred:
  assumes "0 < (k::int)" shows "y div k = (y - 1) div k + (if k dvd y then 1 else 0)"
proof (cases "k dvd y")
  case True
  then obtain q where q: "y = k * q" by blast
  have "(y - 1) div k = q - 1"
    by (rule int_div_pos_eq[of _ _ _ "k - 1"]) (use assms q in \<open>auto simp: algebra_simps\<close>)
  with q assms show ?thesis by simp
next
  case False
  then have "y mod k \<noteq> 0" "0 \<le> y mod k" "y mod k < k" using assms by (auto simp: dvd_eq_mod_eq_0)
  moreover have "y = k * (y div k) + y mod k" by simp
  ultimately have "(y - 1) div k = y div k"
    by (intro int_div_pos_eq[of _ _ _ "y mod k - 1"]) linarith+
  with False show ?thesis by simp
qed

lemma leap_count:
  "(r \<Longrightarrow> q) \<Longrightarrow> (q \<Longrightarrow> p) \<Longrightarrow> (if p \<and> (\<not> q \<or> r) then 1 else 0 :: int)
    = (if p then 1 else 0) - (if q then 1 else 0) + (if r then 1 else 0)"
  by (cases p; cases q; cases r) auto

lemma year_sum:
  "p = p' + a \<Longrightarrow> q = q' + b \<Longrightarrow> r = r' + c \<Longrightarrow>
    365 * y + p - q + r = 365 * (y - 1) + p' - q' + r' + 365 + (a - b + c :: int)"
  by simp

lemma leap_step: "daysBeforeYear (y + 1) = daysBeforeYear y + 365 + (if isLeap y then 1 else 0)"
proof -
  define a b c where "a = (if 4 dvd y then 1 else 0 :: int)" and "b = (if 100 dvd y then 1 else 0 :: int)"
    and "c = (if 400 dvd y then 1 else 0 :: int)"
  have "400 dvd y \<Longrightarrow> 100 dvd y" "100 dvd y \<Longrightarrow> 4 dvd y"
    by (rule dvd_trans[of 100 400 y], simp, assumption) (rule dvd_trans[of 4 100 y], simp, assumption)
  then have leap: "(if isLeap y then 1 else 0) = a - b + c"
    unfolding isLeap_def a_def b_def c_def by (rule leap_count)
  have "y div 4 = (y - 1) div 4 + a" "y div 100 = (y - 1) div 100 + b" "y div 400 = (y - 1) div 400 + c"
    unfolding a_def b_def c_def by (rule div_pred, simp)+
  then have "365 * y + y div 4 - y div 100 + y div 400
      = 365 * (y - 1) + (y - 1) div 4 - (y - 1) div 100 + (y - 1) div 400 + 365 + (a - b + c)"
    by (rule year_sum)
  then show ?thesis unfolding leap daysBeforeYear_def by simp
qed

lemma dayNumber_nextDay:
  assumes "validYmd d" shows "dayNumber (nextDay d) = dayNumber d + 1"
proof (cases "dy d < daysIn (yr d) (mo d)")
  case True
  then show ?thesis by (simp add: nextDay_def dayNumber_def)
next
  case False
  with assms have dy: "dy d = daysIn (yr d) (mo d)" by (simp add: validYmd_def)
  show ?thesis
  proof (cases "mo d < 12")
    case True
    have "1 \<le> mo d" using assms by (simp add: validYmd_def)
    with True have "mo d = 1 \<or> mo d = 2 \<or> mo d = 3 \<or> mo d = 4 \<or> mo d = 5 \<or> mo d = 6 \<or> mo d = 7
        \<or> mo d = 8 \<or> mo d = 9 \<or> mo d = 10 \<or> mo d = 11" by presburger
    then show ?thesis using False dy
      by (auto simp: nextDay_def dayNumber_def daysBeforeMonth_def daysIn_def)
  next
    case False
    with assms have "mo d = 12" by (simp add: validYmd_def)
    with dy \<open>\<not> dy d < daysIn (yr d) (mo d)\<close> leap_step[of "yr d"] show ?thesis
      by (simp add: nextDay_def dayNumber_def daysBeforeMonth_def daysIn_def)
  qed
qed

lemma addDays_valid: "validYmd d \<Longrightarrow> validYmd (addDays n d)"
  by (induction n arbitrary: d) (auto simp: nextDay_valid)

lemma dayNumber_addDays: "validYmd d \<Longrightarrow> dayNumber (addDays n d) = dayNumber d + int n"
  by (induction n arbitrary: d) (auto simp: nextDay_valid dayNumber_nextDay)

lemma addDays_Suc: "addDays (Suc n) d = nextDay (addDays n d)"
  by (induction n arbitrary: d) auto


section \<open>Dates as text\<close>

definition digits2 :: "string \<Rightarrow> int option" where
  "digits2 s = (if length s = 2 then map_option int (decVal 0 s) else None)"

definition mkYmd :: "int option \<Rightarrow> int option \<Rightarrow> int option \<Rightarrow> ymd option" where
  "mkYmd y m d = (case (y, m, d) of
      (Some y, Some m, Some d) \<Rightarrow>
        (let t = \<lparr>yr = y, mo = m, dy = d\<rparr> in if validYmd t then Some t else None)
    | _ \<Rightarrow> None)"

definition digits4 :: "string \<Rightarrow> int option" where
  "digits4 s = (if length s = 4 then map_option int (decVal 0 s) else None)"

text \<open>\<open>time.Parse(time.DateOnly, s)\<close> and \<open>time.Parse("20060102", s)\<close>.\<close>

definition parseDateOnly :: "string \<Rightarrow> ymd option" where
  "parseDateOnly s =
    (if length s = 10 \<and> s ! 4 = CHR ''-'' \<and> s ! 7 = CHR ''-''
     then mkYmd (digits4 (take 4 s)) (digits2 (take 2 (drop 5 s))) (digits2 (drop 8 s)) else None)"

definition parseCompactDate :: "string \<Rightarrow> ymd option" where
  "parseCompactDate s =
    (if length s = 8 then mkYmd (digits4 (take 4 s)) (digits2 (take 2 (drop 4 s))) (digits2 (drop 6 s))
     else None)"

text \<open>\<open>Time.Format(time.DateOnly)\<close> on years that are not negative.\<close>

definition formatDateOnly :: "ymd \<Rightarrow> string" where
  "formatDateOnly d =
     zeroPad 4 (natStr (nat (yr d))) @ ''-'' @ zeroPad 2 (natStr (nat (mo d))) @ ''-''
     @ zeroPad 2 (natStr (nat (dy d)))"

lemma decVal_zeros: "decVal 0 (replicate k (CHR ''0'') @ s) = decVal 0 s"
  by (induction k) (auto simp: isDigit_def digitVal_def)

lemma decVal_zeroPad [simp]: "decVal 0 (zeroPad w (natStr n)) = Some n"
  by (simp add: zeroPad_def decVal_zeros decVal_natStr)

lemma natStr_length: "0 < w \<Longrightarrow> n < 10 ^ w \<Longrightarrow> length (natStr n) \<le> w"
proof (induction w arbitrary: n)
  case 0
  then show ?case by simp
next
  case (Suc w)
  show ?case
  proof (cases "n < 10")
    case True
    then show ?thesis by (simp add: natStr.simps[of n])
  next
    case False
    then have "0 < w" using Suc.prems by (cases w) auto
    moreover have "n div 10 < 10 ^ w" using Suc.prems(2) by (simp add: less_mult_imp_div_less mult.commute)
    ultimately show ?thesis using Suc.IH False by (simp add: natStr.simps[of n])
  qed
qed

lemma zeroPad_length: "0 < w \<Longrightarrow> n < 10 ^ w \<Longrightarrow> length (zeroPad w (natStr n)) = w"
  using natStr_length[of w n] by (simp add: zeroPad_def)

lemma digit_char: "isDigit c \<Longrightarrow> isDigit d \<Longrightarrow> digitVal c = digitVal d \<Longrightarrow> c = d"
  unfolding isDigit_def digitVal_def
  by (metis of_char_eq_iff add_diff_inverse_nat not_le)

text \<open>Two digit strings of one length with one value are equal.\<close>

lemma decVal_inj:
  "length s = length t \<Longrightarrow> decVal 0 s = Some n \<Longrightarrow> decVal 0 t = Some n \<Longrightarrow> s = t"
proof (induction s arbitrary: t n rule: rev_induct)
  case Nil
  then show ?case by simp
next
  case (snoc c s)
  then obtain u d where t: "t = u @ [d]" "length u = length s"
    by (cases t rule: rev_cases) auto
  from snoc.prems(2) obtain a where a: "decVal 0 s = Some a" "isDigit c" "n = 10 * a + digitVal c"
    by (auto simp: decVal_append split: option.splits if_splits)
  from snoc.prems(3) t obtain b where b: "decVal 0 u = Some b" "isDigit d" "n = 10 * b + digitVal d"
    by (auto simp: decVal_append split: option.splits if_splits)
  have "digitVal c \<le> 9" "digitVal d \<le> 9"
    using a(2) b(2) unfolding isDigit_def digitVal_def by linarith+
  moreover have "10 * a + digitVal c = 10 * b + digitVal d" using a(3) b(3) by simp
  ultimately have "a = b" by presburger
  then have "digitVal c = digitVal d" using a(3) b(3) by simp
  with \<open>a = b\<close> snoc.IH[of u a] a b t digit_char[of c d] show ?case by auto
qed

lemma zeroPad_of_digits:
  assumes "decVal 0 s = Some n" "length s = w" "0 < w"
  shows "zeroPad w (natStr n) = s"
proof -
  have "n < 10 ^ w" using decVal_bound[OF assms(1)] assms(2) by simp
  with assms show ?thesis using decVal_inj[of "zeroPad w (natStr n)" s n] zeroPad_length by simp
qed

lemma digits2_Some: "digits2 s = Some m \<longleftrightarrow> length s = 2 \<and> (\<exists>n. decVal 0 s = Some n \<and> m = int n)"
  by (auto simp: digits2_def)

lemma digits4_Some: "digits4 s = Some m \<longleftrightarrow> length s = 4 \<and> (\<exists>n. decVal 0 s = Some n \<and> m = int n)"
  by (auto simp: digits4_def)

lemma mkYmd_Some:
  "mkYmd a b c = Some d \<longleftrightarrow> a = Some (yr d) \<and> b = Some (mo d) \<and> c = Some (dy d) \<and> validYmd d"
  by (cases d) (auto simp: mkYmd_def Let_def split: option.splits)

definition ymdInRange :: "ymd \<Rightarrow> bool" where
  "ymdInRange d \<longleftrightarrow> validYmd d \<and> 0 \<le> yr d \<and> yr d \<le> 9999"

lemma validYmd_two: "validYmd d \<Longrightarrow> nat (mo d) < 10 ^ 2 \<and> nat (dy d) < 10 ^ 2"
  by (auto simp: validYmd_def daysIn_def split: if_splits)

lemma ymd_parts_length:
  assumes "ymdInRange d"
  shows "length (zeroPad 4 (natStr (nat (yr d)))) = 4" "length (zeroPad 2 (natStr (nat (mo d)))) = 2"
    "length (zeroPad 2 (natStr (nat (dy d)))) = 2"
proof -
  from assms have "nat (yr d) < 10 ^ 4" by (auto simp: ymdInRange_def)
  then show "length (zeroPad 4 (natStr (nat (yr d)))) = 4" by (rule zeroPad_length[rotated]) simp
  from assms validYmd_two[of d] have "nat (mo d) < 10 ^ 2" "nat (dy d) < 10 ^ 2"
    by (auto simp: ymdInRange_def)
  then show "length (zeroPad 2 (natStr (nat (mo d)))) = 2" "length (zeroPad 2 (natStr (nat (dy d)))) = 2"
    by (auto intro: zeroPad_length[rotated])
qed

lemma formatDateOnly_length: "ymdInRange d \<Longrightarrow> length (formatDateOnly d) = 10"
  by (simp add: formatDateOnly_def ymd_parts_length)

lemma parse_formatDateOnly: "ymdInRange d \<Longrightarrow> parseDateOnly (formatDateOnly d) = Some d"
proof -
  assume r: "ymdInRange d"
  let ?y = "zeroPad 4 (natStr (nat (yr d)))" and ?m = "zeroPad 2 (natStr (nat (mo d)))"
    and ?d = "zeroPad 2 (natStr (nat (dy d)))"
  note len = ymd_parts_length[OF r]
  have s: "formatDateOnly d = ?y @ CHR ''-'' # ?m @ CHR ''-'' # ?d"
    by (simp add: formatDateOnly_def)
  have "formatDateOnly d ! 4 = CHR ''-''" "formatDateOnly d ! 7 = CHR ''-''"
    "take 4 (formatDateOnly d) = ?y" "take 2 (drop 5 (formatDateOnly d)) = ?m"
    "drop 8 (formatDateOnly d) = ?d"
    unfolding s using len by (simp_all add: nth_append)
  then show ?thesis using r len
    by (auto simp: parseDateOnly_def formatDateOnly_length digits4_Some digits2_Some mkYmd_Some
        ymdInRange_def validYmd_def)
qed

lemma parseDateOnly_inv:
  assumes "parseDateOnly s = Some d"
  shows "ymdInRange d \<and> formatDateOnly d = s"
proof -
  from assms have l: "length s = 10" "s ! 4 = CHR ''-''" "s ! 7 = CHR ''-''"
    and p: "digits4 (take 4 s) = Some (yr d)" "digits2 (take 2 (drop 5 s)) = Some (mo d)"
      "digits2 (drop 8 s) = Some (dy d)" "validYmd d"
    by (auto simp: parseDateOnly_def mkYmd_Some split: if_splits)
  from p(1) obtain y where y: "decVal 0 (take 4 s) = Some y" "yr d = int y" by (auto simp: digits4_Some)
  from p(2) obtain m where m: "decVal 0 (take 2 (drop 5 s)) = Some m" "mo d = int m" by (auto simp: digits2_Some)
  from p(3) obtain e where e: "decVal 0 (drop 8 s) = Some e" "dy d = int e" by (auto simp: digits2_Some)
  have "y < 10 ^ 4" using decVal_bound[OF y(1)] l(1) by simp
  then have r: "ymdInRange d" using p(4) y(2) by (simp add: ymdInRange_def)
  have "s = take 4 s @ s ! 4 # take 2 (drop 5 s) @ s ! 7 # drop 8 s"
    using l(1) id_take_nth_drop[of 4 s] id_take_nth_drop[of 2 "drop 5 s"] by simp
  also have "\<dots> = formatDateOnly d"
    using zeroPad_of_digits[OF y(1), of 4] zeroPad_of_digits[OF m(1), of 2] zeroPad_of_digits[OF e(1), of 2] l y m e
    by (simp add: formatDateOnly_def)
  finally show ?thesis using r by simp
qed

lemma parseCompactDate_range: "parseCompactDate s = Some d \<Longrightarrow> ymdInRange d"
proof -
  assume "parseCompactDate s = Some d"
  then have "length s = 8" "digits4 (take 4 s) = Some (yr d)" "validYmd d"
    by (auto simp: parseCompactDate_def mkYmd_Some split: if_splits)
  moreover then obtain y where "decVal 0 (take 4 s) = Some y" "yr d = int y" by (auto simp: digits4_Some)
  ultimately show ?thesis using decVal_bound[of 0 "take 4 s" y] by (simp add: ymdInRange_def)
qed

end
