(* ===== verification/GoJson.thy ===== *)
theory GoJson
  imports GoErrors
begin

text \<open>
  \<open>encoding/json\<close> on syntax trees. A document is the tree its bytes spell; a number keeps its
  literal, an object the pairs in the order of the text. A decoder of a Go type takes the value
  the destination holds and returns what it holds afterwards with the first type error, as the
  package does: null leaves the destination alone, a value of the wrong kind is remembered as an
  error and skipped, keys of a struct match its field names without regard to case and the last
  one wins. A destination slice starts from zero elements.
\<close>

datatype json =
    JNull | JBool bool | JNumber string | JString string
  | JArray "json list" | JObject "(string \<times> json) list"

type_synonym 'a decoder = "json \<Rightarrow> 'a \<Rightarrow> 'a \<times> goerr option"

definition typeError :: "string \<Rightarrow> goerr" where
  "typeError goType = errNew (''json: cannot unmarshal value into Go value of type '' @ goType)"

definition orErr :: "goerr option \<Rightarrow> goerr option \<Rightarrow> goerr option" where
  "orErr a b = (case a of Some e \<Rightarrow> Some e | None \<Rightarrow> b)"

fun decodeString :: "string decoder" where
  "decodeString (JString s) v = (s, None)"
| "decodeString JNull v = (v, None)"
| "decodeString _ v = (v, Some (typeError ''string''))"

fun decodeBool :: "bool decoder" where
  "decodeBool (JBool b) v = (b, None)"
| "decodeBool JNull v = (v, None)"
| "decodeBool _ v = (v, Some (typeError ''bool''))"

fun decodeInt :: "int decoder" where
  "decodeInt (JNumber lit) v =
     (case ParseInt 64 lit of Some i \<Rightarrow> (i, None) | None \<Rightarrow> (v, Some (typeError ''int'')))"
| "decodeInt JNull v = (v, None)"
| "decodeInt _ v = (v, Some (typeError ''int''))"

fun decodeElems :: "'a decoder \<Rightarrow> 'a \<Rightarrow> json list \<Rightarrow> 'a list \<times> goerr option" where
  "decodeElems dec z [] = ([], None)"
| "decodeElems dec z (j # js) =
     (let (x, e) = dec j z; (xs, e') = decodeElems dec z js in (x # xs, orErr e e'))"

fun decodeSlice :: "'a decoder \<Rightarrow> 'a \<Rightarrow> 'a list decoder" where
  "decodeSlice dec z (JArray js) v = decodeElems dec z js"
| "decodeSlice dec z JNull v = ([], None)"
| "decodeSlice dec z _ v = (v, Some (typeError ''slice''))"

text \<open>A struct: \<open>field key\<close> is the assignment of the field the key names, if it names one.\<close>

fun decodeFields :: "(string \<Rightarrow> 'a decoder option) \<Rightarrow> (string \<times> json) list \<Rightarrow> 'a \<Rightarrow> 'a \<times> goerr option" where
  "decodeFields field [] v = (v, None)"
| "decodeFields field ((k, j) # kvs) v =
     (case field k of
        None \<Rightarrow> decodeFields field kvs v
      | Some dec \<Rightarrow> (let (v', e) = dec j v; (v'', e') = decodeFields field kvs v' in (v'', orErr e e')))"

fun decodeStruct :: "(string \<Rightarrow> 'a decoder option) \<Rightarrow> 'a decoder" where
  "decodeStruct field (JObject kvs) v = decodeFields field kvs v"
| "decodeStruct field JNull v = (v, None)"
| "decodeStruct field _ v = (v, Some (typeError ''struct''))"

definition onField :: "('a \<Rightarrow> 'b) \<Rightarrow> ('b \<Rightarrow> 'a \<Rightarrow> 'a) \<Rightarrow> 'b decoder \<Rightarrow> 'a decoder" where
  "onField get put dec j v = (let (x, e) = dec j (get v) in (put x v, e))"

text \<open>A table of field names: the first name the key equals under case folding.\<close>

fun fieldTable :: "(string \<times> 'a decoder) list \<Rightarrow> string \<Rightarrow> 'a decoder option" where
  "fieldTable [] k = None"
| "fieldTable ((n, dec) # t) k = (if EqualFold n k then Some dec else fieldTable t k)"

text \<open>
  The bytes of a body as the decoders see them: the first JSON value with the count of bytes up to
  its end, and the offset of the first byte after it that is not white space. \<open>json.Unmarshal\<close> wants one value and nothing
  else; a \<open>json.Decoder\<close> over a limited reader wants the first value within the limit.
\<close>

record jsonBody =
  bSize :: nat
  bFirst :: "(json \<times> nat) option"
  bRest :: "nat option"

definition syntaxError :: goerr where
  "syntaxError = errNew ''invalid JSON''"

definition Unmarshal :: "'a decoder \<Rightarrow> jsonBody \<Rightarrow> 'a \<Rightarrow> 'a \<times> goerr option" where
  "Unmarshal dec body v =
    (case bFirst body of
       Some (j, _) \<Rightarrow> if bRest body = None then dec j v else (v, Some syntaxError)
     | None \<Rightarrow> (v, Some syntaxError))"

definition limitBody :: "nat \<Rightarrow> jsonBody \<Rightarrow> jsonBody" where
  "limitBody n body = \<lparr>bSize = min n (bSize body),
     bFirst = (case bFirst body of Some (j, k) \<Rightarrow> if k \<le> n then Some (j, k) else None | None \<Rightarrow> None),
     bRest = (case bRest body of Some k \<Rightarrow> if k < n then Some k else None | None \<Rightarrow> None)\<rparr>"

definition decoderDecode :: "'a decoder \<Rightarrow> jsonBody \<Rightarrow> 'a \<Rightarrow> 'a \<times> goerr option" where
  "decoderDecode dec body v =
    (case bFirst body of Some (j, _) \<Rightarrow> dec j v
     | None \<Rightarrow> (v, Some (if bSize body = 0 then Sentinel EOF else syntaxError)))"

text \<open>An object with no key of the struct leaves the destination as it is.\<close>

lemma decodeFields_none: "\<forall>(k, j) \<in> set kvs. field k = None \<Longrightarrow> decodeFields field kvs v = (v, None)"
  by (induction kvs) auto

lemma decodeElems_length: "length (fst (decodeElems dec z js)) = length js"
  by (induction js) (auto simp: Let_def split: prod.splits)

end
