(* ===== verification/Soxy.thy ===== *)
theory Soxy
  imports Egress GoJson "HOL-Library.Multiset"
begin

text \<open>
  The Soxy client (\<open>internal/egress/soxy.go\<close>), proxy acquisition (\<open>acquire\<close> in
  \<open>internal/egress/egress.go\<close>) and the configuration check (\<open>internal/egress/health.go\<close>).

  The Soxy service is a parameter: \<open>svc\<close> answers a request in the service's state with a reply or
  a transport error. Every operation threads a \<open>world\<close>: the state of the service and the log of
  the calls made, each with its answer, so that what the code asks of the service is part of
  what is proved. The random source is a parameter too: \<open>draw k m\<close> is the k-th result of
  \<open>rand.Int\<close> with bound \<open>m\<close>, and the world counts the draws.
\<close>

section \<open>The origin of the service\<close>

record soxyClient =
  scBaseURL :: string
  scToken :: string

type_synonym resolver = "string \<Rightarrow> nat list option list result"

definition isPrivateIPHost :: "string \<Rightarrow> bool" where
  "isPrivateIPHost host = (case ParseIP (TrimSpace host) of Some ip \<Rightarrow> IsPrivate ip | None \<Rightarrow> False)"

definition isLoopbackHost :: "string \<Rightarrow> bool" where
  "isLoopbackHost host0 =
    (let host = TrimSuffix (ToLower (TrimSpace host0)) ''.'' in
     host = ''localhost'' \<or> HasSuffix host ''.localhost''
     \<or> (case ParseIP host of Some ip \<Rightarrow> IsLoopback ip | None \<Rightarrow> False))"

text \<open>An address without an IP is \<open>None\<close>; a missing resolver is \<open>None\<close>.\<close>

definition privateAddress :: "nat list option \<Rightarrow> bool" where
  "privateAddress a = (case a of None \<Rightarrow> False | Some ip \<Rightarrow> IsPrivate ip \<or> IsLoopback ip)"

definition validatePrivateNetworkHost :: "resolver option \<Rightarrow> string \<Rightarrow> unit result" where
  "validatePrivateNetworkHost lookup host =
    (case lookup of
       None \<Rightarrow> Inl (errNew ''private network resolver is unavailable'')
     | Some l \<Rightarrow>
         (case l (TrimSpace host) of
            Inl _ \<Rightarrow> Inl (errNew ''private network host cannot be resolved'')
          | Inr addresses \<Rightarrow>
              if addresses = [] then Inl (errNew ''private network host cannot be resolved'')
              else if \<not> list_all privateAddress addresses then
                Inl (errNew ''private network host resolved outside the private network'')
              else Inr ()))"

definition validateSoxyOrigin :: "resolver option \<Rightarrow> url \<Rightarrow> bool result" where
  "validateSoxyOrigin lookup parsed =
    (if uScheme parsed \<noteq> ''http'' \<and> uScheme parsed \<noteq> ''https'' \<or> uHost parsed = [] then
       Inl (errNew ''soxy URL must be an HTTP or HTTPS origin'')
     else
       (let privateHTTPOrigin = (uScheme parsed = ''http'' \<and> \<not> isLoopbackHost (Hostname parsed)
              \<and> \<not> isPrivateIPHost (Hostname parsed)) in
        if privateHTTPOrigin \<and> \<not> isOk (validatePrivateNetworkHost lookup (Hostname parsed)) then
          Inl (errNew ''soxy URL must use HTTPS unless its host resolves only to private IP addresses'')
        else if uUser parsed \<noteq> None \<or> uRawQuery parsed \<noteq> [] \<or> uFragment parsed \<noteq> []
             \<or> uPath parsed \<noteq> [] \<and> uPath parsed \<noteq> ''/'' then
          Inl (errNew ''soxy URL must not contain credentials, a path, query, or fragment'')
        else Inr privateHTTPOrigin))"

definition trimSlashes :: "string \<Rightarrow> string" where
  "trimSlashes s = rev (dropWhile (\<lambda>c. c = CHR ''/'') (rev s))"

definition newSoxyClient :: "resolver option \<Rightarrow> string \<Rightarrow> string \<Rightarrow> soxyClient result" where
  "newSoxyClient lookup rawURL token =
    bindR (mapErr (wrapE ''parse Soxy URL'') (urlParse (TrimSpace rawURL))) (\<lambda>parsed.
    bindR (validateSoxyOrigin lookup parsed) (\<lambda>_.
    Inr \<lparr>scBaseURL = trimSlashes (urlString parsed), scToken = TrimSpace token\<rparr>))"




section \<open>Requests\<close>

record soxyRequest =
  rqMethod :: string
  rqURL :: string
  rqHeaders :: "(string \<times> string) list"
  rqPayload :: "json option"

record httpReply =
  rpStatus :: int
  rpBody :: jsonBody

record 's world =
  wSvc :: 's
  wLog :: "(soxyRequest \<times> httpReply result) list"
  wDraws :: nat

type_synonym 's service = "'s \<Rightarrow> soxyRequest \<Rightarrow> httpReply result \<times> 's"

definition call :: "'s service \<Rightarrow> soxyRequest \<Rightarrow> 's world \<Rightarrow> httpReply result \<times> 's world" where
  "call svc rq w =
    (let (reply, s') = svc (wSvc w) rq in (reply, w\<lparr>wSvc := s', wLog := wLog w @ [(rq, reply)]\<rparr>))"

definition errorCode :: "jsonBody \<Rightarrow> string" where
  "errorCode body =
    fst (Unmarshal (decodeStruct (fieldTable
        [(''error'', decodeStruct (fieldTable [(''code'', decodeString)]))])) (limitBody 4096 body) [])"

text \<open>
  \<open>requestWithHeaders\<close>. \<open>dest\<close> is the destination's decoder with the value it starts from, \<open>None\<close>
  when the caller passes nil; the result is then the starting value of the caller.
\<close>

definition requestWithHeaders ::
  "'s service \<Rightarrow> soxyClient \<Rightarrow> string \<Rightarrow> string \<Rightarrow> json option \<Rightarrow> int \<Rightarrow> 'a decoder option \<Rightarrow> 'a \<Rightarrow>
   (string \<times> string) list \<Rightarrow> 's world \<Rightarrow> 'a result \<times> 's world" where
  "requestWithHeaders svc client meth path payload wantStatus dest v headers w =
    (case urlParse (scBaseURL client @ path) of
       Inl e \<Rightarrow> (Inl (wrapE ''create Soxy request'' e), w)
     | Inr _ \<Rightarrow>
         (let rq = \<lparr>rqMethod = meth, rqURL = scBaseURL client @ path,
                rqHeaders = [(''Authorization'', ''Bearer '' @ scToken client), (''Accept'', ''application/json'')]
                  @ headers @ (if payload = None then [] else [(''Content-Type'', ''application/json'')]),
                rqPayload = payload\<rparr>;
              (reply, w') = call svc rq w
          in case reply of
               Inl e \<Rightarrow> (Inl (wrapE ''call Soxy'' e), w')
             | Inr r \<Rightarrow>
                 if rpStatus r \<noteq> wantStatus then (Inl (APIError (rpStatus r) (errorCode (rpBody r))), w')
                 else (case dest of
                     None \<Rightarrow> (Inr v, w')
                   | Some dec \<Rightarrow>
                       if rpStatus r = 204 then (Inr v, w')
                       else (case decoderDecode dec (limitBody (2 ^ 20) (rpBody r)) v of
                           (x, None) \<Rightarrow> (Inr x, w')
                         | (x, Some e) \<Rightarrow> (Inl (wrapE ''decode Soxy response'' e), w')))))"

definition request ::
  "'s service \<Rightarrow> soxyClient \<Rightarrow> string \<Rightarrow> string \<Rightarrow> json option \<Rightarrow> int \<Rightarrow> 'a decoder option \<Rightarrow> 'a \<Rightarrow>
   's world \<Rightarrow> 'a result \<times> 's world" where
  "request svc client meth path payload wantStatus dest v w =
    requestWithHeaders svc client meth path payload wantStatus dest v [] w"


section \<open>Slots and sessions\<close>

record soxySlot =
  slID :: string
  slStatus :: string
  slCurrentIP :: string

record soxyProxy =
  spScheme :: string
  spHost :: string
  spPort :: int
  spUsername :: string
  spPassword :: string

record soxySession =
  ssID :: string
  ssStatus :: string
  ssReady :: bool
  ssProxy :: soxyProxy

definition zeroSlot :: soxySlot where
  "zeroSlot = \<lparr>slID = [], slStatus = [], slCurrentIP = []\<rparr>"

definition zeroSoxyProxy :: soxyProxy where
  "zeroSoxyProxy = \<lparr>spScheme = [], spHost = [], spPort = 0, spUsername = [], spPassword = []\<rparr>"

definition zeroSession :: soxySession where
  "zeroSession = \<lparr>ssID = [], ssStatus = [], ssReady = False, ssProxy = zeroSoxyProxy\<rparr>"

definition decodeSlot :: "soxySlot decoder" where
  "decodeSlot = decodeStruct (fieldTable
    [(''id'', onField slID (\<lambda>x v. v\<lparr>slID := x\<rparr>) decodeString),
     (''status'', onField slStatus (\<lambda>x v. v\<lparr>slStatus := x\<rparr>) decodeString),
     (''current_ip'', onField slCurrentIP (\<lambda>x v. v\<lparr>slCurrentIP := x\<rparr>) decodeString)])"

definition decodeProxy :: "soxyProxy decoder" where
  "decodeProxy = decodeStruct (fieldTable
    [(''scheme'', onField spScheme (\<lambda>x v. v\<lparr>spScheme := x\<rparr>) decodeString),
     (''host'', onField spHost (\<lambda>x v. v\<lparr>spHost := x\<rparr>) decodeString),
     (''port'', onField spPort (\<lambda>x v. v\<lparr>spPort := x\<rparr>) decodeInt),
     (''username'', onField spUsername (\<lambda>x v. v\<lparr>spUsername := x\<rparr>) decodeString),
     (''password'', onField spPassword (\<lambda>x v. v\<lparr>spPassword := x\<rparr>) decodeString)])"

definition decodeSession :: "soxySession decoder" where
  "decodeSession = decodeStruct (fieldTable
    [(''id'', onField ssID (\<lambda>x v. v\<lparr>ssID := x\<rparr>) decodeString),
     (''status'', onField ssStatus (\<lambda>x v. v\<lparr>ssStatus := x\<rparr>) decodeString),
     (''ready'', onField ssReady (\<lambda>x v. v\<lparr>ssReady := x\<rparr>) decodeBool),
     (''proxy'', onField ssProxy (\<lambda>x v. v\<lparr>ssProxy := x\<rparr>) decodeProxy)])"

definition decodeSlots :: "soxySlot list decoder" where
  "decodeSlots = decodeStruct (fieldTable [(''slots'', decodeSlice decodeSlot zeroSlot)])"

definition usableSlot :: "soxySlot \<Rightarrow> bool" where
  "usableSlot slot \<longleftrightarrow> slID slot \<noteq> [] \<and> slStatus slot = ''available'' \<and> slCurrentIP slot \<noteq> []"

definition availableSlots :: "'s service \<Rightarrow> soxyClient \<Rightarrow> 's world \<Rightarrow> soxySlot list result \<times> 's world" where
  "availableSlots svc client w =
    (case request svc client ''GET'' ''/v1/slots'' None 200 (Some decodeSlots) [] w of
       (Inl e, w') \<Rightarrow> (Inl e, w')
     | (Inr slots, w') \<Rightarrow>
         (let available = filter usableSlot slots in
          if available = [] then (Inl (Sentinel ErrNoProxyCapacity), w') else (Inr available, w')))"

definition sessionPath :: "string \<Rightarrow> string" where
  "sessionPath sessionID = ''/v1/sessions/'' @ PathEscape sessionID"

definition releaseSession :: "'s service \<Rightarrow> soxyClient \<Rightarrow> string \<Rightarrow> 's world \<Rightarrow> unit result \<times> 's world" where
  "releaseSession svc client sessionID w =
    (case request svc client ''DELETE'' (sessionPath sessionID) None 204 None () w of
       (Inl e, w') \<Rightarrow> (case asAPIError e of
           Some (status, _) \<Rightarrow> if status = 404 then (Inr (), w') else (Inl e, w')
         | None \<Rightarrow> (Inl e, w'))
     | (Inr u, w') \<Rightarrow> (Inr u, w'))"

definition extendSession ::
  "'s service \<Rightarrow> soxyClient \<Rightarrow> string \<Rightarrow> duration \<Rightarrow> 's world \<Rightarrow> unit result \<times> 's world" where
  "extendSession svc client sessionID extension w =
    request svc client ''POST'' (sessionPath sessionID @ ''/extend'')
      (Some (JObject [(''extend_by_seconds'', JNumber (Itoa (truncDiv extension second)))])) 200 None () w"

definition createPayload :: "duration \<Rightarrow> string \<Rightarrow> json" where
  "createPayload ttl slotID = JObject ((''ttl_seconds'', JNumber (Itoa (truncDiv ttl second))) #
     (if slotID = [] then [] else [(''slot_id'', JString slotID)]))"

definition createSession ::
  "'s service \<Rightarrow> soxyClient \<Rightarrow> duration \<Rightarrow> string \<Rightarrow> 's world \<Rightarrow> soxySession result \<times> 's world" where
  "createSession svc client ttl slotID w =
    (case request svc client ''POST'' ''/v1/sessions'' (Some (createPayload ttl slotID)) 201
        (Some decodeSession) zeroSession w of
       (Inl e, w') \<Rightarrow> (Inl e, w')
     | (Inr session, w') \<Rightarrow>
         if ssID session = [] \<or> ssStatus session \<noteq> ''active'' \<or> \<not> ssReady session then
           (let w'' = (if ssID session \<noteq> [] then snd (releaseSession svc client (ssID session) w') else w')
            in (Inl (errNew ''soxy returned a session that is not ready''), w''))
         else (Inr session, w'))"

definition reportProviderFailure ::
  "'s service \<Rightarrow> soxyClient \<Rightarrow> string \<Rightarrow> string \<Rightarrow> string \<Rightarrow> string \<Rightarrow> 's world \<Rightarrow> unit result \<times> 's world" where
  "reportProviderFailure svc client sessionID provider signal idempotencyKey w =
    requestWithHeaders svc client ''POST'' (sessionPath sessionID @ ''/provider-failures'')
      (Some (JObject [(''provider'', JString provider), (''signal'', JString signal)])) 202 None ()
      [(''Idempotency-Key'', idempotencyKey)] w"


section \<open>Acquisition\<close>

text \<open>\<open>net.IPAddr\<close> aside, a proxy the service names is turned into a URL and validated as one.\<close>

definition proxyUser :: "string \<Rightarrow> string \<Rightarrow> (string \<times> string option) option" where
  "proxyUser username password =
    (if username = [] then None else if password = [] then Some (username, None) else Some (username, Some password))"

definition proxyFromSoxy :: "soxyProxy \<Rightarrow> Proxy result" where
  "proxyFromSoxy p =
    (if spHost p = [] \<or> spPort p < 1 \<or> 65535 < spPort p then Inl (errNew ''proxy host or port is invalid'')
     else ParseProxy (urlString (zeroUrl\<lparr>uScheme := spScheme p,
            uHost := JoinHostPort (spHost p) (Itoa (spPort p)),
            uUser := proxyUser (spUsername p) (spPassword p)\<rparr>)))"

definition randomIndex :: "(nat \<Rightarrow> int \<Rightarrow> int result) \<Rightarrow> int \<Rightarrow> 's world \<Rightarrow> int result \<times> 's world" where
  "randomIndex draw n w =
    (if n < 1 then (Inl (errNew ''cannot choose from an empty proxy set''), w)
     else (draw (wDraws w) n, w\<lparr>wDraws := wDraws w + 1\<rparr>))"

text \<open>
  \<open>slots[index] = slots[len-1]; slots = slots[:len-1]\<close>. An index outside the slice panics in Go;
  \<open>randomIndex\<close> never returns one.
\<close>

definition dropSlot :: "nat \<Rightarrow> 'a list \<Rightarrow> 'a list" where
  "dropSlot i xs = butlast (xs[i := last xs])"

lemma dropSlot_length: "xs \<noteq> [] \<Longrightarrow> length (dropSlot i xs) = length xs - 1"
  by (simp add: dropSlot_def)

text \<open>An API error of status 409 or 404 means that the slot was taken meanwhile.\<close>

definition slotGone :: "goerr \<Rightarrow> bool" where
  "slotGone e = (case asAPIError e of Some (status, _) \<Rightarrow> status = 409 \<or> status = 404 | None \<Rightarrow> False)"

function soxySlotLoop ::
  "'s service \<Rightarrow> (nat \<Rightarrow> int \<Rightarrow> int result) \<Rightarrow> soxyClient \<Rightarrow> duration \<Rightarrow> soxySlot list \<Rightarrow> 's world \<Rightarrow>
   soxySession result \<times> 's world" where
  "soxySlotLoop svc draw client ttl slots w =
    (if slots = [] then (Inl (Sentinel ErrNoProxyCapacity), w)
     else case randomIndex draw (int (length slots)) w of
         (Inl e, w1) \<Rightarrow> (Inl (wrapE ''select Soxy slot'' e), w1)
       | (Inr index, w1) \<Rightarrow>
           (case createSession svc client ttl (slID (slots ! nat index)) w1 of
              (Inr session, w2) \<Rightarrow> (Inr session, w2)
            | (Inl e, w2) \<Rightarrow>
                if slotGone e then soxySlotLoop svc draw client ttl (dropSlot (nat index) slots) w2
                else (Inl e, w2)))"
  by pat_completeness auto
termination
  by (relation "measure (\<lambda>(svc, draw, client, ttl, slots, w). length slots)") (auto simp: dropSlot_length)

declare soxySlotLoop.simps [simp del]

definition acquireRandomSoxySession ::
  "'s service \<Rightarrow> (nat \<Rightarrow> int \<Rightarrow> int result) \<Rightarrow> soxyClient Manager \<Rightarrow> soxyClient \<Rightarrow> 's world \<Rightarrow> soxySession result \<times> 's world" where
  "acquireRandomSoxySession svc draw manager client w =
    (case availableSlots svc client w of
       (Inl e, w') \<Rightarrow> (Inl e, w')
     | (Inr slots, w') \<Rightarrow> soxySlotLoop svc draw client (mSessionTTL manager) slots w')"

text \<open>
  What \<open>newLease\<close> is given: the proxy, and for a Soxy session the identifier its release, extend
  and report closures carry, the renewal interval and the tolerated failures. A renewal loop is
  started when there is an extender and the interval is positive.
\<close>

record Lease =
  leProxy :: Proxy
  leSession :: "string option"
  leInterval :: duration
  leMaxErrors :: int

definition newLease :: "Proxy \<Rightarrow> string option \<Rightarrow> duration \<Rightarrow> int \<Rightarrow> Lease" where
  "newLease proxy session interval maxErrors =
    \<lparr>leProxy = proxy, leSession = session, leInterval = interval, leMaxErrors = maxErrors\<rparr>"

definition pickProxy ::
  "(nat \<Rightarrow> int \<Rightarrow> int result) \<Rightarrow> string \<Rightarrow> Proxy list \<Rightarrow> 's world \<Rightarrow> Lease result \<times> 's world" where
  "pickProxy draw what proxies w =
    (case randomIndex draw (int (length proxies)) w of
       (Inl e, w') \<Rightarrow> (Inl (wrapE what e), w')
     | (Inr index, w') \<Rightarrow> (Inr (newLease (proxies ! nat index) None 0 0), w'))"

definition acquire ::
  "'s service \<Rightarrow> (nat \<Rightarrow> int \<Rightarrow> int result) \<Rightarrow> soxyClient Manager \<Rightarrow> bool \<Rightarrow> Purpose \<Rightarrow> 's world \<Rightarrow> Lease result \<times> 's world" where
  "acquire svc draw manager hasParent purpose w =
    (if \<not> hasParent then (Inl (errNew ''proxy lease context is required''), w)
     else if purpose \<noteq> PurposeSession \<and> purpose \<noteq> PurposeScan then
       (Inl (errNew (''unknown proxy purpose '' @ quoteGo purpose)), w)
     else if 0 < length (mProxies manager) then pickProxy draw ''select proxy'' (mProxies manager) w
     else if purpose = PurposeScan \<and> 0 < length (mLegacyScanProxies manager) then
       pickProxy draw ''select scan proxy'' (mLegacyScanProxies manager) w
     else case mClient manager of
         None \<Rightarrow> (Inr (newLease zeroProxy None 0 0), w)
       | Some client \<Rightarrow>
           (case (if purpose = PurposeScan then acquireRandomSoxySession svc draw manager client w
                  else createSession svc client (mSessionTTL manager) [] w) of
              (Inl e, w') \<Rightarrow> (Inl e, w')
            | (Inr session, w') \<Rightarrow>
                (case proxyFromSoxy (ssProxy session) of
                   Inl e \<Rightarrow> (let (_, w'') = releaseSession svc client (ssID session) w'
                             in (Inl (wrapE ''invalid proxy returned by Soxy'' e), w''))
                 | Inr proxy \<Rightarrow>
                     (Inr (newLease proxy (Some (ssID session)) (mRenewInterval manager) (mMaxRenewFailures manager)), w'))))"

definition AcquireForPolicy ::
  "'s service \<Rightarrow> (nat \<Rightarrow> int \<Rightarrow> int result) \<Rightarrow> soxyClient Manager \<Rightarrow> bool \<Rightarrow> Purpose \<Rightarrow> string \<Rightarrow> 's world \<Rightarrow> Lease result \<times> 's world" where
  "AcquireForPolicy svc draw manager hasParent purpose policyID w =
    (if purpose \<noteq> PurposeScan then
       (Inl (Errorf (sentinelText ErrUnknownPolicy @ '' '' @ quoteGo policyID @ '' for purpose '' @ quoteGo purpose)
          [Sentinel ErrUnknownPolicy]), w)
     else if TrimSpace policyID \<noteq> PolicyScanDefault then
       (Inl (Errorf (sentinelText ErrUnknownPolicy @ '' '' @ quoteGo policyID) [Sentinel ErrUnknownPolicy]), w)
     else acquire svc draw manager hasParent purpose w)"


section \<open>Validating a configuration\<close>

fun validateSlots ::
  "'s service \<Rightarrow> soxyClient \<Rightarrow> duration \<Rightarrow> (Proxy \<Rightarrow> unit result) \<Rightarrow> soxySlot list \<Rightarrow> 's world \<Rightarrow> unit result \<times> 's world" where
  "validateSlots svc client ttl probe [] w = (Inr (), w)"
| "validateSlots svc client ttl probe (slot # slots) w =
     (case createSession svc client ttl (slID slot) w of
        (Inl e, w') \<Rightarrow> (Inl (wrapE (''validate Soxy slot '' @ slID slot) e), w')
      | (Inr session, w') \<Rightarrow>
          (let proxyR = proxyFromSoxy (ssProxy session);
               proxyErr = (case proxyR of Inl e \<Rightarrow> Some e | Inr _ \<Rightarrow> None);
               probeErr = (case proxyR of Inl _ \<Rightarrow> None
                           | Inr proxy \<Rightarrow> (case probe proxy of Inl e \<Rightarrow> Some e | Inr _ \<Rightarrow> None));
               (closeR, w'') = releaseSession svc client (ssID session) w';
               closeErr = (case closeR of Inl e \<Rightarrow> Some e | Inr _ \<Rightarrow> None)
           in case errorsJoin [proxyErr, probeErr, closeErr] of
                Some e \<Rightarrow> (Inl (wrapE (''validate Soxy slot '' @ slID slot) e), w'')
              | None \<Rightarrow> validateSlots svc client ttl probe slots w''))"

definition validateSoxySlots ::
  "'s service \<Rightarrow> soxyClient \<Rightarrow> duration \<Rightarrow> (Proxy \<Rightarrow> unit result) \<Rightarrow> 's world \<Rightarrow> unit result \<times> 's world" where
  "validateSoxySlots svc client ttl probe w =
    (case availableSlots svc client w of
       (Inl e, w') \<Rightarrow> (Inl (wrapE ''validate Soxy inventory'' e), w')
     | (Inr slots, w') \<Rightarrow> validateSlots svc client ttl probe slots w')"

fun probeAll :: "(Proxy \<Rightarrow> unit result) \<Rightarrow> Proxy list \<Rightarrow> unit result" where
  "probeAll probe [] = Inr ()"
| "probeAll probe (p # ps) =
     bindR (mapErr (wrapE (''validate proxy '' @ Server p)) (probe p)) (\<lambda>_. probeAll probe ps)"

definition ValidateConfig ::
  "'s service \<Rightarrow> resolver option \<Rightarrow> (Proxy \<Rightarrow> unit result) \<Rightarrow> Config \<Rightarrow> 's world \<Rightarrow> unit result \<times> 's world" where
  "ValidateConfig svc lookup probe config w =
    (case NewManager (newSoxyClient lookup) config of
       Inl e \<Rightarrow> (Inl e, w)
     | Inr manager \<Rightarrow>
         (case mClient manager of
            Some client \<Rightarrow> validateSoxySlots svc client (mSessionTTL manager) probe w
          | None \<Rightarrow> (probeAll probe (cProxies config @ cScanProxies config), w)))"


section \<open>The ledger of sessions\<close>

text \<open>
  \<open>openIn base log\<close>: the sessions the service handed out, in a reply the client could read, and
  whose release was not requested afterwards.
\<close>

definition handedOut :: "httpReply result \<Rightarrow> string option" where
  "handedOut rp = (case rp of Inl _ \<Rightarrow> None | Inr r \<Rightarrow>
     if rpStatus r \<noteq> 201 then None
     else case decoderDecode decodeSession (limitBody (2 ^ 20) (rpBody r)) zeroSession of
         (s, None) \<Rightarrow> if ssID s = [] then None else Some (ssID s)
       | (s, Some _) \<Rightarrow> None)"

definition ledgerStep :: "string \<Rightarrow> string set \<Rightarrow> soxyRequest \<times> httpReply result \<Rightarrow> string set" where
  "ledgerStep base S ex =
    (if rqMethod (fst ex) = ''DELETE'' then {x \<in> S. rqURL (fst ex) \<noteq> base @ sessionPath x}
     else if rqMethod (fst ex) = ''POST'' \<and> rqURL (fst ex) = base @ ''/v1/sessions'' then
       (case handedOut (snd ex) of None \<Rightarrow> S | Some x \<Rightarrow> insert x S)
     else S)"

definition openIn :: "string \<Rightarrow> (soxyRequest \<times> httpReply result) list \<Rightarrow> string set" where
  "openIn base log = foldl (ledgerStep base) {} log"

definition openOf :: "soxyClient \<Rightarrow> 's world \<Rightarrow> string set" where
  "openOf client w = openIn (scBaseURL client) (wLog w)"

text \<open>The client can form every URL it needs: true of every origin the constructor accepts.\<close>

definition clientOk :: "soxyClient \<Rightarrow> bool" where
  "clientOk client \<longleftrightarrow> isOk (urlParse (scBaseURL client @ ''/v1/slots'')) \<and> isOk (urlParse (scBaseURL client @ ''/v1/sessions''))
     \<and> (\<forall>x. isOk (urlParse (scBaseURL client @ sessionPath x)))"

lemma clientOk_paths:
  assumes "clientOk client"
  shows "\<exists>u. urlParse (scBaseURL client @ ''/v1/slots'') = Inr u" "\<exists>u. urlParse (scBaseURL client @ ''/v1/sessions'') = Inr u"
    "\<exists>u. urlParse (scBaseURL client @ sessionPath x) = Inr u"
  using assms unfolding clientOk_def isOk_iff by simp_all

lemma call_log: "call svc rq w = (rp, w') \<Longrightarrow> wLog w' = wLog w @ [(rq, rp)]"
  by (auto simp: call_def Let_def split: prod.splits)

lemma openIn_snoc: "openIn base (log @ [ex]) = ledgerStep base (openIn base log) ex"
  by (simp add: openIn_def)

lemma request_exchange:
  assumes "request svc client meth path payload want dest v w = (r, w')"
    "urlParse (scBaseURL client @ path) = Inr u"
  obtains rq rp where "wLog w' = wLog w @ [(rq, rp)]" "rqMethod rq = meth" "rqURL rq = scBaseURL client @ path"
    "rqPayload rq = payload"
    "r = (case rp of Inl e \<Rightarrow> Inl (wrapE ''call Soxy'' e) | Inr rep \<Rightarrow>
       if rpStatus rep \<noteq> want then Inl (APIError (rpStatus rep) (errorCode (rpBody rep)))
       else (case dest of None \<Rightarrow> Inr v | Some dec \<Rightarrow>
         if rpStatus rep = 204 then Inr v
         else (case decoderDecode dec (limitBody (2 ^ 20) (rpBody rep)) v of
             (x, None) \<Rightarrow> Inr x | (x, Some e) \<Rightarrow> Inl (wrapE ''decode Soxy response'' e))))"
proof -
  define rq where "rq = \<lparr>rqMethod = meth, rqURL = scBaseURL client @ path,
    rqHeaders = [(''Authorization'', ''Bearer '' @ scToken client), (''Accept'', ''application/json'')]
      @ [] @ (if payload = None then [] else [(''Content-Type'', ''application/json'')]), rqPayload = payload\<rparr>"
  obtain rp w1 where c: "call svc rq w = (rp, w1)" by fastforce
  have "w' = w1" "r = (case rp of Inl e \<Rightarrow> Inl (wrapE ''call Soxy'' e) | Inr rep \<Rightarrow>
       if rpStatus rep \<noteq> want then Inl (APIError (rpStatus rep) (errorCode (rpBody rep)))
       else (case dest of None \<Rightarrow> Inr v | Some dec \<Rightarrow>
         if rpStatus rep = 204 then Inr v
         else (case decoderDecode dec (limitBody (2 ^ 20) (rpBody rep)) v of
             (x, None) \<Rightarrow> Inr x | (x, Some e) \<Rightarrow> Inl (wrapE ''decode Soxy response'' e))))"
    using assms c unfolding request_def requestWithHeaders_def rq_def[symmetric]
    by (auto split: sum.splits option.splits prod.splits if_splits)
  then show ?thesis using that[of rq rp] call_log[OF c] by (simp add: rq_def)
qed

lemma releaseSession_open:
  assumes "clientOk client" "releaseSession svc client x w = (r, w')"
  shows "openOf client w' = {y \<in> openOf client w. sessionPath x \<noteq> sessionPath y}"
proof -
  obtain r1 where req: "request svc client ''DELETE'' (sessionPath x) None 204 None () w = (r1, w')"
    using assms(2) by (auto simp: releaseSession_def split: prod.splits sum.splits option.splits if_splits)
  obtain u where "urlParse (scBaseURL client @ sessionPath x) = Inr u" using clientOk_paths(3)[OF assms(1)] by blast
  from request_exchange[OF req this] obtain rq rp where "wLog w' = wLog w @ [(rq, rp)]" "rqMethod rq = ''DELETE''"
    "rqURL rq = scBaseURL client @ sessionPath x" by blast
  then show ?thesis by (simp add: openOf_def openIn_snoc ledgerStep_def)
qed

text \<open>A release takes its session out of the ledger.\<close>

lemma releaseSession_closes:
  assumes "clientOk client" "releaseSession svc client x w = (r, w')"
  shows "openOf client w' \<subseteq> openOf client w - {x}"
  using releaseSession_open[OF assms] by auto

lemma createSession_open:
  assumes "clientOk client" "createSession svc client ttl slot w = (r, w')"
  shows "openOf client w' \<subseteq> openOf client w \<union> (case r of Inr s \<Rightarrow> {ssID s} | Inl _ \<Rightarrow> {})"
proof -
  obtain r1 w1 where req: "request svc client ''POST'' ''/v1/sessions'' (Some (createPayload ttl slot)) 201
      (Some decodeSession) zeroSession w = (r1, w1)" by fastforce
  obtain u where "urlParse (scBaseURL client @ ''/v1/sessions'') = Inr u" using clientOk_paths(2)[OF assms(1)] by blast
  from request_exchange[OF req this] obtain rq rp where log: "wLog w1 = wLog w @ [(rq, rp)]" "rqMethod rq = ''POST''"
    "rqURL rq = scBaseURL client @ ''/v1/sessions''" and r1: "r1 = (case rp of Inl e \<Rightarrow> Inl (wrapE ''call Soxy'' e) | Inr rep \<Rightarrow>
       if rpStatus rep \<noteq> 201 then Inl (APIError (rpStatus rep) (errorCode (rpBody rep)))
       else if rpStatus rep = 204 then Inr zeroSession
       else (case decoderDecode decodeSession (limitBody (2 ^ 20) (rpBody rep)) zeroSession of
             (x, None) \<Rightarrow> Inr x | (x, Some e) \<Rightarrow> Inl (wrapE ''decode Soxy response'' e)))"
    by (simp only: option.case) blast
  have handed: "handedOut rp = (case r1 of Inr s \<Rightarrow> if ssID s = [] then None else Some (ssID s) | Inl _ \<Rightarrow> None)"
    unfolding r1 handedOut_def by (auto split: sum.splits option.splits prod.splits)
  have open1: "openOf client w1 = (case handedOut rp of None \<Rightarrow> openOf client w | Some x \<Rightarrow> insert x (openOf client w))"
    using log by (auto simp: openOf_def openIn_snoc ledgerStep_def split: option.split)
  show ?thesis
  proof (cases r1)
    case (Inl e)
    then show ?thesis using assms(2) req open1 handed by (auto simp: createSession_def)
  next
    case (Inr s)
    then have o: "openOf client w1 \<subseteq> insert (ssID s) (openOf client w)" "ssID s = [] \<Longrightarrow> openOf client w1 = openOf client w"
      using open1 handed by (auto split: if_splits)
    obtain rr wr where rel: "releaseSession svc client (ssID s) w1 = (rr, wr)" by fastforce
    show ?thesis using assms(2) req Inr o rel releaseSession_closes[OF assms(1) rel]
      by (auto simp: createSession_def Let_def split: if_splits)
  qed
qed


text \<open>What every user of the client relies on: creating opens at most the session returned, releasing closes.\<close>

locale session_ledger =
  fixes good :: "'c \<Rightarrow> bool"
    and sessions :: "'c \<Rightarrow> 'w \<Rightarrow> string set"
    and create :: "'c \<Rightarrow> 'a \<Rightarrow> 'w \<Rightarrow> 'x result \<times> 'w"
    and release :: "'c \<Rightarrow> string \<Rightarrow> 'w \<Rightarrow> unit result \<times> 'w"
    and sid :: "'x \<Rightarrow> string"
  assumes creates: "good c \<Longrightarrow> create c a w = (r, w') \<Longrightarrow>
      sessions c w' \<subseteq> sessions c w \<union> (case r of Inr s \<Rightarrow> {sid s} | Inl _ \<Rightarrow> {})"
    and closes: "good c \<Longrightarrow> release c x w = (u, w') \<Longrightarrow> sessions c w' \<subseteq> sessions c w - {x}"
begin

lemma create_failed: "good c \<Longrightarrow> create c a w = (Inl e, w') \<Longrightarrow> sessions c w' \<subseteq> sessions c w"
  using creates by fastforce

lemma create_one: "good c \<Longrightarrow> create c a w = (Inr s, w') \<Longrightarrow> sessions c w' \<subseteq> insert (sid s) (sessions c w)"
  using creates by fastforce

lemma bracket:
  "good c \<Longrightarrow> create c a w = (Inr s, w1) \<Longrightarrow> release c (sid s) w1 = (u, w2) \<Longrightarrow> sessions c w2 \<subseteq> sessions c w"
  using create_one closes by blast

end

interpretation soxy: session_ledger clientOk openOf "\<lambda>c (ttl, slot). createSession svc c ttl slot"
    "releaseSession svc" ssID
proof (unfold_locales, goal_cases)
  case (1 c a w r w')
  then show ?case by (cases a) (simp add: createSession_open)
next
  case (2 c x w u w')
  then show ?case by (rule releaseSession_closes)
qed


lemma availableSlots_open:
  assumes "clientOk client" "availableSlots svc client w = (r, w')"
  shows "openOf client w' = openOf client w"
proof -
  obtain r1 where req: "request svc client ''GET'' ''/v1/slots'' None 200 (Some decodeSlots) [] w = (r1, w')"
    using assms(2) by (auto simp: availableSlots_def Let_def split: prod.splits sum.splits if_splits)
  obtain u where "urlParse (scBaseURL client @ ''/v1/slots'') = Inr u" using clientOk_paths(1)[OF assms(1)] by blast
  from request_exchange[OF req this] obtain rq rp where "wLog w' = wLog w @ [(rq, rp)]" "rqMethod rq = ''GET''" by blast
  then show ?thesis by (simp add: openOf_def openIn_snoc ledgerStep_def)
qed


section \<open>An origin the client can use\<close>

text \<open>
  A base of a scheme, two slashes and an authority that parses, without the bytes that end one,
  makes a URL with every path of unreserved and escaped bytes.
\<close>

definition plainPath :: "string \<Rightarrow> bool" where
  "plainPath p \<longleftrightarrow> p \<noteq> [] \<and> hd p = CHR ''/'' \<and> \<not> hasCTL p \<and> CHR ''#'' \<notin> set p \<and> CHR ''?'' \<notin> set p
     \<and> unescape encodePath p \<noteq> None"

definition plainAuthority :: "string \<Rightarrow> bool" where
  "plainAuthority a \<longleftrightarrow> parseAuthority a \<noteq> None \<and> \<not> hasCTL a \<and> CHR ''/'' \<notin> set a \<and> CHR ''?'' \<notin> set a \<and> CHR ''#'' \<notin> set a"

lemma cutChar_append_none: "d \<notin> set s \<Longrightarrow> cutChar d (s @ t) = (s @ fst (cutChar d t), snd (cutChar d t))"
  by (induction s) (auto simp: Let_def split: prod.splits)

lemma hasCTL_append: "hasCTL (a @ b) \<longleftrightarrow> hasCTL a \<or> hasCTL b"
  by (simp add: hasCTL_def)

lemma hierarchy_url:
  assumes "scheme \<in> {''http'', ''https'', ''socks5''}" "plainAuthority a" "p = [] \<or> plainPath p"
  shows "\<exists>u h p'. parseAuthority a = Some (u, h) \<and> unescape encodePath p = Some p' \<and>
    urlParse (scheme @ ''://'' @ a @ p) = Inr (zeroUrl\<lparr>uScheme := scheme, uUser := u, uHost := h, uPath := p'\<rparr>)"
proof -
  from assms(2) obtain u h where au: "parseAuthority a = Some (u, h)" by (auto simp: plainAuthority_def)
  have pu: "\<exists>p'. unescape encodePath p = Some p'" using assms(3) by (auto simp: plainPath_def)
  then obtain p' where p': "unescape encodePath p = Some p'" ..
  let ?raw = "scheme @ ''://'' @ a @ p"
  have noctl: "\<not> hasCTL ?raw" using assms by (auto simp: hasCTL_append plainAuthority_def plainPath_def) (auto simp: hasCTL_def)
  have nohash: "CHR ''#'' \<notin> set ?raw" using assms by (auto simp: plainAuthority_def plainPath_def)
  have noq: "CHR ''?'' \<notin> set (''//'' @ a @ p)" using assms by (auto simp: plainAuthority_def plainPath_def)
  have sch: "schemeLoop [] ?raw = Some (scheme, ''//'' @ a @ p)"
    using assms(1) by (auto simp: isLetter_def isAlnum_def isDigit_def Let_def)
  have low: "ToLower scheme = scheme" using assms(1) by (auto simp: ToLower_def asciiLower_def)
  have cut: "cutChar (CHR ''/'') (a @ p) = (a, case p of [] \<Rightarrow> None | c # t \<Rightarrow> Some t)"
    using assms by (cases p) (auto simp: plainAuthority_def plainPath_def cutChar_none cutChar_some)
  have path: "(case (case p of [] \<Rightarrow> None | c # t \<Rightarrow> Some t) of None \<Rightarrow> [] | Some t \<Rightarrow> CHR ''/'' # t) = p"
    using assms(3) by (cases p) (auto simp: plainPath_def)
  have hier: "parseHierarchy (zeroUrl\<lparr>uScheme := scheme\<rparr>) (''//'' @ a @ p)
      = Some (zeroUrl\<lparr>uScheme := scheme, uUser := u, uHost := h, uPath := p'\<rparr>)"
    using assms(1) au p' cut path by (auto simp: parseHierarchy_def HasPrefix_def)
  have "parseNoFragment ?raw = Some (zeroUrl\<lparr>uScheme := scheme, uUser := u, uHost := h, uPath := p'\<rparr>)"
    using noctl sch low noq hier assms(1)
    by (auto simp: parseNoFragment_def splitQuery_def cutChar_none HasPrefix_def zeroUrl_def)
  then have "urlParse ?raw = Inr (zeroUrl\<lparr>uScheme := scheme, uUser := u, uHost := h, uPath := p'\<rparr>)"
    unfolding urlParse_def cutChar_none[OF nohash] by simp
  with au p' show ?thesis by blast
qed

lemma escapeByte_set:
  "c' \<in> set (escapeByte m c) \<Longrightarrow> c' = CHR ''%'' \<or> isAlnum c' \<or> \<not> shouldEscape c' m"
proof -
  have hex: "n < 16 \<Longrightarrow> isAlnum (upperHex n)" for n by (auto simp: upperHex_def isAlnum_def Let_def)
  show "c' \<in> set (escapeByte m c) \<Longrightarrow> ?thesis"
    using hex[OF char_split(1)[of c]] hex[OF char_split(2)[of c]] by (auto simp: escapeByte_def split: if_splits)
qed

lemma escape_set: "c' \<in> set (escape m s) \<Longrightarrow> c' = CHR ''%'' \<or> isAlnum c' \<or> \<not> shouldEscape c' m"
  by (auto simp: escape_def dest: escapeByte_set)

lemma shouldEscape_low: "(of_char c :: nat) < 33 \<Longrightarrow> shouldEscape c m"
proof -
  assume low: "(of_char c :: nat) < 33"
  then have "c \<noteq> d" if "33 \<le> (of_char d :: nat)" for d using that by auto
  then show ?thesis using low by (simp add: shouldEscape_def isAlnum_def Let_def)
qed

lemma shouldEscape_marks:
  "shouldEscape (CHR 0x7F) encodePathSegment" "shouldEscape (CHR ''#'') encodePathSegment"
  "shouldEscape (CHR ''?'') encodePathSegment"
  by (simp_all add: shouldEscape_def isAlnum_def)

lemma segment_byte:
  assumes "c \<in> set (PathEscape x)"
  shows "32 \<le> (of_char c :: nat) \<and> c \<noteq> CHR 0x7F \<and> c \<noteq> CHR ''#'' \<and> c \<noteq> CHR ''?''"
proof -
  from assms consider "c = CHR ''%''" | "isAlnum c" | "\<not> shouldEscape c encodePathSegment"
    unfolding PathEscape_def using escape_set by blast
  then show ?thesis
  proof cases
    case 2
    then show ?thesis by (auto simp: isAlnum_def Let_def)
  next
    case 3
    then have "33 \<le> (of_char c :: nat)" using shouldEscape_low[of c encodePathSegment] not_less by blast
    moreover have "c \<noteq> CHR 0x7F" "c \<noteq> CHR ''#''" "c \<noteq> CHR ''?''" using 3 shouldEscape_marks by metis+
    ultimately show ?thesis by simp
  qed simp
qed

lemma unescape_plain_append:
  "m \<noteq> encodeHost \<Longrightarrow> m \<noteq> encodeZone \<Longrightarrow> CHR ''%'' \<notin> set a \<Longrightarrow>
    unescape m (a @ b) = (case unescape m b of None \<Rightarrow> None | Some r \<Rightarrow> Some (a @ r))"
  by (induction a) (auto split: option.split)

lemma plainPath_session: "plainPath (sessionPath x)"
proof -
  have un: "unescape encodePath (''/v1/sessions/'' @ PathEscape x) = Some (''/v1/sessions/'' @ x)"
    by (subst unescape_plain_append) (simp_all add: PathEscape_def unescape_escape)
  have ctl: "\<not> hasCTL (''/v1/sessions/'' @ PathEscape x)" unfolding hasCTL_append
    using segment_byte[of _ x] by (simp add: hasCTL_def list_all_iff)
  have "CHR ''#'' \<notin> set (PathEscape x)" "CHR ''?'' \<notin> set (PathEscape x)" using segment_byte[of _ x] by blast+
  then have "CHR ''#'' \<notin> set (sessionPath x)" "CHR ''?'' \<notin> set (sessionPath x)" by (simp_all add: sessionPath_def)
  moreover have "sessionPath x \<noteq> []" "hd (sessionPath x) = CHR ''/''" by (simp_all add: sessionPath_def)
  ultimately show ?thesis using un ctl unfolding plainPath_def by (simp only: sessionPath_def) blast
qed

lemma clientOk_origin:
  assumes "scBaseURL client = scheme @ ''://'' @ a" "scheme \<in> {''http'', ''https''}" "plainAuthority a"
  shows "clientOk client"
proof -
  have s: "scheme \<in> {''http'', ''https'', ''socks5''}" using assms(2) by auto
  have "plainPath ''/v1/slots''" "plainPath ''/v1/sessions''"
    by (simp_all add: plainPath_def hasCTL_def)
  then have "isOk (urlParse (scBaseURL client @ p))" if "p \<in> {''/v1/slots'', ''/v1/sessions'', sessionPath x}" for p x
    using hierarchy_url[OF s assms(3), of p] plainPath_session[of x] that assms(1) by auto
  then show ?thesis unfolding clientOk_def by blast
qed


text \<open>
  Checking a configuration leaves no Soxy session behind: every session created to probe a
  slot had its release requested when \<open>validateSoxySlots\<close> returns, with or without an error.
\<close>

theorem validateSoxySlots_no_leak:
  assumes "clientOk client" "validateSoxySlots svc client ttl probe w = (r, w')"
  shows "openOf client w' \<subseteq> openOf client w"
proof -
  have loop: "validateSlots svc client ttl probe slots w1 = (r1, w2) \<Longrightarrow> openOf client w2 \<subseteq> openOf client w1" for slots w1 w2 r1
  proof (induction slots arbitrary: w1)
    case Nil
    then show ?case by simp
  next
    case (Cons slot slots)
    obtain rc wc where cr: "createSession svc client ttl (slID slot) w1 = (rc, wc)" by fastforce
    show ?case
    proof (cases rc)
      case (Inl e)
      then show ?thesis using Cons.prems cr soxy.create_failed[OF assms(1), of _ "(ttl, slID slot)"] by fastforce
    next
      case (Inr s)
      obtain u wr where rel: "releaseSession svc client (ssID s) wc = (u, wr)" by fastforce
      have "openOf client wr \<subseteq> openOf client w1"
        using soxy.bracket[OF assms(1), of _ "(ttl, slID slot)"] cr Inr rel by fastforce
      moreover have "w2 = wr \<or> validateSlots svc client ttl probe slots wr = (r1, w2)"
        using Cons.prems cr Inr rel by (auto simp: Let_def split: option.splits)
      ultimately show ?thesis using Cons.IH[of wr] by auto
    qed
  qed
  obtain ra wa where a: "availableSlots svc client w = (ra, wa)" by fastforce
  from availableSlots_open[OF assms(1) a] show ?thesis
    using assms(2) a loop[of _ wa r w'] by (cases ra) (auto simp: validateSoxySlots_def)
qed
















section \<open>Proxies the service names\<close>

definition userBytes :: "char set" where
  "userBytes = {CHR ''%'', CHR ''$'', CHR ''&'', CHR ''+'', CHR '','', CHR '';'', CHR ''='', CHR ''-'', CHR ''_'', CHR ''.'', CHR ''~''}"

lemma user_byte:
  assumes "c \<in> set (escape encodeUserPassword x)" shows "isAlnum c \<or> c \<in> userBytes"
proof -
  from escape_set[OF assms] consider "c = CHR ''%''" | "isAlnum c" | "\<not> isAlnum c" "\<not> shouldEscape c encodeUserPassword" by blast
  then show ?thesis by cases (auto simp: userBytes_def shouldEscape_def split: if_splits)
qed

lemma alnum_not: "isAlnum c \<Longrightarrow> c \<notin> {CHR ''@'', CHR '':'', CHR ''/'', CHR ''?'', CHR ''#'', CHR 0x7F, CHR ''['', CHR ''%'', CHR '']''}"
  by (auto simp: isAlnum_def)

lemma alnum_code: "isAlnum c \<Longrightarrow> 32 \<le> (of_char c :: nat)"
  by (auto simp: isAlnum_def Let_def)

text \<open>The bytes that would end an authority or make a URL invalid.\<close>

definition delimiter :: "char \<Rightarrow> bool" where
  "delimiter c \<longleftrightarrow> c \<in> {CHR ''@'', CHR ''/'', CHR ''?'', CHR ''#'', CHR 0x7F} \<or> (of_char c :: nat) < 32"

lemma delimiter_alnum: "isAlnum c \<Longrightarrow> \<not> delimiter c"
  using alnum_not[of c] alnum_code[of c] by (simp add: delimiter_def)

lemma delimiter_userByte: "c \<in> userBytes \<Longrightarrow> \<not> delimiter c \<and> c \<noteq> CHR '':''"
  by (auto simp: userBytes_def delimiter_def)

lemma user_byte_safe: "c \<in> set (escape encodeUserPassword x) \<Longrightarrow> \<not> delimiter c \<and> c \<noteq> CHR '':''"
  using user_byte[of c x] delimiter_alnum[of c] delimiter_userByte[of c] alnum_not[of c] by blast

lemma delimiters:
  assumes "\<forall>c \<in> set s. \<not> delimiter c"
  shows "\<not> hasCTL s" "CHR ''@'' \<notin> set s" "CHR ''/'' \<notin> set s" "CHR ''?'' \<notin> set s" "CHR ''#'' \<notin> set s"
proof -
  have d: "delimiter (CHR ''@'')" "delimiter (CHR ''/'')" "delimiter (CHR ''?'')" "delimiter (CHR ''#'')"
    by (simp_all add: delimiter_def)
  then show "CHR ''@'' \<notin> set s" "CHR ''/'' \<notin> set s" "CHR ''?'' \<notin> set s" "CHR ''#'' \<notin> set s" using assms by blast+
  have "\<not> delimiter c \<Longrightarrow> 32 \<le> (of_char c :: nat) \<and> c \<noteq> CHR 0x7F" for c by (auto simp: delimiter_def)
  then show "\<not> hasCTL s" using assms by (simp add: hasCTL_def list_all_iff)
qed

definition infoByte :: "char \<Rightarrow> bool" where
  "infoByte c \<longleftrightarrow> isAlnum c \<or> c \<in> {CHR ''-'', CHR ''.'', CHR ''_'', CHR '':'', CHR ''~'', CHR ''!'',
     CHR ''$'', CHR ''&'', CHR 0x27, CHR ''('', CHR '')'', CHR ''*'', CHR ''+'', CHR '','', CHR '';'', CHR ''='', CHR ''%'', CHR ''@''}"

lemma infoByte_userByte: "c \<in> userBytes \<Longrightarrow> infoByte c"
  by (auto simp: userBytes_def infoByte_def)

lemma validUserinfo_infoByte: "validUserinfo s \<longleftrightarrow> list_all infoByte s"
  unfolding validUserinfo_def infoByte_def[abs_def] by (rule refl)

lemma validUserinfo_escape: "validUserinfo (escape encodeUserPassword x)"
  unfolding validUserinfo_infoByte list_all_iff
  using user_byte[of _ x] infoByte_userByte by (blast intro: infoByte_def[THEN iffD2])

definition plainHost :: "string \<Rightarrow> bool" where
  "plainHost h \<longleftrightarrow> h \<noteq> [] \<and> list_all (\<lambda>c. isAlnum c \<or> c \<in> {CHR ''.'', CHR ''-''}) h"

lemma parseUser_userString:
  "proxyUser u p = Some up \<Longrightarrow> parseUser (userString up) = Some up"
proof -
  assume "proxyUser u p = Some up"
  then consider "up = (u, None)" | "up = (u, Some p)" by (auto simp: proxyUser_def split: if_splits)
  then show ?thesis
  proof cases
    case 1
    have "CHR '':'' \<notin> set (escape encodeUserPassword u)" using user_byte_safe[of _ u] by blast
    with 1 show ?thesis by (simp add: parseUser_def userString_def validUserinfo_escape cutChar_none unescape_escape)
  next
    case 2
    have "CHR '':'' \<notin> set (escape encodeUserPassword u)" using user_byte_safe[of _ u] by blast
    moreover have "validUserinfo (userString up)" using 2 validUserinfo_escape
      by (simp add: userString_def validUserinfo_def)
    ultimately show ?thesis using 2 by (simp add: parseUser_def userString_def cutChar_some unescape_escape)
  qed
qed

lemma userString_safe: "c \<in> set (userString up) \<Longrightarrow> \<not> delimiter c"
proof -
  assume "c \<in> set (userString up)"
  then have "c = CHR '':'' \<or> (\<exists>x. c \<in> set (escape encodeUserPassword x))"
    by (auto simp: userString_def split: option.splits)
  moreover have "\<not> delimiter (CHR '':'')" by (simp add: delimiter_def)
  ultimately show ?thesis using user_byte_safe by blast
qed

lemma isDigit_alnum: "isDigit c \<Longrightarrow> isAlnum c"
  by (simp add: isDigit_def isAlnum_def Let_def)

definition hostByte :: "char \<Rightarrow> bool" where
  "hostByte c \<longleftrightarrow> isAlnum c \<or> c \<in> {CHR ''.'', CHR ''-'', CHR '':''}"

lemma hostByte_keep: "hostByte c \<Longrightarrow> \<not> shouldEscape c m \<or> m \<noteq> encodeHost" "hostByte c \<Longrightarrow> c \<noteq> CHR ''%''"
  by (auto simp: hostByte_def shouldEscape_def dest: alnum_not)

lemma escape_host_id: "list_all hostByte h \<Longrightarrow> escape encodeHost h = h"
  using hostByte_keep(1) by (induction h) (auto simp: escape_def escapeByte_def)

lemma unescape_host_id: "list_all hostByte h \<Longrightarrow> unescape encodeHost h = Some h"
  using hostByte_keep by (induction h) auto

lemma host_port:
  assumes "plainHost h" and hp_def: "hp = h @ '':'' @ natStr n"
  shows "list_all hostByte hp" "parseHost hp = Some hp" "splitHostPort hp = (h, natStr n)"
    "\<forall>c \<in> set hp. \<not> delimiter c"
proof -
  have dig: "list_all isDigit (natStr n)" by (rule natStr_digits)
  have no: "CHR '':'' \<notin> set h" "CHR ''['' \<notin> set h" "CHR '':'' \<notin> set (natStr n)" "CHR ''['' \<notin> set (natStr n)"
    using assms(1) dig alnum_not isDigit_alnum by (force simp: plainHost_def list_all_iff)+
  show hb: "list_all hostByte hp" using assms(1) dig isDigit_alnum
    by (auto simp: hp_def plainHost_def list_all_iff hostByte_def)
  have "h \<noteq> []" using assms(1) by (simp add: plainHost_def)
  moreover have "hd h \<noteq> CHR ''[''" using no(2) \<open>h \<noteq> []\<close> hd_in_set by metis
  ultimately show "parseHost hp = Some hp"
    using unescape_host_id[OF hb] no dig cutChar_some[OF no(1), of "natStr n"] by (simp add: parseHost_def hp_def)
  show "splitHostPort hp = (h, natStr n)"
    using cutLast_some[OF no(3), of h] dig no(2) \<open>h \<noteq> []\<close> \<open>hd h \<noteq> CHR ''[''\<close>
    by (cases h) (simp_all add: splitHostPort_def hp_def HasPrefix_def)
  have "hostByte c \<Longrightarrow> \<not> delimiter c" for c
    using delimiter_alnum[of c] by (auto simp: hostByte_def delimiter_def)
  then show "\<forall>c \<in> set hp. \<not> delimiter c" using hb by (simp add: list_all_iff)
qed


text \<open>
  A proxy the service names comes through unchanged: for a supported scheme, a host name and a
  valid port, \<open>proxyFromSoxy\<close> succeeds with the server \<open>scheme://host:port\<close>, and the user name and
  password are exactly the service's, whatever bytes they hold (the URL they travel through
  escapes them); credentials without a user name are dropped.
\<close>

theorem proxyFromSoxy_roundtrip:
  assumes "spScheme p \<in> {''http'', ''https'', ''socks5''}" "plainHost (spHost p)" "1 \<le> spPort p" "spPort p \<le> 65535"
  shows "proxyFromSoxy p = Inr \<lparr>Server = spScheme p @ ''://'' @ spHost p @ '':'' @ Itoa (spPort p),
    Username = spUsername p, Password = (if spUsername p = [] then [] else spPassword p)\<rparr>"
proof -
  obtain n where n: "spPort p = int n" "1 \<le> n" "n \<le> 65535" using assms(3,4) by (metis nat_0_le nat_le_iff int_nat_eq one_le_numeral of_nat_numeral nat_int zle_int order_trans zero_le_one of_nat_1)
  define hp where hp: "hp = spHost p @ '':'' @ natStr n"
  note h = host_port[OF assms(2) hp]
  let ?user = "proxyUser (spUsername p) (spPassword p)"
  define a where "a = (case ?user of None \<Rightarrow> [] | Some us \<Rightarrow> userString us @ ''@'') @ hp"
  have join: "JoinHostPort (spHost p) (Itoa (spPort p)) = hp"
    using assms(2) alnum_not n(1) by (fastforce simp: JoinHostPort_def hp Itoa_def plainHost_def list_all_iff)
  have str: "urlString (zeroUrl\<lparr>uScheme := spScheme p, uHost := hp, uUser := ?user\<rparr>) = spScheme p @ ''://'' @ a @ []"
    using assms(1) escape_host_id[OF h(1)]
    by (auto simp: urlString_def zeroUrl_def a_def hp escape_def[of _ "[]"])
  have noat: "CHR ''@'' \<notin> set hp" using delimiters(2)[OF h(4)] .
  have auth: "parseAuthority a = Some (?user, hp)"
  proof (cases ?user)
    case None
    then show ?thesis using cutLast_none[OF noat] h(2) by (simp add: parseAuthority_def a_def)
  next
    case (Some us)
    then show ?thesis using cutLast_some[OF noat, of "userString us"] h(2) parseUser_userString[OF Some]
      by (simp add: parseAuthority_def a_def)
  qed
  define us where "us = (case ?user of None \<Rightarrow> [] | Some us \<Rightarrow> userString us @ ''@'')"
  have "CHR ''/'' \<notin> set us \<and> CHR ''?'' \<notin> set us \<and> CHR ''#'' \<notin> set us \<and> \<not> hasCTL us"
  proof (cases ?user)
    case None
    then show ?thesis by (simp add: us_def hasCTL_def)
  next
    case (Some up)
    have "\<forall>c \<in> set (userString up). \<not> delimiter c" using userString_safe by blast
    from delimiters[OF this] Some show ?thesis by (simp add: us_def hasCTL_append hasCTL_def[of "''@''"])
  qed
  moreover have "a = us @ hp" by (simp add: a_def us_def)
  ultimately have "plainAuthority a" using auth delimiters[OF h(4)] by (auto simp: plainAuthority_def hasCTL_append)
  from hierarchy_url[OF assms(1) this, of "[]"] auth
  have parsed: "urlParse (spScheme p @ ''://'' @ a @ []) = Inr (zeroUrl\<lparr>uScheme := spScheme p, uUser := ?user, uHost := hp, uPath := []\<rparr>)"
    by auto
  have port: "Atoi (natStr n) = Some (int n)" unfolding Atoi_def by (rule ParseInt_natStr) (use n in simp)
  have "spHost p \<noteq> []" using assms(2) by (simp add: plainHost_def)
  then show ?thesis using assms(1,3,4) n port h(3)
    unfolding proxyFromSoxy_def join str ParseProxy_def parsed Hostname_def Port_def
    by (auto simp: zeroUrl_def zeroProxy_def proxyUser_def hp Itoa_def)
qed

theorem proxyFromSoxy_roundtrip_witness:
  "proxyFromSoxy \<lparr>spScheme = ''http'', spHost = ''gw-1.example'', spPort = 3128, spUsername = ''a@b:c'', spPassword = ''p/w?#''\<rparr>
    = Inr \<lparr>Server = ''http://gw-1.example:3128'', Username = ''a@b:c'', Password = ''p/w?#''\<rparr>"
proof -
  have "Itoa 3128 = ''3128''" by code_simp
  moreover have "plainHost ''gw-1.example''" by (simp add: plainHost_def isAlnum_def Let_def)
  ultimately show ?thesis
    by (subst proxyFromSoxy_roundtrip) simp_all
qed

text \<open>
  A policy the Probe does not know reaches neither the proxy inventory nor the service: the
  call fails with \<open>ErrUnknownPolicy\<close> and makes no request and no draw.
\<close>

theorem unknown_policy_rejected:
  assumes "purpose \<noteq> PurposeScan \<or> TrimSpace policyID \<noteq> PolicyScanDefault"
  shows "\<exists>e. AcquireForPolicy svc draw manager hasParent purpose policyID w = (Inl e, w) \<and> errorsIs e ErrUnknownPolicy"
  using assms by (auto simp: AcquireForPolicy_def)


section \<open>Instances\<close>

text \<open>A service that lists one slot and hands out a session that is not ready.\<close>

definition okBody :: "json \<Rightarrow> jsonBody" where
  "okBody j = \<lparr>bSize = 100, bFirst = Some (j, 100), bRest = None\<rparr>"

definition sampleService :: "unit service" where
  "sampleService s rq =
    (if rqMethod rq = ''GET'' then
       (Inr \<lparr>rpStatus = 200, rpBody = okBody (JObject [(''slots'', JArray [JObject
          [(''id'', JString ''a''), (''status'', JString ''available''), (''current_ip'', JString ''1.1.1.1'')]])])\<rparr>, ())
     else if rqMethod rq = ''POST'' then
       (Inr \<lparr>rpStatus = 201, rpBody = okBody (JObject [(''id'', JString ''s''), (''status'', JString ''pending'')])\<rparr>, ())
     else (Inr \<lparr>rpStatus = 204, rpBody = okBody JNull\<rparr>, ()))"

definition sampleClient :: soxyClient where
  "sampleClient = \<lparr>scBaseURL = ''http://soxy:8080'', scToken = ''t''\<rparr>"

definition sampleManager :: "soxyClient Manager" where
  "sampleManager = \<lparr>mClient = Some sampleClient, mSessionTTL = defaultSessionTTL, mProxies = [],
     mLegacyScanProxies = [], mRenewInterval = 15 * minute, mMaxRenewFailures = 3\<rparr>"

definition emptyWorld :: "unit world" where
  "emptyWorld = \<lparr>wSvc = (), wLog = [], wDraws = 0\<rparr>"

lemma sampleClient_ok: "clientOk sampleClient"
proof (rule clientOk_origin[of _ "''http''" "''soxy:8080''"])
  have "parseAuthority ''soxy:8080'' \<noteq> None" by code_simp
  then show "plainAuthority ''soxy:8080''" by (simp add: plainAuthority_def hasCTL_def)
qed (simp_all add: sampleClient_def)


theorem validateSoxySlots_no_leak_witness:
  "openOf sampleClient (snd (validateSoxySlots sampleService sampleClient defaultSessionTTL (\<lambda>_. Inr ()) emptyWorld)) = {}"
proof -
  obtain r w' where a: "validateSoxySlots sampleService sampleClient defaultSessionTTL (\<lambda>_. Inr ()) emptyWorld = (r, w')" by fastforce
  from validateSoxySlots_no_leak[OF sampleClient_ok this] a show ?thesis
    by (simp add: openOf_def openIn_def emptyWorld_def)
qed



theorem unknown_policy_rejected_witness:
  "\<exists>e. AcquireForPolicy sampleService (\<lambda>_ _. Inr 0) sampleManager True PurposeSession PolicyScanDefault emptyWorld = (Inl e, emptyWorld)
     \<and> errorsIs e ErrUnknownPolicy"
  by (rule unknown_policy_rejected) (simp add: PurposeSession_def PurposeScan_def)

end
