(* ===== verification/EgressLease.thy ===== *)
theory EgressLease
  imports Soxy
begin

text \<open>
  The life of a lease (\<open>internal/egress/egress.go\<close>): its renewal goroutine, the report of a
  provider failure, and its close. The lease's context is its cancellation cause, the first cause
  wins. The goroutine is running with its count of consecutive failures, or it is not running.
  A run of the program is a sequence of steps: the renewal timer fires, the goroutine sees the
  context done, the parent context ends, the holder reports a failure, the holder closes.
\<close>

record leaseState =
  lsCause :: "goerr option"
  lsLoop :: "int option"
  lsQuarantined :: bool
  lsClosed :: bool
  lsCloseErr :: "goerr option"

definition SignalAccessBlocked :: string where "SignalAccessBlocked = ''access_blocked''"

definition leaseStart :: "Lease \<Rightarrow> leaseState" where
  "leaseStart lease = \<lparr>lsCause = None,
     lsLoop = (if leSession lease \<noteq> None \<and> 0 < leInterval lease then Some 0 else None),
     lsQuarantined = False, lsClosed = False, lsCloseErr = None\<rparr>"

definition cancelWith :: "goerr \<Rightarrow> leaseState \<Rightarrow> leaseState" where
  "cancelWith cause st = (if lsCause st = None then st\<lparr>lsCause := Some cause\<rparr> else st)"

definition leaseProxy :: "Lease \<Rightarrow> Proxy option" where
  "leaseProxy lease = (if Server (leProxy lease) = [] then None else Some (leProxy lease))"

definition renewalRetryDelay :: "duration \<Rightarrow> duration" where
  "renewalRetryDelay interval =
    (let delay = truncDiv interval 10 in
     if delay < millisecond then millisecond
     else if 5 * second < delay then 5 * second else delay)"

text \<open>One turn of \<open>keepAlive\<close> on the outcome of an extension: the new state and the next timer.\<close>

definition keepAliveTurn :: "Lease \<Rightarrow> unit result \<Rightarrow> leaseState \<Rightarrow> leaseState \<times> duration option" where
  "keepAliveTurn lease outcome st =
    (case lsLoop st of
       None \<Rightarrow> (st, None)
     | Some consecutiveFailures \<Rightarrow>
         (case outcome of
            Inl e \<Rightarrow>
              (let n = consecutiveFailures + 1 in
               if leMaxErrors lease \<le> n then
                 (cancelWith (Errorf (sentinelText ErrLeaseRenewal @ '': '' @ errorText e) [Sentinel ErrLeaseRenewal, e])
                    (st\<lparr>lsLoop := None\<rparr>), None)
               else (st\<lparr>lsLoop := Some n\<rparr>, Some (renewalRetryDelay (leInterval lease))))
          | Inr _ \<Rightarrow> (st\<lparr>lsLoop := Some 0\<rparr>, Some (leInterval lease))))"

text \<open>The goroutine on a sequence of outcomes, while nothing else happens.\<close>

fun keepAlive :: "Lease \<Rightarrow> unit result list \<Rightarrow> leaseState \<Rightarrow> leaseState" where
  "keepAlive lease [] st = st"
| "keepAlive lease (r # rs) st = keepAlive lease rs (fst (keepAliveTurn lease r st))"

text \<open>The closures a Soxy lease carries, with the manager's client and session lifetime.\<close>

definition extendLease ::
  "'s service \<Rightarrow> soxyClient \<Rightarrow> duration \<Rightarrow> string \<Rightarrow> 's world \<Rightarrow> unit result \<times> 's world" where
  "extendLease svc client sessionTTL sid w = extendSession svc client sid (truncDiv sessionTTL 2) w"

definition ReportProviderFailure ::
  "'s service \<Rightarrow> soxyClient \<Rightarrow> Lease \<Rightarrow> string \<Rightarrow> string \<Rightarrow> leaseState \<Rightarrow> 's world \<Rightarrow> unit result \<times> leaseState \<times> 's world" where
  "ReportProviderFailure svc client lease provider signal st w =
    (case leSession lease of
       None \<Rightarrow> (Inr (), st, w)
     | Some sid \<Rightarrow>
         if lsQuarantined st then (Inr (), st, w)
         else (case reportProviderFailure svc client sid provider signal (''provider-block:'' @ sid) w of
             (Inl e, w') \<Rightarrow> (Inl e, st, w')
           | (Inr _, w') \<Rightarrow> (Inr (), cancelWith (Sentinel ErrEgressQuarantined) (st\<lparr>lsQuarantined := True\<rparr>), w')))"

text \<open>
  \<open>Close\<close>: once, cancel, wait for the goroutine to end, release. The wait ends because a
  cancelled context ends the loop.
\<close>

definition CloseLease ::
  "'s service \<Rightarrow> soxyClient \<Rightarrow> Lease \<Rightarrow> leaseState \<Rightarrow> 's world \<Rightarrow> goerr option \<times> leaseState \<times> 's world" where
  "CloseLease svc client lease st w =
    (if lsClosed st then (lsCloseErr st, st, w)
     else
       (let st1 = (cancelWith (Sentinel Canceled) st)\<lparr>lsLoop := None, lsClosed := True\<rparr> in
        case leSession lease of
          None \<Rightarrow> (None, st1, w)
        | Some sid \<Rightarrow>
            (case releaseSession svc client sid w of
               (Inl e, w') \<Rightarrow> (Some e, st1\<lparr>lsCloseErr := Some e\<rparr>, w')
             | (Inr _, w') \<Rightarrow> (None, st1, w'))))"

inductive leaseStep ::
  "'s service \<Rightarrow> soxyClient \<Rightarrow> duration \<Rightarrow> Lease \<Rightarrow> leaseState \<times> 's world \<Rightarrow> leaseState \<times> 's world \<Rightarrow> bool"
  for svc client ttl lease where
  timer_fires: "lsLoop st = Some n \<Longrightarrow> leSession lease = Some sid \<Longrightarrow> extendLease svc client ttl sid w = (r, w') \<Longrightarrow>
    leaseStep svc client ttl lease (st, w) (fst (keepAliveTurn lease r st), w')"
| loop_done: "lsCause st \<noteq> None \<Longrightarrow> leaseStep svc client ttl lease (st, w) (st\<lparr>lsLoop := None\<rparr>, w)"
| parent_done: "leaseStep svc client ttl lease (st, w) (cancelWith cause st, w)"
| reports: "ReportProviderFailure svc client lease provider signal st w = (r, st', w') \<Longrightarrow>
    leaseStep svc client ttl lease (st, w) (st', w')"
| closes: "CloseLease svc client lease st w = (e, st', w') \<Longrightarrow> leaseStep svc client ttl lease (st, w) (st', w')"

inductive_cases leaseStep_cases: "leaseStep svc client ttl lease (st, w) (st', w')"

abbreviation leaseRuns where
  "leaseRuns svc client ttl lease \<equiv> (leaseStep svc client ttl lease)\<^sup>*\<^sup>*"


section \<open>Renewal\<close>

definition failed :: "unit result \<Rightarrow> bool" where
  "failed r \<longleftrightarrow> \<not> isOk r"

lemma keepAlive_stopped: "lsLoop st = None \<Longrightarrow> keepAlive lease rs st = st"
  by (induction rs) (simp_all add: keepAliveTurn_def)

text \<open>A window of failures that the count already seen completes, or one further on.\<close>

definition window :: "nat \<Rightarrow> nat \<Rightarrow> unit result list \<Rightarrow> bool" where
  "window m k rs \<longleftrightarrow> (\<exists>fs suf. rs = fs @ suf \<and> list_all failed fs \<and> k + length fs = m)
     \<or> (\<exists>pre fs suf. rs = pre @ fs @ suf \<and> list_all failed fs \<and> length fs = m)"

lemma window_ok: "k < m \<Longrightarrow> \<not> failed r \<Longrightarrow> window m k (r # rs) = window m 0 rs"
proof -
  assume k: "k < m" and r: "\<not> failed r"
  have a: "(\<exists>fs suf. r # rs = fs @ suf \<and> list_all failed fs \<and> k + length fs = m) \<longleftrightarrow> False"
    using k r by (auto simp: Cons_eq_append_conv)
  have b: "(\<exists>pre fs suf. r # rs = pre @ fs @ suf \<and> list_all failed fs \<and> length fs = m)
      \<longleftrightarrow> (\<exists>pre fs suf. rs = pre @ fs @ suf \<and> list_all failed fs \<and> length fs = m)"
  proof
    assume "\<exists>pre fs suf. r # rs = pre @ fs @ suf \<and> list_all failed fs \<and> length fs = m"
    then obtain pre fs suf where p: "r # rs = pre @ fs @ suf" "list_all failed fs" "length fs = m" by blast
    have "pre \<noteq> []" using p k r by (cases fs) auto
    then obtain pre' where "pre = r # pre'" using p(1) by (cases pre) auto
    with p show "\<exists>pre fs suf. rs = pre @ fs @ suf \<and> list_all failed fs \<and> length fs = m" by auto
  next
    assume "\<exists>pre fs suf. rs = pre @ fs @ suf \<and> list_all failed fs \<and> length fs = m"
    then obtain pre fs suf where "r # rs = (r # pre) @ fs @ suf" "list_all failed fs" "length fs = m" by auto
    then show "\<exists>pre fs suf. r # rs = pre @ fs @ suf \<and> list_all failed fs \<and> length fs = m"
      by (intro exI[of _ "r # pre"] exI[of _ fs] exI[of _ suf]) simp
  qed
  have c: "window m 0 rs \<longleftrightarrow> (\<exists>pre fs suf. rs = pre @ fs @ suf \<and> list_all failed fs \<and> length fs = m)"
    unfolding window_def by (metis add_0 append_Nil)
  show ?thesis unfolding c window_def[of m k] a b by simp
qed

lemma window_fail:
  assumes "k < m" "failed r" shows "window m k (r # rs) \<longleftrightarrow> Suc k = m \<or> window m (Suc k) rs"
proof
  assume "window m k (r # rs)"
  then consider fs suf where "r # rs = fs @ suf" "list_all failed fs" "k + length fs = m"
    | pre fs suf where "r # rs = pre @ fs @ suf" "list_all failed fs" "length fs = m"
    unfolding window_def by blast
  then show "Suc k = m \<or> window m (Suc k) rs"
  proof cases
    case 1
    then obtain fs' where fs': "fs = r # fs'" using assms(1) by (cases fs) auto
    with 1 have "rs = fs' @ suf \<and> list_all failed fs' \<and> Suc k + length fs' = m" by auto
    then show ?thesis unfolding window_def by blast
  next
    case 2
    show ?thesis
    proof (cases pre)
      case Nil
      then obtain fs' where fs': "fs = r # fs'" using 2 assms(1) by (cases fs) auto
      have "rs = take (m - Suc k) fs' @ drop (m - Suc k) fs' @ suf" using 2 Nil fs' by simp
      moreover have "list_all failed (take (m - Suc k) fs')" using 2 fs'
        by (auto simp: list_all_iff dest: in_set_takeD)
      moreover have "Suc k + length (take (m - Suc k) fs') = m" using 2 fs' assms(1) by simp
      ultimately show ?thesis unfolding window_def by blast
    next
      case (Cons a pre')
      with 2 have "rs = pre' @ fs @ suf" by simp
      with 2 show ?thesis unfolding window_def by blast
    qed
  qed
next
  assume "Suc k = m \<or> window m (Suc k) rs"
  then consider "Suc k = m" | fs suf where "rs = fs @ suf" "list_all failed fs" "Suc k + length fs = m"
    | pre fs suf where "rs = pre @ fs @ suf" "list_all failed fs" "length fs = m" unfolding window_def by blast
  then show "window m k (r # rs)"
  proof cases
    case 1
    then have "r # rs = [r] @ rs \<and> list_all failed [r] \<and> k + length [r] = m" using assms(2) by simp
    then show ?thesis unfolding window_def by blast
  next
    case 2
    then have "r # rs = (r # fs) @ suf \<and> list_all failed (r # fs) \<and> k + length (r # fs) = m" using assms(2) by simp
    then show ?thesis unfolding window_def by blast
  next
    case 3
    then have "r # rs = (r # pre) @ fs @ suf" by simp
    then show ?thesis unfolding window_def using 3 by blast
  qed
qed

lemma keepAlive_window:
  assumes "lsLoop st = Some (int k)" "k < m" "leMaxErrors lease = int m" "lsCause st = None"
  shows "lsCause (keepAlive lease rs st) \<noteq> None \<longleftrightarrow> window m k rs"
  using assms
proof (induction rs arbitrary: st k)
  case Nil
  then show ?case by (auto simp: window_def)
next
  case (Cons r rs)
  show ?case
  proof (cases r)
    case (Inr u)
    then show ?thesis using Cons window_ok[OF Cons.prems(2), of r rs]
      by (auto simp: keepAliveTurn_def failed_def)
  next
    case (Inl e)
    then have f: "failed r" by (simp add: failed_def)
    show ?thesis
    proof (cases "Suc k = m")
      case True
      then show ?thesis using Cons.prems Inl window_fail[OF Cons.prems(2) f, of rs]
        by (auto simp: keepAliveTurn_def Let_def cancelWith_def keepAlive_stopped)
    next
      case False
      then have "lsCause (keepAlive lease rs (st\<lparr>lsLoop := Some (int (Suc k))\<rparr>)) \<noteq> None \<longleftrightarrow> window m (Suc k) rs"
        using Cons.prems by (intro Cons.IH) auto
      then show ?thesis using Cons.prems Inl False window_fail[OF Cons.prems(2) f, of rs]
        by (auto simp: keepAliveTurn_def Let_def add.commute)
    qed
  qed
qed


lemma keepAlive_cause:
  assumes "lsCause st = None" "lsCause (keepAlive lease rs st) = Some c"
  shows "errorsIs c ErrLeaseRenewal"
  using assms
proof (induction rs arbitrary: st)
  case Nil
  then show ?case by simp
next
  case (Cons r rs)
  show ?case
  proof (cases "lsCause (fst (keepAliveTurn lease r st))")
    case None
    then show ?thesis using Cons by simp
  next
    case (Some d)
    then have "errorsIs d ErrLeaseRenewal" "lsLoop (fst (keepAliveTurn lease r st)) = None" using Cons.prems(1)
      by (auto simp: keepAliveTurn_def Let_def cancelWith_def split: option.splits sum.splits if_splits)
    then show ?thesis using Cons.prems(2) Some by (simp add: keepAlive_stopped)
  qed
qed

text \<open>
  C23. The renewal loop cancels the lease exactly when the allowed number of extensions in a row
  fail: on any sequence of outcomes, a lease that was live is cancelled with \<open>ErrLeaseRenewal\<close> iff
  some stretch of \<open>maxErrors\<close> consecutive outcomes are all failures; one success in between resets
  the count.
\<close>

theorem keepAlive_cancels_iff:
  assumes "leSession lease = Some sid" "0 < leInterval lease" "1 \<le> leMaxErrors lease"
  shows "(lsCause (keepAlive lease rs (leaseStart lease)) \<noteq> None \<longleftrightarrow>
      (\<exists>pre fs suf. rs = pre @ fs @ suf \<and> list_all failed fs \<and> length fs = nat (leMaxErrors lease)))
    \<and> (\<forall>c. lsCause (keepAlive lease rs (leaseStart lease)) = Some c \<longrightarrow> errorsIs c ErrLeaseRenewal)"
proof -
  let ?m = "nat (leMaxErrors lease)"
  have "lsLoop (leaseStart lease) = Some (int 0)" "lsCause (leaseStart lease) = None" using assms by (simp_all add: leaseStart_def)
  from keepAlive_window[OF this(1) _ _ this(2), where m = ?m and lease = lease and rs = rs]
    keepAlive_cause[OF this(2), where lease = lease and rs = rs]
  have "lsCause (keepAlive lease rs (leaseStart lease)) \<noteq> None \<longleftrightarrow> window ?m 0 rs"
    "\<forall>c. lsCause (keepAlive lease rs (leaseStart lease)) = Some c \<longrightarrow> errorsIs c ErrLeaseRenewal" using assms(3) by auto
  moreover have "window ?m 0 rs \<longleftrightarrow> (\<exists>pre fs suf. rs = pre @ fs @ suf \<and> list_all failed fs \<and> length fs = ?m)"
    unfolding window_def by (metis add_0 append_Nil)
  ultimately show ?thesis by simp
qed

definition sampleLease :: Lease where
  "sampleLease = newLease \<lparr>Server = ''http://gw:3128'', Username = [], Password = []\<rparr> (Some ''s'') (15 * minute) 2"

theorem keepAlive_cancels_iff_witness:
  "let e = Inl (Sentinel DeadlineExceeded); ok = Inr () in
   lsCause (keepAlive sampleLease [e, ok, e] (leaseStart sampleLease)) = None \<and>
   lsCause (keepAlive sampleLease [ok, e, e] (leaseStart sampleLease)) \<noteq> None"
proof -
  have l: "leSession sampleLease = Some ''s''" "0 < leInterval sampleLease" "1 \<le> leMaxErrors sampleLease"
    "nat (leMaxErrors sampleLease) = 2"
    by (simp_all add: sampleLease_def newLease_def duration_units)
  let ?e = "Inl (Sentinel DeadlineExceeded) :: unit result" and ?ok = "Inr () :: unit result"
  have "\<not> (\<exists>pre fs suf. [?e, ?ok, ?e] = pre @ fs @ suf \<and> list_all failed fs \<and> length fs = nat (leMaxErrors sampleLease))"
    unfolding l(4) by (auto simp: Cons_eq_append_conv append_eq_Cons_conv failed_def)
  moreover have "[?ok, ?e, ?e] = [?ok] @ [?e, ?e] @ [] \<and> list_all failed [?e, ?e] \<and> length [?e, ?e] = nat (leMaxErrors sampleLease)"
    unfolding l(4) by (simp add: failed_def)
  ultimately show ?thesis using keepAlive_cancels_iff[OF l(1-3), of "[?e, ?ok, ?e]"] keepAlive_cancels_iff[OF l(1-3), of "[?ok, ?e, ?e]"]
    unfolding Let_def by blast
qed

section \<open>The whole life of a lease\<close>

text \<open>How often the log asks for the release of a session, and how often a report was accepted.\<close>

definition releaseCount :: "string \<Rightarrow> (soxyRequest \<times> httpReply result) list \<Rightarrow> nat" where
  "releaseCount url log = length (filter (\<lambda>(rq, _). rqMethod rq = ''DELETE'' \<and> rqURL rq = url) log)"

definition acceptedReports :: "string \<Rightarrow> (soxyRequest \<times> httpReply result) list \<Rightarrow> nat" where
  "acceptedReports url log = length (filter (\<lambda>(rq, rp). rqMethod rq = ''POST'' \<and> rqURL rq = url
     \<and> (case rp of Inr r \<Rightarrow> rpStatus r = 202 | Inl _ \<Rightarrow> False)) log)"

lemma requestWithHeaders_unit:
  assumes "requestWithHeaders svc client meth path payload want None () headers w = (r, w')"
  shows "(wLog w' = wLog w \<and> \<not> isOk r) \<or>
    (\<exists>rq rp. wLog w' = wLog w @ [(rq, rp)] \<and> rqMethod rq = meth \<and> rqURL rq = scBaseURL client @ path
      \<and> (isOk r \<longleftrightarrow> (case rp of Inr rep \<Rightarrow> rpStatus rep = want | Inl _ \<Rightarrow> False)))"
proof (cases "urlParse (scBaseURL client @ path)")
  case (Inl e)
  then show ?thesis using assms by (auto simp: requestWithHeaders_def)
next
  case (Inr u)
  define rq where "rq = \<lparr>rqMethod = meth, rqURL = scBaseURL client @ path,
    rqHeaders = [(''Authorization'', ''Bearer '' @ scToken client), (''Accept'', ''application/json'')]
      @ headers @ (if payload = None then [] else [(''Content-Type'', ''application/json'')]), rqPayload = payload\<rparr>"
  obtain rp w1 where c: "call svc rq w = (rp, w1)" by fastforce
  have "w' = w1" "isOk r \<longleftrightarrow> (case rp of Inr rep \<Rightarrow> rpStatus rep = want | Inl _ \<Rightarrow> False)"
    using assms Inr c unfolding requestWithHeaders_def rq_def[symmetric]
    by (auto split: sum.splits if_splits)
  moreover have "rqMethod rq = meth" "rqURL rq = scBaseURL client @ path" by (simp_all add: rq_def)
  ultimately show ?thesis using call_log[OF c] by blast
qed

text \<open>
  The invariant of a run of one lease of a session: the release was requested at most once and not
  before the close, and a report was accepted exactly when the lease is quarantined.
\<close>

definition leaseInv :: "soxyClient \<Rightarrow> string \<Rightarrow> leaseState \<times> 's world \<Rightarrow> bool" where
  "leaseInv client sid s \<longleftrightarrow>
     releaseCount (scBaseURL client @ sessionPath sid) (wLog (snd s)) = (if lsClosed (fst s) then 1 else 0)
     \<and> acceptedReports (scBaseURL client @ sessionPath sid @ ''/provider-failures'') (wLog (snd s)) = (if lsQuarantined (fst s) then 1 else 0)
     \<and> (lsClosed (fst s) \<or> lsQuarantined (fst s) \<longrightarrow> lsCause (fst s) \<noteq> None)
     \<and> (lsClosed (fst s) \<longrightarrow> lsLoop (fst s) = None)"

lemma cancelWith_fields [simp]:
  "lsClosed (cancelWith c st) = lsClosed st" "lsQuarantined (cancelWith c st) = lsQuarantined st"
  "lsLoop (cancelWith c st) = lsLoop st" "lsCause (cancelWith c st) \<noteq> None"
  by (simp_all add: cancelWith_def)

lemma cancelWith_cause [simp]: "\<exists>y. lsCause (cancelWith c st) = Some y"
  by (simp add: cancelWith_def)

lemma keepAliveTurn_fields:
  "lsClosed (fst (keepAliveTurn lease r st)) = lsClosed st"
  "lsQuarantined (fst (keepAliveTurn lease r st)) = lsQuarantined st"
  "lsCause st \<noteq> None \<Longrightarrow> lsCause (fst (keepAliveTurn lease r st)) \<noteq> None"
  by (auto simp: keepAliveTurn_def Let_def cancelWith_def split: option.splits sum.splits)

lemma leaseInv_timer:
  assumes "leaseInv client sid (st, w)" "extendLease svc client ttl sid w = (r, w')" "lsLoop st = Some n"
  shows "leaseInv client sid (fst (keepAliveTurn lease r st), w')"
proof -
  have "\<not> lsClosed st" using assms(1,3) by (auto simp: leaseInv_def)
  have "wLog w' = wLog w \<or> (\<exists>rq rp. wLog w' = wLog w @ [(rq, rp)] \<and> rqMethod rq = ''POST''
      \<and> rqURL rq = scBaseURL client @ sessionPath sid @ ''/extend'')"
    using requestWithHeaders_unit[of svc client "''POST''" "sessionPath sid @ ''/extend''"] assms(2)
    unfolding extendLease_def extendSession_def request_def by fastforce
  then have "releaseCount (scBaseURL client @ sessionPath sid) (wLog w') = releaseCount (scBaseURL client @ sessionPath sid) (wLog w)"
    "acceptedReports (scBaseURL client @ sessionPath sid @ ''/provider-failures'') (wLog w')
      = acceptedReports (scBaseURL client @ sessionPath sid @ ''/provider-failures'') (wLog w)"
    by (auto simp: releaseCount_def acceptedReports_def)
  then show ?thesis using assms(1) \<open>\<not> lsClosed st\<close> keepAliveTurn_fields(3)[where lease = lease and r = r and st = st]
    by (auto simp: leaseInv_def keepAliveTurn_fields(1,2))
qed

lemma leaseInv_report:
  assumes "leaseInv client sid (st, w)" "leSession lease = Some sid"
    "ReportProviderFailure svc client lease provider signal st w = (r, st', w')"
  shows "leaseInv client sid (st', w')"
proof (cases "lsQuarantined st")
  case True
  then show ?thesis using assms by (simp add: ReportProviderFailure_def)
next
  case False
  obtain rr w1 where rep: "reportProviderFailure svc client sid provider signal (''provider-block:'' @ sid) w = (rr, w1)" by fastforce
  then have st: "w' = w1" "st' = (if isOk rr then cancelWith (Sentinel ErrEgressQuarantined) (st\<lparr>lsQuarantined := True\<rparr>) else st)"
    using assms(2,3) False by (auto simp: ReportProviderFailure_def split: sum.splits)
  let ?url = "scBaseURL client @ sessionPath sid @ ''/provider-failures''"
  have "(wLog w1 = wLog w \<and> \<not> isOk rr) \<or> (\<exists>rq rp. wLog w1 = wLog w @ [(rq, rp)] \<and> rqMethod rq = ''POST'' \<and> rqURL rq = ?url
      \<and> (isOk rr \<longleftrightarrow> (case rp of Inr x \<Rightarrow> rpStatus x = 202 | Inl _ \<Rightarrow> False)))"
    using requestWithHeaders_unit[OF rep[unfolded reportProviderFailure_def]] by simp
  then have "releaseCount (scBaseURL client @ sessionPath sid) (wLog w1) = releaseCount (scBaseURL client @ sessionPath sid) (wLog w)"
    "acceptedReports ?url (wLog w1) = acceptedReports ?url (wLog w) + (if isOk rr then 1 else 0)"
    by (auto simp: releaseCount_def acceptedReports_def)
  then show ?thesis using assms(1) False st by (auto simp: leaseInv_def)
qed

lemma leaseInv_close:
  assumes "leaseInv client sid (st, w)" "leSession lease = Some sid" "clientOk client"
    "CloseLease svc client lease st w = (e, st', w')"
  shows "leaseInv client sid (st', w')"
proof (cases "lsClosed st")
  case True
  then show ?thesis using assms by (simp add: CloseLease_def)
next
  case False
  obtain rr w1 where rel: "releaseSession svc client sid w = (rr, w1)" by fastforce
  then have st: "w' = w1" "lsClosed st'" "lsLoop st' = None" "lsCause st' \<noteq> None" "lsQuarantined st' = lsQuarantined st"
    using assms(2,4) False by (auto simp: CloseLease_def Let_def split: sum.splits)
  obtain r1 where req: "request svc client ''DELETE'' (sessionPath sid) None 204 None () w = (r1, w1)"
    using rel by (auto simp: releaseSession_def split: prod.splits sum.splits option.splits if_splits)
  obtain u where "urlParse (scBaseURL client @ sessionPath sid) = Inr u" using clientOk_paths(3)[OF assms(3)] by blast
  from request_exchange[OF req this] obtain rq rp where "wLog w1 = wLog w @ [(rq, rp)]" "rqMethod rq = ''DELETE''"
    "rqURL rq = scBaseURL client @ sessionPath sid" by blast
  then show ?thesis using assms(1) False st by (auto simp: leaseInv_def releaseCount_def acceptedReports_def)
qed

lemma leaseStep_inv:
  assumes "leaseStep svc client ttl lease s s'" "clientOk client" "leSession lease = Some sid" "leaseInv client sid s"
  shows "leaseInv client sid s'"
  using assms(1)
proof cases
  case (timer_fires st n x w r w')
  then show ?thesis using leaseInv_timer[of client sid st w svc ttl r w' n lease] assms(3,4) by simp
next
  case (loop_done st w)
  then show ?thesis using assms(4) by (auto simp: leaseInv_def)
next
  case (parent_done st w cause)
  then show ?thesis using assms(4) by (auto simp: leaseInv_def)
next
  case (reports provider signal st w r st' w')
  then show ?thesis using leaseInv_report[of client sid st w lease] assms(3,4) by simp
next
  case (closes st w e st' w')
  then show ?thesis using leaseInv_close[of client sid st w lease] assms(2,3,4) by simp
qed


text \<open>
  C7. A session lease is released exactly once and reported at most once: in every run, however
  renewal, reports, cancellation and repeated closes interleave, the service was asked to delete
  the session once if the lease was closed and never otherwise, accepted one provider-failure
  report if the lease is quarantined and none otherwise, and a closed or quarantined lease has
  a cancelled context.
\<close>

theorem lease_released_once:
  assumes "leaseRuns svc client ttl lease (leaseStart lease, w) (st, w')" "clientOk client"
    "leSession lease = Some sid" "wLog w = []"
  shows "releaseCount (scBaseURL client @ sessionPath sid) (wLog w') = (if lsClosed st then 1 else 0)
    \<and> acceptedReports (scBaseURL client @ sessionPath sid @ ''/provider-failures'') (wLog w') = (if lsQuarantined st then 1 else 0)
    \<and> (lsClosed st \<or> lsQuarantined st \<longrightarrow> lsCause st \<noteq> None)"
proof -
  have "leaseInv client sid (leaseStart lease, w)"
    using assms(4) by (simp add: leaseInv_def leaseStart_def releaseCount_def acceptedReports_def)
  with assms(1) have "leaseInv client sid (st, w')"
    by (induction rule: rtranclp_induct2) (auto intro: leaseStep_inv[OF _ assms(2,3)])
  then show ?thesis by (simp add: leaseInv_def)
qed

theorem lease_released_once_witness:
  "let (e, st, w) = CloseLease sampleService sampleClient sampleLease (leaseStart sampleLease) emptyWorld;
       (e', st', w') = CloseLease sampleService sampleClient sampleLease st w
   in releaseCount (scBaseURL sampleClient @ sessionPath ''s'') (wLog w') = 1"
proof -
  obtain e st w where c: "CloseLease sampleService sampleClient sampleLease (leaseStart sampleLease) emptyWorld = (e, st, w)"
    by (metis prod_cases3)
  obtain e' st' w' where c': "CloseLease sampleService sampleClient sampleLease st w = (e', st', w')" by (metis prod_cases3)
  have closed: "lsClosed st" using c by (auto simp: CloseLease_def Let_def leaseStart_def split: if_splits option.splits prod.splits sum.splits)
  then have "st' = st" using c' by (simp add: CloseLease_def)
  have "leaseRuns sampleService sampleClient 0 sampleLease (leaseStart sampleLease, emptyWorld) (st', w')"
    using closes[OF c] closes[OF c'] by (meson r_into_rtranclp rtranclp.rtrancl_into_rtrancl)
  from lease_released_once[OF this sampleClient_ok] closed \<open>st' = st\<close> c c' show ?thesis
    by (simp add: sampleLease_def newLease_def emptyWorld_def)
qed

end
