(* ===== verification/GoHttpTime.thy ===== *)
theory GoHttpTime
  imports GoTime
begin

text \<open>
  \<open>net/http.ParseTime\<close>: the three date layouts of HTTP, each read by the layout-driven
  parser of package \<open>time\<close>. A layout is a list of chunks; the parser consumes the value chunk
  by chunk and fills the fields of a \<open>clockFields\<close>. Names are matched without regard to ASCII
  case, numbers with or without a leading zero as the chunk allows, a fraction of a second is
  read after the seconds, and text left over is an error. The offset of a zone abbreviation is
  the host's: \<open>lookupName\<close> is the argument that gives it.
\<close>

datatype chunk =
    Lit string | WeekDayName "string list" | MonthName | ZeroDay | UnderDay | HourNum
  | ZeroMinute | ZeroSecond | LongYear | ShortYear | ZoneName

record clockFields =
  fYear :: int
  fMonth :: int
  fDay :: int
  fHour :: int
  fMin :: int
  fSec :: int
  fNano :: int
  fZone :: string

definition zeroFields :: clockFields where
  "zeroFields = \<lparr>fYear = 0, fMonth = 1, fDay = 1, fHour = 0, fMin = 0, fSec = 0, fNano = 0, fZone = []\<rparr>"

definition shortDays :: "string list" where
  "shortDays = [''Sun'', ''Mon'', ''Tue'', ''Wed'', ''Thu'', ''Fri'', ''Sat'']"

definition longDays :: "string list" where
  "longDays = [''Sunday'', ''Monday'', ''Tuesday'', ''Wednesday'', ''Thursday'', ''Friday'', ''Saturday'']"

definition shortMonths :: "string list" where
  "shortMonths = [''Jan'', ''Feb'', ''Mar'', ''Apr'', ''May'', ''Jun'', ''Jul'', ''Aug'', ''Sep'', ''Oct'', ''Nov'', ''Dec'']"

text \<open>\<open>lookup\<close>: the index of the first name the value starts with, and the rest.\<close>

fun lookupFrom :: "int \<Rightarrow> string list \<Rightarrow> string \<Rightarrow> (int \<times> string) option" where
  "lookupFrom i [] v = None"
| "lookupFrom i (n # ns) v =
     (if length n \<le> length v \<and> ToLower (take (length n) v) = ToLower n
      then Some (i, drop (length n) v) else lookupFrom (i + 1) ns v)"

definition cutspace :: "string \<Rightarrow> string" where
  "cutspace s = dropWhile (\<lambda>c. c = CHR 0x20) s"

text \<open>\<open>skip\<close>: the literal part of a layout; a space of it stands for any number of spaces.\<close>

fun skipFrom :: "bool \<Rightarrow> string \<Rightarrow> string \<Rightarrow> string option" where
  "skipFrom sp v [] = Some v"
| "skipFrom sp v (p # ps) =
     (if p = CHR 0x20 then
        (if sp then skipFrom True v ps
         else if v \<noteq> [] \<and> hd v \<noteq> CHR 0x20 then None else skipFrom True (cutspace v) ps)
      else if v = [] \<or> hd v \<noteq> p then None else skipFrom False (tl v) ps)"

definition digitAt :: "string \<Rightarrow> nat \<Rightarrow> bool" where
  "digitAt s i \<longleftrightarrow> i < length s \<and> isDigit (s ! i)"

definition getnum :: "string \<Rightarrow> bool \<Rightarrow> (int \<times> string) option" where
  "getnum s fixed =
    (if \<not> digitAt s 0 then None
     else if \<not> digitAt s 1 then (if fixed then None else Some (int (digitVal (s ! 0)), tl s))
     else Some (int (digitVal (s ! 0)) * 10 + int (digitVal (s ! 1)), drop 2 s))"

text \<open>A fraction after the seconds: at most nine digits of it count.\<close>

definition takeFraction :: "string \<Rightarrow> int \<times> string" where
  "takeFraction v =
    (if 2 \<le> length v \<and> (hd v = CHR ''.'' \<or> hd v = CHR '','') \<and> digitAt v 1 then
       (let ds = takeWhile isDigit (tl v); kept = take 9 ds
        in (int (the (decVal 0 kept)) * 10 ^ (9 - length kept), drop (Suc (length ds)) v))
     else (0, v))"

text \<open>\<open>parseGMT\<close> and \<open>parseSignedOffset\<close>: how many bytes the zone's signed hours take.\<close>

definition parseSignedOffset :: "string \<Rightarrow> nat" where
  "parseSignedOffset v =
    (if v = [] \<or> hd v \<notin> {CHR ''-'', CHR ''+''} then 0
     else let ds = takeWhile isDigit (tl v)
          in if ds = [] \<or> the (decVal 0 ds) > 23 then 0 else Suc (length ds))"

definition parseTimeZone :: "string \<Rightarrow> nat option" where
  "parseTimeZone v =
    (if length v < 3 then None
     else if take 4 v \<in> {''ChST'', ''MeST''} then Some 4
     else if take 3 v = ''GMT'' then Some (3 + parseSignedOffset (drop 3 v))
     else if hd v \<in> {CHR ''+'', CHR ''-''} then
       (if parseSignedOffset v = 0 then None else Some (parseSignedOffset v))
     else let n = length (takeWhile (\<lambda>c. CHR ''A'' \<le> c \<and> c \<le> CHR ''Z'') (take 6 v))
          in if n = 5 \<and> v ! 4 = CHR ''T'' then Some 5
             else if n = 4 \<and> (v ! 3 = CHR ''T'' \<or> take 4 v = ''WITA'') then Some 4
             else if n = 3 then Some 3 else None)"

fun parseChunk :: "chunk \<Rightarrow> clockFields \<times> string \<Rightarrow> (clockFields \<times> string) option" where
  "parseChunk (Lit p) (f, v) = map_option (\<lambda>r. (f, r)) (skipFrom False v p)"
| "parseChunk (WeekDayName ns) (f, v) = map_option (\<lambda>(i, r). (f, r)) (lookupFrom 0 ns v)"
| "parseChunk MonthName (f, v) = map_option (\<lambda>(i, r). (f\<lparr>fMonth := i\<rparr>, r)) (lookupFrom 1 shortMonths v)"
| "parseChunk ZeroDay (f, v) = map_option (\<lambda>(i, r). (f\<lparr>fDay := i\<rparr>, r)) (getnum v True)"
| "parseChunk UnderDay (f, v) = map_option (\<lambda>(i, r). (f\<lparr>fDay := i\<rparr>, r))
     (getnum (if v \<noteq> [] \<and> hd v = CHR 0x20 then tl v else v) False)"
| "parseChunk HourNum (f, v) = (case getnum v False of
     Some (i, r) \<Rightarrow> if i < 24 then Some (f\<lparr>fHour := i\<rparr>, r) else None | None \<Rightarrow> None)"
| "parseChunk ZeroMinute (f, v) = (case getnum v True of
     Some (i, r) \<Rightarrow> if i < 60 then Some (f\<lparr>fMin := i\<rparr>, r) else None | None \<Rightarrow> None)"
| "parseChunk ZeroSecond (f, v) = (case getnum v True of
     Some (i, r) \<Rightarrow> if i < 60 then (let (n, r') = takeFraction r in Some (f\<lparr>fSec := i, fNano := n\<rparr>, r'))
       else None | None \<Rightarrow> None)"
| "parseChunk LongYear (f, v) =
     (if length v < 4 then None
      else map_option (\<lambda>y. (f\<lparr>fYear := int y\<rparr>, drop 4 v)) (decVal 0 (take 4 v)))"
| "parseChunk ShortYear (f, v) =
     (if length v < 2 then None
      else map_option (\<lambda>y. (f\<lparr>fYear := if 69 \<le> y then y + 1900 else y + 2000\<rparr>, drop 2 v)) (Atoi (take 2 v)))"
| "parseChunk ZoneName (f, v) =
     (if take 3 v = ''UTC'' then Some (f\<lparr>fZone := ''UTC''\<rparr>, drop 3 v)
      else map_option (\<lambda>n. (f\<lparr>fZone := take n v\<rparr>, drop n v)) (parseTimeZone v))"

fun parseChunks :: "chunk list \<Rightarrow> clockFields \<times> string \<Rightarrow> clockFields option" where
  "parseChunks [] (f, v) = (if v = [] then Some f else None)"
| "parseChunks (c # cs) s = (case parseChunk c s of None \<Rightarrow> None | Some s' \<Rightarrow> parseChunks cs s')"

definition epochDay :: "ymd \<Rightarrow> int" where
  "epochDay d = dayNumber d - 719163"

text \<open>The instant of the fields, as UTC seconds, corrected by the zone's offset.\<close>

definition zoneOffset :: "(string \<Rightarrow> int \<Rightarrow> int option) \<Rightarrow> string \<Rightarrow> int \<Rightarrow> int" where
  "zoneOffset lookupName zone unix =
    (if zone = [] \<or> zone = ''UTC'' then 0
     else case lookupName zone unix of
       Some offset \<Rightarrow> offset
     | None \<Rightarrow> if 3 < length zone \<and> take 3 zone = ''GMT''
               then (case Atoi (drop 3 zone) of Some h \<Rightarrow> h * 3600 | None \<Rightarrow> 0) else 0)"

definition fieldsInstant :: "(string \<Rightarrow> int \<Rightarrow> int option) \<Rightarrow> clockFields \<Rightarrow> instant option" where
  "fieldsInstant lookupName f =
    (let d = \<lparr>yr = fYear f, mo = fMonth f, dy = fDay f\<rparr>;
         unix = epochDay d * 86400 + fHour f * 3600 + fMin f * 60 + fSec f
     in if validYmd d then Some ((unix - zoneOffset lookupName (fZone f) unix) * second + fNano f) else None)"

definition httpLayouts :: "chunk list list" where
  "httpLayouts =
    [[WeekDayName shortDays, Lit '', '', ZeroDay, Lit '' '', MonthName, Lit '' '', LongYear, Lit '' '',
      HourNum, Lit '':'', ZeroMinute, Lit '':'', ZeroSecond, Lit '' GMT''],
     [WeekDayName longDays, Lit '', '', ZeroDay, Lit ''-'', MonthName, Lit ''-'', ShortYear, Lit '' '',
      HourNum, Lit '':'', ZeroMinute, Lit '':'', ZeroSecond, Lit '' '', ZoneName],
     [WeekDayName shortDays, Lit '' '', MonthName, Lit '' '', UnderDay, Lit '' '',
      HourNum, Lit '':'', ZeroMinute, Lit '':'', ZeroSecond, Lit '' '', LongYear]]"

fun firstLayout :: "(string \<Rightarrow> int \<Rightarrow> int option) \<Rightarrow> chunk list list \<Rightarrow> string \<Rightarrow> instant option" where
  "firstLayout lookupName [] s = None"
| "firstLayout lookupName (l # ls) s =
     (case Option.bind (parseChunks l (zeroFields, s)) (fieldsInstant lookupName) of
        Some t \<Rightarrow> Some t | None \<Rightarrow> firstLayout lookupName ls s)"

definition ParseTime :: "(string \<Rightarrow> int \<Rightarrow> int option) \<Rightarrow> string \<Rightarrow> instant option" where
  "ParseTime lookupName s = firstLayout lookupName httpLayouts s"

text \<open>The example of RFC 9110 reads as its instant.\<close>

lemma ParseTime_rfc9110:
  "ParseTime (\<lambda>_ _. None) ''Sun, 06 Nov 1994 08:49:37 GMT'' = Some (784111777 * second)"
  by code_simp

end
