(* ===== verification/RateLimit.thy ===== *)
theory RateLimit
  imports GoHttpTime
begin

text \<open>
  The host-scoped rate-limit circuit breaker (\<open>networkcapture/ratelimit.go\<close>). The gate keeps
  one state per normalised host; its clock and its random draws are arguments of the operations
  that read them: \<open>now\<close> is what \<open>gate.now()\<close> returns, \<open>jitter\<close> the gate's jitter function
  (\<open>None\<close> is Go's nil), and \<open>lookupName\<close> the host's zone table behind \<open>http.ParseTime\<close>. The
  mutex makes every method one atomic step, so a run of the program is a sequence of steps.
  The count of failures, a 64-bit \<open>int\<close> that each rejected probe increments, is a \<open>nat\<close>.
\<close>

record header =
  hName :: string
  hValue :: string

record RateLimitDecision =
  BlockedUntil :: instant
  Delay :: duration
  Source :: string
  Failures :: nat

record rateLimitState =
  blockedUntil :: instant
  failures :: nat
  halfOpen :: bool

record RateLimitGate =
  states :: "string \<Rightarrow> rateLimitState option"
  fallback :: duration
  maximum :: duration

definition defaultRateLimitFallback :: duration where
  "defaultRateLimitFallback = 30 * second"

definition maximumRateLimitFallback :: duration where
  "maximumRateLimitFallback = 15 * minute"

definition NewRateLimitGate :: RateLimitGate where
  "NewRateLimitGate = \<lparr>states = (\<lambda>_. None), fallback = defaultRateLimitFallback,
     maximum = maximumRateLimitFallback\<rparr>"

definition zeroDecision :: RateLimitDecision where
  "zeroDecision = \<lparr>BlockedUntil = zeroTime, Delay = 0, Source = [], Failures = 0\<rparr>"

definition normalizedRateLimitKey :: "string \<Rightarrow> string" where
  "normalizedRateLimitKey key = ToLower (TrimSpace key)"

fun firstHeader :: "header list \<Rightarrow> string \<Rightarrow> string" where
  "firstHeader [] name = []"
| "firstHeader (h # hs) name =
     (if EqualFold (hName h) name then TrimSpace (hValue h) else firstHeader hs name)"

definition decisionFromState :: "instant \<Rightarrow> rateLimitState \<Rightarrow> string \<Rightarrow> RateLimitDecision" where
  "decisionFromState now st source =
    (let delay = timeSub (blockedUntil st) now
     in \<lparr>BlockedUntil = blockedUntil st, Delay = (if delay < 0 then 0 else delay),
         Source = source, Failures = failures st\<rparr>)"

text \<open>\<open>time.Duration(seconds) * time.Second\<close> is a 64-bit product.\<close>

definition secondsDuration :: "int \<Rightarrow> duration" where
  "secondsDuration seconds = wrap64 (seconds * second)"

fun resetDeadline :: "instant \<Rightarrow> header list \<Rightarrow> string list \<Rightarrow> (instant \<times> string) option" where
  "resetDeadline now hs [] = None"
| "resetDeadline now hs (name # names) =
     (case ParseInt 64 (TrimSpace (firstHeader hs name)) of
        None \<Rightarrow> resetDeadline now hs names
      | Some seconds \<Rightarrow>
          if seconds < 0 then resetDeadline now hs names
          else if 1000000000 \<le> seconds then Some (seconds * second, name)
          else Some (now + secondsDuration seconds, name))"

definition retryDeadline ::
  "(string \<Rightarrow> int \<Rightarrow> int option) \<Rightarrow> instant \<Rightarrow> header list \<Rightarrow> (instant \<times> string) option" where
  "retryDeadline lookupName now hs =
    (let value = firstHeader hs ''retry-after'';
         rest = resetDeadline now hs [''ratelimit-reset'', ''x-ratelimit-reset'']
     in if value = [] then rest
        else case ParseInt 64 (TrimSpace value) of
          Some seconds \<Rightarrow>
            if 0 \<le> seconds then Some (now + secondsDuration seconds, ''retry-after'')
            else (case ParseTime lookupName (TrimSpace value) of
                    Some deadline \<Rightarrow> Some (deadline, ''retry-after'') | None \<Rightarrow> rest)
        | None \<Rightarrow>
            (case ParseTime lookupName (TrimSpace value) of
               Some deadline \<Rightarrow> Some (deadline, ''retry-after'') | None \<Rightarrow> rest))"

text \<open>
  \<open>time.Duration(float64(gate.fallback) * math.Pow(2, exponent))\<close>. The product by a power of
  two is exact for a fallback of at most 53 significant bits (the constructor's is 30 seconds);
  a product beyond 64 bits converts to the smallest \<open>int64\<close> on the 64-bit targets, which the
  caller's negative test turns into the maximum.
\<close>

definition floatScale :: "duration \<Rightarrow> nat \<Rightarrow> duration" where
  "floatScale d e = (if inInt64 (d * 2 ^ e) then d * 2 ^ e else minInt64)"

definition backoffDelay :: "RateLimitGate \<Rightarrow> (duration \<Rightarrow> duration) option \<Rightarrow> nat \<Rightarrow> duration" where
  "backoffDelay gate jitter n =
    (let raw = floatScale (fallback gate) (min (n - 1) 20);
         delay = (if maximum gate < raw \<or> raw < 0 then maximum gate else raw)
     in case jitter of
          None \<Rightarrow> delay
        | Some j \<Rightarrow> min (wrap64 (delay + j (min (truncDiv delay 5) (5 * second)))) (maximum gate))"


definition Allow ::
  "RateLimitGate option \<Rightarrow> instant \<Rightarrow> string \<Rightarrow> (bool \<times> RateLimitDecision) \<times> RateLimitGate option" where
  "Allow gate now key =
    (case gate of None \<Rightarrow> ((True, zeroDecision), None) | Some g \<Rightarrow>
      (let k = normalizedRateLimitKey key in
       case states g k of None \<Rightarrow> ((True, zeroDecision), Some g) | Some st \<Rightarrow>
         (let decision = decisionFromState now st ''circuit'' in
          if now < blockedUntil st \<or> halfOpen st then ((False, decision), Some g)
          else ((True, decision), Some (g\<lparr>states := (states g)(k \<mapsto> st\<lparr>halfOpen := True\<rparr>)\<rparr>)))))"

definition Blocked :: "RateLimitGate option \<Rightarrow> instant \<Rightarrow> string \<Rightarrow> bool \<times> RateLimitDecision" where
  "Blocked gate now key =
    (case gate of None \<Rightarrow> (False, zeroDecision) | Some g \<Rightarrow>
      (case states g (normalizedRateLimitKey key) of
         None \<Rightarrow> (False, zeroDecision)
       | Some st \<Rightarrow> (now < blockedUntil st \<or> halfOpen st, decisionFromState now st ''circuit'')))"

definition Observe429 ::
  "(string \<Rightarrow> int \<Rightarrow> int option) \<Rightarrow> (duration \<Rightarrow> duration) option \<Rightarrow> RateLimitGate option \<Rightarrow> instant \<Rightarrow>
   string \<Rightarrow> header list \<Rightarrow> RateLimitDecision \<times> RateLimitGate option" where
  "Observe429 lookupName jitter gate now key hs =
    (case gate of None \<Rightarrow> (zeroDecision, None) | Some g \<Rightarrow>
      (let k = normalizedRateLimitKey key;
           st = (case states g k of Some st \<Rightarrow> st
                 | None \<Rightarrow> \<lparr>blockedUntil = zeroTime, failures = 0, halfOpen = False\<rparr>);
           put = (\<lambda>st. Some (g\<lparr>states := (states g)(k \<mapsto> st)\<rparr>))
       in if now < blockedUntil st \<and> \<not> halfOpen st then
            (case retryDeadline lookupName now hs of
               Some (retryAt, source) \<Rightarrow>
                 if blockedUntil st < retryAt then
                   (let st' = st\<lparr>blockedUntil := retryAt\<rparr> in (decisionFromState now st' source, put st'))
                 else (decisionFromState now st ''active_circuit'', put st)
             | None \<Rightarrow> (decisionFromState now st ''active_circuit'', put st))
          else
            (let n = failures st + 1;
                 (retryAt, source) =
                   (case retryDeadline lookupName now hs of
                      Some (retryAt, source) \<Rightarrow>
                        if now < retryAt then (retryAt, source)
                        else (now + backoffDelay g jitter n, ''exponential_fallback'')
                    | None \<Rightarrow> (now + backoffDelay g jitter n, ''exponential_fallback''));
                 st' = \<lparr>blockedUntil = retryAt, failures = n, halfOpen = False\<rparr>
             in (decisionFromState now st' source, put st'))))"

definition ObserveSuccess :: "RateLimitGate option \<Rightarrow> string \<Rightarrow> bool \<times> RateLimitGate option" where
  "ObserveSuccess gate key =
    (case gate of None \<Rightarrow> (False, None) | Some g \<Rightarrow>
      (let k = normalizedRateLimitKey key in
       case states g k of None \<Rightarrow> (False, Some g) | Some st \<Rightarrow>
         if \<not> halfOpen st then (False, Some g)
         else (True, Some (g\<lparr>states := (states g)(k := None)\<rparr>))))"

definition ObserveFailure ::
  "(duration \<Rightarrow> duration) option \<Rightarrow> RateLimitGate option \<Rightarrow> instant \<Rightarrow> string \<Rightarrow>
   (RateLimitDecision \<times> bool) \<times> RateLimitGate option" where
  "ObserveFailure jitter gate now key =
    (case gate of None \<Rightarrow> ((zeroDecision, False), None) | Some g \<Rightarrow>
      (let k = normalizedRateLimitKey key in
       case states g k of None \<Rightarrow> ((zeroDecision, False), Some g) | Some st \<Rightarrow>
         if \<not> halfOpen st then ((zeroDecision, False), Some g)
         else
           (let n = failures st + 1;
                st' = \<lparr>blockedUntil = now + backoffDelay g jitter n, failures = n, halfOpen = False\<rparr>
            in ((decisionFromState now st' ''half_open_transport_failure'', True),
                Some (g\<lparr>states := (states g)(k \<mapsto> st')\<rparr>)))))"


section \<open>The back-off\<close>

definition gateOk :: "RateLimitGate \<Rightarrow> bool" where
  "gateOk g \<longleftrightarrow> 0 < fallback g \<and> fallback g \<le> maximum g \<and> maximum g + 5 * second \<le> maxInt64"

definition jitterOk :: "(duration \<Rightarrow> duration) option \<Rightarrow> bool" where
  "jitterOk jitter \<longleftrightarrow> (\<forall>j. jitter = Some j \<longrightarrow> (\<forall>m. 0 \<le> j m \<and> (0 \<le> m \<longrightarrow> j m \<le> m)))"


lemma NewRateLimitGate_ok: "gateOk NewRateLimitGate"
  by (simp add: gateOk_def NewRateLimitGate_def defaultRateLimitFallback_def
      maximumRateLimitFallback_def duration_units int_limits)


lemma floatScale_cases:
  assumes "gateOk g" and raw_def: "raw = floatScale (fallback g) e"
  shows "(if maximum g < raw \<or> raw < 0 then maximum g else raw) = min (maximum g) (fallback g * 2 ^ e)"
proof (cases "inInt64 (fallback g * 2 ^ e)")
  case True
  have "0 < fallback g * 2 ^ e" using assms(1) by (simp add: gateOk_def)
  with True show ?thesis by (auto simp: raw_def floatScale_def)
next
  case False
  have "0 < fallback g * 2 ^ e" using assms(1) by (simp add: gateOk_def)
  with False have "maxInt64 < fallback g * 2 ^ e" by (simp add: inInt64_def int_limits)
  moreover have "maximum g \<le> maxInt64" using assms(1) by (simp add: gateOk_def second_def)
  ultimately show ?thesis using False by (simp add: raw_def floatScale_def int_limits)
qed

lemma backoffDelay_eq:
  assumes "gateOk g" "jitterOk jitter"
  obtains x where "0 \<le> x" "x \<le> 5 * second"
    "backoffDelay g jitter n = min (min (maximum g) (fallback g * 2 ^ min (n - 1) 20) + x) (maximum g)"
proof -
  define d where "d = min (maximum g) (fallback g * 2 ^ min (n - 1) 20)"
  have d: "0 < d" "d \<le> maximum g" using assms(1) by (auto simp: d_def gateOk_def)
  show ?thesis
  proof (cases jitter)
    case None
    then show ?thesis using that[of 0] d
      by (simp add: backoffDelay_def Let_def floatScale_cases[OF assms(1) refl] d_def[symmetric] second_def)
  next
    case (Some j)
    define x where "x = j (min (truncDiv d 5) (5 * second))"
    have "0 \<le> min (truncDiv d 5) (5 * second)" using d by (simp add: second_def)
    with Some assms(2) have "0 \<le> x" "x \<le> min (truncDiv d 5) (5 * second)"
      unfolding jitterOk_def x_def by blast+
    then have x: "0 \<le> x" "x \<le> 5 * second" by auto
    have "inInt64 (d + x)" using d x assms(1) by (simp add: inInt64_def gateOk_def int_limits)
    then have "backoffDelay g jitter n = min (d + x) (maximum g)" using Some
      unfolding backoffDelay_def Let_def floatScale_cases[OF assms(1) refl] d_def[symmetric] x_def by simp
    then show ?thesis using that[OF x] unfolding d_def by simp
  qed
qed

lemma backoffDelay_bounds:
  assumes "gateOk g" "jitterOk jitter"
  shows "0 < backoffDelay g jitter n" "backoffDelay g jitter n \<le> maximum g"
    "min (maximum g) (fallback g * 2 ^ min (n - 1) 20) \<le> backoffDelay g jitter n"
proof -
  obtain x where x: "0 \<le> x"
    "backoffDelay g jitter n = min (min (maximum g) (fallback g * 2 ^ min (n - 1) 20) + x) (maximum g)"
    using backoffDelay_eq[OF assms] by blast
  have "0 < min (maximum g) (fallback g * 2 ^ min (n - 1) 20)" using assms(1) by (auto simp: gateOk_def)
  with x show "0 < backoffDelay g jitter n" "backoffDelay g jitter n \<le> maximum g"
    "min (maximum g) (fallback g * 2 ^ min (n - 1) 20) \<le> backoffDelay g jitter n" by auto
qed


section \<open>The circuit a host sees\<close>

datatype circuit = Closed | Open instant nat | HalfOpen instant nat

datatype rateKind = KAllow | KBlocked | K429 | KSuccess | KFailure

text \<open>
  The contract the gate's documentation states: a 429 opens the circuit until a deadline, an
  open circuit refuses work until it, then lets one request through, and only the outcome of
  that request (a success, a failure, another 429) moves the circuit on.
\<close>

inductive circuitStep :: "instant \<Rightarrow> rateKind \<Rightarrow> bool \<Rightarrow> circuit \<Rightarrow> circuit \<Rightarrow> bool" for now where
  allow_closed: "circuitStep now KAllow True Closed Closed"
| allow_open: "now < u \<Longrightarrow> circuitStep now KAllow False (Open u n) (Open u n)"
| allow_probe: "u \<le> now \<Longrightarrow> circuitStep now KAllow True (Open u n) (HalfOpen u n)"
| allow_half: "circuitStep now KAllow False (HalfOpen u n) (HalfOpen u n)"
| blocked_closed: "circuitStep now KBlocked False Closed Closed"
| blocked_open: "ok \<longleftrightarrow> now < u \<Longrightarrow> circuitStep now KBlocked ok (Open u n) (Open u n)"
| blocked_half: "circuitStep now KBlocked True (HalfOpen u n) (HalfOpen u n)"
| open_closed: "now < u \<Longrightarrow> circuitStep now K429 True Closed (Open u (Suc 0))"
| open_active: "now < u \<Longrightarrow> u \<le> v \<Longrightarrow> circuitStep now K429 True (Open u n) (Open v n)"
| open_expired: "u \<le> now \<Longrightarrow> now < v \<Longrightarrow> circuitStep now K429 True (Open u n) (Open v (Suc n))"
| open_half: "now < v \<Longrightarrow> circuitStep now K429 True (HalfOpen u n) (Open v (Suc n))"
| success_half: "circuitStep now KSuccess True (HalfOpen u n) Closed"
| success_closed: "circuitStep now KSuccess False Closed Closed"
| success_open: "circuitStep now KSuccess False (Open u n) (Open u n)"
| failure_half: "now < v \<Longrightarrow> circuitStep now KFailure True (HalfOpen u n) (Open v (Suc n))"
| failure_closed: "circuitStep now KFailure False Closed Closed"
| failure_open: "circuitStep now KFailure False (Open u n) (Open u n)"

inductive_cases circuit_from_open: "circuitStep now k ok (Open u n) c"
inductive_cases circuit_from_half: "circuitStep now k ok (HalfOpen u n) c"
inductive_cases circuit_to_half: "circuitStep now k ok c (HalfOpen u n)"

datatype 'k rateEvent =
    EAllow (eventKey: 'k) | EBlocked (eventKey: 'k) | E429 (eventKey: 'k) "header list"
  | ESuccess (eventKey: 'k) | EFailure (eventKey: 'k)

fun eventKind :: "'k rateEvent \<Rightarrow> rateKind" where
  "eventKind (EAllow _) = KAllow" | "eventKind (EBlocked _) = KBlocked" | "eventKind (E429 _ _) = K429"
| "eventKind (ESuccess _) = KSuccess" | "eventKind (EFailure _) = KFailure"

definition settles :: "'k rateEvent \<Rightarrow> bool" where
  "settles e \<longleftrightarrow> eventKind e \<in> {K429, KSuccess, KFailure}"

text \<open>Runs of any step relation, as lists of time, event and reply.\<close>

inductive runs :: "('g \<Rightarrow> instant \<Rightarrow> 'k rateEvent \<Rightarrow> bool \<Rightarrow> 'g \<Rightarrow> bool) \<Rightarrow> 'g \<Rightarrow>
    (instant \<times> 'k rateEvent \<times> bool) list \<Rightarrow> 'g \<Rightarrow> bool" for step where
  runs_Nil: "runs step g [] g"
| runs_Cons: "step g now e ok g1 \<Longrightarrow> runs step g1 tr g2 \<Longrightarrow> runs step g ((now, e, ok) # tr) g2"

text \<open>A keyed circuit breaker: each key has a circuit, and a step is a step of its key's circuit only.\<close>

locale circuit_breaker =
  fixes norm :: "'k \<Rightarrow> 'k"
    and inv :: "'g \<Rightarrow> bool"
    and view :: "'g \<Rightarrow> 'k \<Rightarrow> circuit"
    and step :: "'g \<Rightarrow> instant \<Rightarrow> 'k rateEvent \<Rightarrow> bool \<Rightarrow> 'g \<Rightarrow> bool"
  assumes keeps: "inv g \<Longrightarrow> step g now e ok g' \<Longrightarrow> inv g'"
    and refines: "inv g \<Longrightarrow> step g now e ok g' \<Longrightarrow> norm (eventKey e) = norm key \<Longrightarrow>
      circuitStep now (eventKind e) ok (view g key) (view g' key)"
    and frame: "inv g \<Longrightarrow> step g now e ok g' \<Longrightarrow> norm (eventKey e) \<noteq> norm key \<Longrightarrow> view g' key = view g key"
begin

lemma refused_until_deadline:
  assumes "runs step g tr g'" "inv g" "view g key = Open u n" "\<forall>(now, e, ok) \<in> set tr. now < u"
  shows "(\<exists>v. view g' key = Open v n \<and> u \<le> v) \<and>
    (\<forall>now k ok. (now, EAllow k, ok) \<in> set tr \<longrightarrow> norm k = norm key \<longrightarrow> \<not> ok)"
  using assms
proof (induction arbitrary: u rule: runs.induct)
  case (runs_Nil g)
  then show ?case by simp
next
  case (runs_Cons g now e ok g1 tr g2)
  have now: "now < u" using runs_Cons.prems(3) by simp
  have inv1: "inv g1" using keeps runs_Cons.hyps(1) runs_Cons.prems(1) by blast
  have step1: "(\<exists>v. view g1 key = Open v n \<and> u \<le> v) \<and> (\<forall>k. e = EAllow k \<longrightarrow> norm k = norm key \<longrightarrow> \<not> ok)"
  proof (cases "norm (eventKey e) = norm key")
    case True
    from refines[OF runs_Cons.prems(1) runs_Cons.hyps(1) True] runs_Cons.prems(2) now
    show ?thesis by (auto elim!: circuit_from_open)
  next
    case False
    then show ?thesis using frame[OF runs_Cons.prems(1) runs_Cons.hyps(1) False] runs_Cons.prems(2) by auto
  qed
  then obtain v where v: "view g1 key = Open v n" "u \<le> v" by blast
  have "\<forall>(now, e, ok) \<in> set tr. now < v" using runs_Cons.prems(3) v(2) by fastforce
  from runs_Cons.IH[OF inv1 v(1) this] v(2) step1 show ?case by (auto intro: order_trans)
qed

lemma single_probe:
  assumes "runs step g tr g'" "inv g" "view g key = HalfOpen u n"
    "\<forall>(now, e, ok) \<in> set tr. norm (eventKey e) = norm key \<longrightarrow> \<not> settles e"
  shows "view g' key = HalfOpen u n \<and>
    (\<forall>now k ok. (now, EAllow k, ok) \<in> set tr \<longrightarrow> norm k = norm key \<longrightarrow> \<not> ok)"
  using assms
proof (induction rule: runs.induct)
  case (runs_Nil g)
  then show ?case by simp
next
  case (runs_Cons g now e ok g1 tr g2)
  have inv1: "inv g1" using keeps runs_Cons.hyps(1) runs_Cons.prems(1) by blast
  have "view g1 key = HalfOpen u n \<and> (\<forall>k. e = EAllow k \<longrightarrow> norm k = norm key \<longrightarrow> \<not> ok)"
  proof (cases "norm (eventKey e) = norm key")
    case True
    from refines[OF runs_Cons.prems(1) runs_Cons.hyps(1) True] runs_Cons.prems(2,3) True
    show ?thesis by (cases e) (auto simp: settles_def elim!: circuit_from_half)
  next
    case False
    then show ?thesis using frame[OF runs_Cons.prems(1) runs_Cons.hyps(1) False] runs_Cons.prems(2) by auto
  qed
  with runs_Cons.IH[OF inv1] runs_Cons.prems(3) show ?case by auto
qed

lemma half_open_entry:
  assumes "inv g" "step g now e ok g'" "view g' key = HalfOpen u n" "\<forall>v m. view g key \<noteq> HalfOpen v m"
  shows "eventKind e = KAllow \<and> norm (eventKey e) = norm key \<and> ok \<and> view g key = Open u n \<and> u \<le> now"
proof (cases "norm (eventKey e) = norm key")
  case True
  from refines[OF assms(1,2) True] assms(3) have "circuitStep now (eventKind e) ok (view g key) (HalfOpen u n)"
    by simp
  then show ?thesis using True assms(4) by cases auto
next
  case False
  then show ?thesis using frame[OF assms(1,2) False] assms(3,4) by metis
qed

end


section \<open>The gate is a circuit breaker\<close>

definition circuitOf :: "RateLimitGate \<Rightarrow> string \<Rightarrow> circuit" where
  "circuitOf g key =
    (case states g (normalizedRateLimitKey key) of None \<Rightarrow> Closed
     | Some st \<Rightarrow> if halfOpen st then HalfOpen (blockedUntil st) (failures st)
                 else Open (blockedUntil st) (failures st))"

text \<open>
  One call of a method of a gate that is not nil. The clock reads at or after the zero time, the
  jitter draws are within their bound. The reply of \<open>Observe429\<close> is a decision only.
\<close>

inductive gateStep :: "(string \<Rightarrow> int \<Rightarrow> int option) \<Rightarrow> RateLimitGate \<Rightarrow> instant \<Rightarrow> string rateEvent \<Rightarrow>
    bool \<Rightarrow> RateLimitGate \<Rightarrow> bool" for lookupName g now where
  step_allow: "Allow (Some g) now key = ((ok, d), Some g') \<Longrightarrow> gateStep lookupName g now (EAllow key) ok g'"
| step_blocked: "Blocked (Some g) now key = (ok, d) \<Longrightarrow> gateStep lookupName g now (EBlocked key) ok g"
| step_429: "zeroTime \<le> now \<Longrightarrow> jitterOk jitter \<Longrightarrow> Observe429 lookupName jitter (Some g) now key hs = (d, Some g') \<Longrightarrow>
    gateStep lookupName g now (E429 key hs) True g'"
| step_success: "ObserveSuccess (Some g) key = (ok, Some g') \<Longrightarrow> gateStep lookupName g now (ESuccess key) ok g'"
| step_failure: "jitterOk jitter \<Longrightarrow> ObserveFailure jitter (Some g) now key = ((d, ok), Some g') \<Longrightarrow>
    gateStep lookupName g now (EFailure key) ok g'"

lemma Allow_spec:
  assumes "Allow (Some g) now key = ((ok, d), Some g')"
  shows "circuitStep now KAllow ok (circuitOf g key) (circuitOf g' key)
    \<and> (\<forall>k. k \<noteq> normalizedRateLimitKey key \<longrightarrow> states g' k = states g k)
    \<and> fallback g' = fallback g \<and> maximum g' = maximum g"
  using assms unfolding Allow_def circuitOf_def
  by (auto simp: Let_def not_less split: option.splits if_splits intro: circuitStep.intros(1,2,4) intro!: circuitStep.allow_probe)

lemma Blocked_spec:
  assumes "Blocked (Some g) now key = (ok, d)"
  shows "circuitStep now KBlocked ok (circuitOf g key) (circuitOf g key)"
  using assms unfolding Blocked_def circuitOf_def
  by (auto split: option.splits intro: circuitStep.intros)

lemma ObserveSuccess_spec:
  assumes "ObserveSuccess (Some g) key = (ok, Some g')"
  shows "circuitStep now KSuccess ok (circuitOf g key) (circuitOf g' key)
    \<and> (\<forall>k. k \<noteq> normalizedRateLimitKey key \<longrightarrow> states g' k = states g k)
    \<and> fallback g' = fallback g \<and> maximum g' = maximum g"
  using assms unfolding ObserveSuccess_def circuitOf_def
  by (auto simp: Let_def split: option.splits if_splits intro: circuitStep.intros)

lemma ObserveFailure_spec:
  assumes "gateOk g" "jitterOk jitter" "ObserveFailure jitter (Some g) now key = ((d, ok), Some g')"
  shows "circuitStep now KFailure ok (circuitOf g key) (circuitOf g' key)
    \<and> (\<forall>k. k \<noteq> normalizedRateLimitKey key \<longrightarrow> states g' k = states g k)
    \<and> fallback g' = fallback g \<and> maximum g' = maximum g"
  using assms(3) backoffDelay_bounds(1)[OF assms(1,2)] unfolding ObserveFailure_def circuitOf_def
  by (auto simp: Let_def split: option.splits if_splits intro: circuitStep.intros(1-14,16-) intro!: circuitStep.failure_half)

text \<open>What a 429 leaves: the entry of the key in one of its two shapes, and nothing else changed.\<close>

lemma Observe429_active:
  assumes "Observe429 lookupName jitter (Some g) now key hs = (d, Some g')"
    "states g (normalizedRateLimitKey key) = Some st" "now < blockedUntil st" "\<not> halfOpen st"
  shows "\<exists>u. blockedUntil st \<le> u \<and> BlockedUntil d = u \<and>
    g' = g\<lparr>states := (states g)(normalizedRateLimitKey key \<mapsto> st\<lparr>blockedUntil := u\<rparr>)\<rparr>"
proof -
  have "st = st\<lparr>blockedUntil := blockedUntil st\<rparr>" by simp
  then show ?thesis using assms unfolding Observe429_def
    by (auto simp: Let_def decisionFromState_def split: option.splits if_splits prod.splits
        intro!: exI[of _ "blockedUntil st"])
qed

lemma Observe429_fresh:
  assumes "gateOk g" "jitterOk jitter" "zeroTime \<le> now"
    "Observe429 lookupName jitter (Some g) now key hs = (d, Some g')"
    "case states g (normalizedRateLimitKey key) of None \<Rightarrow> n = 0
     | Some st \<Rightarrow> n = failures st \<and> (blockedUntil st \<le> now \<or> halfOpen st)"
  shows "\<exists>u. now < u \<and> BlockedUntil d = u \<and> g' = g\<lparr>states := (states g)(normalizedRateLimitKey key \<mapsto>
      \<lparr>blockedUntil = u, failures = n + 1, halfOpen = False\<rparr>)\<rparr>"
  using assms(3-5) backoffDelay_bounds(1)[OF assms(1,2)] unfolding Observe429_def
  by (auto simp: Let_def decisionFromState_def split: option.splits if_splits prod.splits)

lemma Observe429_spec:
  assumes "gateOk g" "jitterOk jitter" "zeroTime \<le> now"
    "Observe429 lookupName jitter (Some g) now key hs = (d, Some g')"
  shows "circuitStep now K429 True (circuitOf g key) (circuitOf g' key)
    \<and> (\<forall>k. k \<noteq> normalizedRateLimitKey key \<longrightarrow> states g' k = states g k)
    \<and> fallback g' = fallback g \<and> maximum g' = maximum g
    \<and> (\<exists>n. circuitOf g' key = Open (BlockedUntil d) n \<and> now < BlockedUntil d)"
proof (cases "\<exists>st. states g (normalizedRateLimitKey key) = Some st \<and> now < blockedUntil st \<and> \<not> halfOpen st")
  case True
  then obtain st where st: "states g (normalizedRateLimitKey key) = Some st" "now < blockedUntil st" "\<not> halfOpen st"
    by blast
  from Observe429_active[OF assms(4) st] obtain u where "blockedUntil st \<le> u" "BlockedUntil d = u"
    "g' = g\<lparr>states := (states g)(normalizedRateLimitKey key \<mapsto> st\<lparr>blockedUntil := u\<rparr>)\<rparr>" by blast
  with st show ?thesis by (auto simp: circuitOf_def intro: circuitStep.intros)
next
  case False
  define n where "n = (case states g (normalizedRateLimitKey key) of None \<Rightarrow> 0 | Some st \<Rightarrow> failures st)"
  have "case states g (normalizedRateLimitKey key) of None \<Rightarrow> n = 0
     | Some st \<Rightarrow> n = failures st \<and> (blockedUntil st \<le> now \<or> halfOpen st)"
    using False by (auto simp: n_def split: option.splits)
  from Observe429_fresh[OF assms this] obtain u where u: "now < u" "BlockedUntil d = u"
    "g' = g\<lparr>states := (states g)(normalizedRateLimitKey key \<mapsto>
      \<lparr>blockedUntil = u, failures = n + 1, halfOpen = False\<rparr>)\<rparr>" by blast
  then have "circuitOf g' key = Open u (n + 1)" by (simp add: circuitOf_def)
  moreover have "circuitStep now K429 True (circuitOf g key) (Open u (n + 1))"
    using False u(1) circuitStep.open_closed[OF u(1)]
    by (auto simp: circuitOf_def n_def split: option.splits intro!: circuitStep.open_half circuitStep.open_expired)
  ultimately show ?thesis using u by simp
qed

lemmas gate_specs = Allow_spec Blocked_spec Observe429_spec ObserveSuccess_spec ObserveFailure_spec

lemma gateStep_frame:
  assumes "gateOk g" "gateStep lookupName g now e ok g'"
  shows "gateOk g' \<and> (\<forall>k. k \<noteq> normalizedRateLimitKey (eventKey e) \<longrightarrow> states g' k = states g k)"
  using assms(2)
proof cases
  case (step_429 jitter key hs d)
  from Observe429_spec[OF assms(1) step_429(4,3,5)] assms(1) step_429(1) show ?thesis
    by (simp add: gateOk_def)
next
  case (step_failure jitter key d)
  from ObserveFailure_spec[OF assms(1) step_failure(2,3)] assms(1) step_failure(1) show ?thesis
    by (simp add: gateOk_def)
qed (use assms(1) in \<open>auto simp: gateOk_def dest: Allow_spec ObserveSuccess_spec\<close>)

lemma circuitOf_same: "normalizedRateLimitKey k = normalizedRateLimitKey key \<Longrightarrow> circuitOf g k = circuitOf g key"
  by (simp add: circuitOf_def)

lemma gateStep_circuit:
  assumes "gateOk g" "gateStep lookupName g now e ok g'"
  shows "circuitStep now (eventKind e) ok (circuitOf g (eventKey e)) (circuitOf g' (eventKey e))"
  using assms(2)
proof cases
  case (step_429 jitter key hs d)
  with Observe429_spec[OF assms(1) step_429(4,3,5)] show ?thesis by simp
next
  case (step_failure jitter key d)
  with ObserveFailure_spec[OF assms(1) step_failure(2,3)] show ?thesis by simp
qed (auto dest: Allow_spec Blocked_spec ObserveSuccess_spec)

interpretation gate: circuit_breaker normalizedRateLimitKey gateOk circuitOf "gateStep lookupName"
proof
  fix g now e ok g' key
  assume inv: "gateOk g" and step: "gateStep lookupName g now e ok g'"
  show "gateOk g'" using gateStep_frame[OF inv step] by simp
  show "circuitStep now (eventKind e) ok (circuitOf g key) (circuitOf g' key)"
    if "normalizedRateLimitKey (eventKey e) = normalizedRateLimitKey key"
    using gateStep_circuit[OF inv step] circuitOf_same[OF that] by metis
  show "circuitOf g' key = circuitOf g key" if "normalizedRateLimitKey (eventKey e) \<noteq> normalizedRateLimitKey key"
    using gateStep_frame[OF inv step] that by (simp add: circuitOf_def)
qed


lemma Observe429_total: "\<exists>d g'. Observe429 lookupName jitter (Some g) now key hs = (d, Some g')"
  by (auto simp: Observe429_def Let_def split: option.split prod.split)

lemma Allow_total: "\<exists>ok d g'. Allow (Some g) now key = ((ok, d), Some g')"
  by (auto simp: Allow_def Let_def split: option.split)

text \<open>Two gates the concrete instances use: one open with an expired deadline, one half-open.\<close>

definition expiredGate :: RateLimitGate where
  "expiredGate = NewRateLimitGate\<lparr>states := [''h'' \<mapsto> \<lparr>blockedUntil = 0, failures = 1, halfOpen = False\<rparr>]\<rparr>"

definition probingGate :: RateLimitGate where
  "probingGate = NewRateLimitGate\<lparr>states := [''h'' \<mapsto> \<lparr>blockedUntil = 0, failures = 2, halfOpen = True\<rparr>]\<rparr>"

definition retryAfter60 :: "header list" where
  "retryAfter60 = [\<lparr>hName = ''Retry-After'', hValue = ''60''\<rparr>]"

lemma sampleGates_ok: "gateOk expiredGate" "gateOk probingGate"
  using NewRateLimitGate_ok by (simp_all add: gateOk_def expiredGate_def probingGate_def)

lemma key_h [simp]: "normalizedRateLimitKey ''h'' = ''h''" "normalizedRateLimitKey ''H '' = ''h''"
  by code_simp+

lemma zeroTime_neg [simp]: "zeroTime \<le> 0" "zeroTime \<le> 1"
  by (simp_all add: zeroTime_def second_def)


section \<open>Properties\<close>

text \<open>
  C1. Every call of a method of the gate is a step of the circuit of its host, in the contract's
  relation, and leaves the circuit of every other host as it was: the per-host map with its
  \<open>halfOpen\<close> flags implements one independent three-state circuit breaker per normalised host.
\<close>

theorem gate_refines_circuit:
  assumes "gateOk g" "gateStep lookupName g now e ok g'"
  shows "gateOk g' \<and> circuitStep now (eventKind e) ok (circuitOf g (eventKey e)) (circuitOf g' (eventKey e))
    \<and> (\<forall>key. normalizedRateLimitKey key \<noteq> normalizedRateLimitKey (eventKey e) \<longrightarrow> circuitOf g' key = circuitOf g key)"
  using gate.keeps[OF assms] gate.refines[OF assms refl] gate.frame[OF assms] by simp

theorem gate_refines_circuit_witness:
  "circuitStep 1 KAllow True (circuitOf expiredGate ''h'')
     (circuitOf (the (snd (Allow (Some expiredGate) 1 ''h''))) ''h'')"
proof -
  obtain ok d g' where a: "Allow (Some expiredGate) 1 ''h'' = ((ok, d), Some g')" using Allow_total by blast
  then have ok by (auto simp: Allow_def Let_def expiredGate_def)
  with gate_refines_circuit[OF sampleGates_ok(1) step_allow[OF a]] a show ?thesis by simp
qed

text \<open>
  C2. After a 429 is observed on a host, no later call of \<open>Allow\<close> for that host, in any
  interleaving of calls on any hosts, is granted before the deadline the decision announced; the
  circuit stays open with the same count of failures and its deadline only moves later.
\<close>

theorem refused_until_announced_deadline:
  assumes "gateOk g" "zeroTime \<le> now" "jitterOk jitter"
    "Observe429 lookupName jitter (Some g) now key hs = (d, Some g1)"
    "runs (gateStep lookupName) g1 tr g2" "\<forall>(t, e, ok) \<in> set tr. t < BlockedUntil d"
  shows "(\<forall>t k ok. (t, EAllow k, ok) \<in> set tr \<longrightarrow> normalizedRateLimitKey k = normalizedRateLimitKey key \<longrightarrow> \<not> ok)
    \<and> (\<exists>u n. circuitOf g2 key = Open u n \<and> BlockedUntil d \<le> u \<and> circuitOf g1 key = Open (BlockedUntil d) n)"
proof -
  from Observe429_spec[OF assms(1,3,2,4)] obtain n where n: "circuitOf g1 key = Open (BlockedUntil d) n" by blast
  have "gateStep lookupName g now (E429 key hs) True g1" by (rule step_429[OF assms(2-4)])
  then have "gateOk g1" by (rule gate.keeps[OF assms(1)])
  from gate.refused_until_deadline[OF assms(5) this n assms(6)] n show ?thesis by blast
qed

theorem refused_until_announced_deadline_witness:
  "\<not> fst (fst (Allow (snd (Observe429 (\<lambda>_ _. None) None (Some NewRateLimitGate) 0 ''h'' retryAfter60)) (10 * second) ''H ''))"
proof -
  obtain d g1 where o: "Observe429 (\<lambda>_ _. None) None (Some NewRateLimitGate) 0 ''h'' retryAfter60 = (d, Some g1)"
    using Observe429_total by blast
  have "BlockedUntil (fst (Observe429 (\<lambda>_ _. None) None (Some NewRateLimitGate) 0 ''h'' retryAfter60)) = 60 * second"
    by code_simp
  then have until: "BlockedUntil d = 60 * second" using o by simp
  obtain ok d' g2 where a: "Allow (Some g1) (10 * second) ''H '' = ((ok, d'), Some g2)" using Allow_total by blast
  have "runs (gateStep (\<lambda>_ _. None)) g1 [(10 * second, EAllow ''H '', ok)] g2"
    by (rule runs_Cons, rule step_allow[OF a], rule runs_Nil)
  from refused_until_announced_deadline[OF NewRateLimitGate_ok _ _ o this] until
  have "\<not> ok" by (auto simp: jitterOk_def second_def)
  with o a show ?thesis by simp
qed

text \<open>
  C20. Exactly one half-open request: when \<open>Allow\<close> is granted on a host whose circuit is not
  closed, the deadline had passed, and until an outcome for that host is observed every further
  \<open>Allow\<close> for it is refused, whatever else happens in between and however much time passes.
\<close>

theorem one_half_open_request:
  assumes "gateOk g" "gateStep lookupName g now (EAllow key) True g1" "circuitOf g key \<noteq> Closed"
    "runs (gateStep lookupName) g1 tr g2"
    "\<forall>(t, e, ok) \<in> set tr. normalizedRateLimitKey (eventKey e) = normalizedRateLimitKey key \<longrightarrow> \<not> settles e"
  shows "(\<exists>u n. circuitOf g key = Open u n \<and> u \<le> now \<and> circuitOf g2 key = HalfOpen u n)
    \<and> (\<forall>t k ok. (t, EAllow k, ok) \<in> set tr \<longrightarrow> normalizedRateLimitKey k = normalizedRateLimitKey key \<longrightarrow> \<not> ok)"
proof -
  have "circuitStep now KAllow True (circuitOf g key) (circuitOf g1 key)"
    using gate.refines[OF assms(1,2), of key] by simp
  then obtain u n where un: "circuitOf g key = Open u n" "circuitOf g1 key = HalfOpen u n" "u \<le> now"
    using assms(3) by cases auto
  from gate.single_probe[OF assms(4) gate.keeps[OF assms(1,2)] un(2) assms(5)] un show ?thesis by blast
qed

theorem one_half_open_request_witness:
  "\<not> fst (fst (Allow (snd (Allow (Some expiredGate) 1 ''h'')) 2 ''h''))"
proof -
  obtain ok1 d1 g1 where a1: "Allow (Some expiredGate) 1 ''h'' = ((ok1, d1), Some g1)" using Allow_total by blast
  then have ok1 by (auto simp: Allow_def Let_def expiredGate_def)
  obtain ok d g2 where a2: "Allow (Some g1) 2 ''h'' = ((ok, d), Some g2)" using Allow_total by blast
  have step: "gateStep (\<lambda>_ _. None) expiredGate 1 (EAllow ''h'') True g1" using step_allow[OF a1] \<open>ok1\<close> by simp
  have "runs (gateStep (\<lambda>_ _. None)) g1 [(2, EAllow ''h'', ok)] g2" by (rule runs_Cons, rule step_allow[OF a2], rule runs_Nil)
  from one_half_open_request[OF sampleGates_ok(1) step _ this]
  have "\<not> ok" by (auto simp: circuitOf_def expiredGate_def settles_def)
  with a1 a2 show ?thesis by simp
qed



text \<open>
  A \<open>Retry-After\<close> of a number of seconds that fits a duration is honoured exactly: a fresh
  circuit blocks until that many seconds from now (an announced delay of zero falls back).
\<close>

theorem retry_after_honoured:
  assumes "firstHeader hs ''retry-after'' = natStr s" "0 < s" "int s * second \<le> maxInt64"
    "states g (normalizedRateLimitKey key) = None" "zeroTime \<le> now"
    "Observe429 lookupName jitter (Some g) now key hs = (d, g')"
  shows "BlockedUntil d = now + int s * second \<and> Delay d = int s * second \<and> Source d = ''retry-after'' \<and> Failures d = 1"
proof -
  have trim: "TrimSpace (natStr s) = natStr s"
    using natStr_digits[of s] by (intro TrimSpace_plain) (auto simp: list_all_iff isDigit_plain)
  have "int s < 2 ^ (64 - 1)" using assms(3) by (simp add: second_def int_limits)
  then have p: "ParseInt 64 (natStr s) = Some (int s)" by (rule ParseInt_natStr)
  have fit: "inInt64 (int s * second)" using assms(3) by (simp add: inInt64_def int_limits second_def)
  have "retryDeadline lookupName now hs = Some (now + int s * second, ''retry-after'')"
    using p trim fit by (simp add: retryDeadline_def assms(1) secondsDuration_def)
  then show ?thesis using assms(2,4-6) fit
    by (auto simp: Observe429_def Let_def decisionFromState_def timeSub_def second_def inInt64_def min_def max_def)
qed

theorem retry_after_honoured_witness:
  "BlockedUntil (fst (Observe429 (\<lambda>_ _. None) None (Some NewRateLimitGate) 0 ''h'' retryAfter60)) = 60 * second"
proof -
  obtain d g' where o: "Observe429 (\<lambda>_ _. None) None (Some NewRateLimitGate) 0 ''h'' retryAfter60 = (d, g')" by fastforce
  have "firstHeader retryAfter60 ''retry-after'' = natStr 60" by code_simp
  from retry_after_honoured[OF this _ _ _ _ o] show ?thesis using o
    by (simp add: second_def int_limits NewRateLimitGate_def)
qed

text \<open>
  The 64-bit product wraps: a \<open>Retry-After\<close> of 18446744074 seconds, more than 584 years, blocks
  for 0.29 seconds.
\<close>

lemma retry_after_wraps: "secondsDuration 18446744074 = 290448384"
  by (simp add: secondsDuration_def second_def wrap64_def)

end
