(* ===== verification/GoPath.thy ===== *)
theory GoPath
  imports GoStrings
begin

text \<open>
  \<open>path/filepath\<close> on Unix: \<open>Clean\<close>, \<open>Join\<close> and \<open>Rel\<close>. The work happens on the components of a
  path between its slashes.
\<close>

definition slash :: char where "slash = CHR ''/''"
definition dotdot :: string where "dotdot = ''..''"

definition rooted :: "string \<Rightarrow> bool" where
  "rooted p \<longleftrightarrow> p \<noteq> [] \<and> hd p = slash"

text \<open>One component against those kept so far, the last one first.\<close>

definition cleanStep :: "bool \<Rightarrow> string list \<Rightarrow> string \<Rightarrow> string list" where
  "cleanStep isAbs kept c =
    (if c = [] \<or> c = ''.'' then kept
     else if c = dotdot then
       (case kept of
          [] \<Rightarrow> if isAbs then [] else [dotdot]
        | k # ks \<Rightarrow> if k = dotdot then dotdot # kept else ks)
     else c # kept)"

definition components :: "string \<Rightarrow> string list" where
  "components p = rev (foldl (cleanStep (rooted p)) [] (Split slash p))"

definition showPath :: "bool \<Rightarrow> string list \<Rightarrow> string" where
  "showPath isAbs cs = (if isAbs then slash # Join cs [slash] else if cs = [] then ''.'' else Join cs [slash])"

definition Clean :: "string \<Rightarrow> string" where
  "Clean p = showPath (rooted p) (components p)"

text \<open>\<open>filepath.Join\<close>: leading empty elements are dropped, the rest joined and cleaned.\<close>

definition JoinPath :: "string list \<Rightarrow> string" where
  "JoinPath es = (case dropWhile (\<lambda>e. e = []) es of [] \<Rightarrow> [] | ds \<Rightarrow> Clean (Join ds [slash]))"

fun dropCommon :: "string list \<Rightarrow> string list \<Rightarrow> string list \<times> string list" where
  "dropCommon (a # as) (b # bs) = (if a = b then dropCommon as bs else (a # as, b # bs))"
| "dropCommon as bs = (as, bs)"

definition Rel :: "string \<Rightarrow> string \<Rightarrow> string option" where
  "Rel base target =
    (if Clean base = Clean target then Some ''.''
     else if rooted base \<noteq> rooted target then None
     else let (restBase, restTarget) = dropCommon (components base) (components target) in
       if restBase \<noteq> [] \<and> hd restBase = dotdot then None
       else Some (Join (replicate (length restBase) dotdot @ restTarget) [slash]))"


section \<open>Clean components\<close>

text \<open>The kept components, last first: parents only below everything else, and none under a root.\<close>

fun cleanStack :: "bool \<Rightarrow> string list \<Rightarrow> bool" where
  "cleanStack isAbs [] \<longleftrightarrow> True"
| "cleanStack isAbs (c # cs) \<longleftrightarrow> c \<noteq> [] \<and> c \<noteq> ''.'' \<and> slash \<notin> set c \<and> cleanStack isAbs cs
     \<and> (c = dotdot \<longrightarrow> \<not> isAbs \<and> (\<forall>d \<in> set cs. d = dotdot))"

lemma cleanStep_stack: "cleanStack isAbs ks \<Longrightarrow> slash \<notin> set c \<Longrightarrow> cleanStack isAbs (cleanStep isAbs ks c)"
  by (cases ks) (auto simp: cleanStep_def dotdot_def slash_def)

lemma foldl_cleanStep_stack:
  "cleanStack isAbs ks \<Longrightarrow> (\<And>c. c \<in> set cs \<Longrightarrow> slash \<notin> set c) \<Longrightarrow> cleanStack isAbs (foldl (cleanStep isAbs) ks cs)"
  by (induction cs arbitrary: ks) (auto simp: cleanStep_stack)

lemma components_stack: "cleanStack (rooted p) (rev (components p))"
  unfolding components_def rev_rev_ident
  by (rule foldl_cleanStep_stack) (auto dest: Split_parts_no_sep)

text \<open>In clean components a parent step is followed by nothing but what lies after the parents.\<close>

lemma cleanStack_front: "cleanStack isAbs (rev (as @ bs)) \<Longrightarrow> dotdot \<in> set bs \<Longrightarrow> \<exists>r. bs = dotdot # r"
proof (induction bs arbitrary: as)
  case (Cons b bs)
  show ?case
  proof (cases "b = dotdot")
    case False
    then have "dotdot \<in> set bs" using Cons.prems(2) by auto
    then obtain r where "bs = dotdot # r" using Cons.IH[of "as @ [b]"] Cons.prems(1) by auto
    moreover have "cleanStack isAbs (xs @ dotdot # ys) \<Longrightarrow> \<forall>d \<in> set ys. d = dotdot" for xs ys
      by (induction xs) auto
    ultimately show ?thesis using Cons.prems(1) False by fastforce
  qed simp
qed simp

lemma dropCommon_split: "dropCommon as bs = (x, y) \<Longrightarrow> \<exists>p. as = p @ x \<and> bs = p @ y"
proof (induction as bs rule: dropCommon.induct)
  case (1 a as b bs)
  then show ?case by (cases "a = b") (auto intro: exI[of _ "a # _"])
qed auto

section \<open>Clean is idempotent\<close>

lemma foldl_clean_id: "cleanStack b (rev cs) \<Longrightarrow> foldl (cleanStep b) [] cs = rev cs"
proof (induction cs rule: rev_induct)
  case (snoc c cs)
  then have ih: "foldl (cleanStep b) [] cs = rev cs" by simp
  from snoc.prems have c: "c \<noteq> []" "c \<noteq> ''.''" "c = dotdot \<longrightarrow> \<not> b \<and> (\<forall>d \<in> set cs. d = dotdot)" by simp_all
  have "cleanStep b (rev cs) c = c # rev cs"
  proof (cases "c = dotdot")
    case True
    show ?thesis
    proof (cases "rev cs")
      case (Cons d ds)
      then have "d \<in> set cs" using set_rev[of cs] by simp
      then have "d = dotdot" using True c(3) by simp
      then show ?thesis using True c Cons by (simp add: cleanStep_def)
    qed (use True c in \<open>simp add: cleanStep_def\<close>)
  qed (use c in \<open>simp add: cleanStep_def\<close>)
  then show ?case using ih by simp
qed simp

lemma cleanStack_names: "cleanStack b ks \<Longrightarrow> c \<in> set ks \<Longrightarrow> c \<noteq> [] \<and> slash \<notin> set c"
  by (induction ks) auto

lemma Join_rooted: "cs \<noteq> [] \<Longrightarrow> hd cs \<noteq> [] \<Longrightarrow> slash \<notin> set (hd cs) \<Longrightarrow> \<not> rooted (Join cs [slash])"
proof (cases cs)
  case (Cons c r)
  assume "hd cs \<noteq> []" "slash \<notin> set (hd cs)"
  then have "c \<noteq> []" "hd c \<noteq> slash" using Cons by (auto dest: hd_in_set)
  then show ?thesis by (cases r) (auto simp: Cons rooted_def hd_append)
qed simp

lemma showPath_components:
  assumes "cleanStack b (rev cs)"
  shows "rooted (showPath b cs) = b \<and> components (showPath b cs) = cs"
proof (cases "cs = []")
  case True
  then show ?thesis by (cases b) (simp_all add: showPath_def rooted_def components_def cleanStep_def slash_def)
next
  case False
  have names: "c \<noteq> []" "slash \<notin> set c" if "c \<in> set cs" for c using cleanStack_names[OF assms] that by auto
  have split: "Split slash (Join cs [slash]) = cs" using False names(2) by (intro Split_Join) auto
  have nr: "\<not> rooted (Join cs [slash])" using False names by (intro Join_rooted) auto
  show ?thesis
  proof (cases b)
    case True
    have "Split slash (slash # Join cs [slash]) = [] # cs" using split by simp
    moreover have "cleanStep True [] [] = []" by (simp add: cleanStep_def)
    ultimately show ?thesis using True foldl_clean_id[OF assms] by (simp add: showPath_def rooted_def components_def)
  next
    case False
    then show ?thesis using nr split foldl_clean_id[OF assms] \<open>cs \<noteq> []\<close> by (simp add: showPath_def components_def)
  qed
qed

lemma Clean_parts [simp]: "rooted (Clean p) = rooted p" "components (Clean p) = components p"
  using showPath_components[OF components_stack] by (simp_all add: Clean_def)

lemma Clean_idem [simp]: "Clean (Clean p) = Clean p"
  by (simp add: Clean_def[of "Clean p"]) (simp add: Clean_def)

text \<open>A path that \<open>Rel\<close> finds below a base without climbing has the base's components and more.\<close>

lemma Join_dotdot: "Join (dotdot # cs) [slash] = dotdot \<or> HasPrefix (Join (dotdot # cs) [slash]) (dotdot @ [slash])"
  by (cases cs) (auto simp: HasPrefix_def dotdot_def)

lemma Rel_below:
  assumes "Rel base target = Some r" "r \<noteq> dotdot" "\<not> HasPrefix r (dotdot @ [slash])"
  shows "rooted target = rooted base \<and> (\<exists>rest. components target = components base @ rest \<and> dotdot \<notin> set rest)"
proof (cases "Clean base = Clean target")
  case True
  then show ?thesis by (metis Clean_parts append_Nil2 empty_iff list.set(1))
next
  case False
  obtain rb rt where d: "dropCommon (components base) (components target) = (rb, rt)" by fastforce
  from assms(1) False d have root: "rooted target = rooted base" and r: "r = Join (replicate (length rb) dotdot @ rt) [slash]"
    by (auto simp: Rel_def Let_def split: if_splits)
  have no: "replicate (length rb) dotdot @ rt \<noteq> dotdot # xs" for xs using assms(2,3) Join_dotdot[of xs] r by metis
  have "rb = []" using no by (cases rb) auto
  moreover from dropCommon_split[OF d] obtain p where p: "components base = p @ rb" "components target = p @ rt" by blast
  moreover have "dotdot \<notin> set rt"
    using cleanStack_front[of "rooted target" p rt] components_stack[of target] p no \<open>rb = []\<close> by auto
  ultimately show ?thesis using root by auto
qed

end
