(* ===== verification/GoFloat.thy ===== *)
theory GoFloat
  imports GoStrings Complex_Main
begin

text \<open>
  IEEE 754 double precision as the code uses it: \<open>strconv.ParseFloat\<close>, addition, subtraction,
  division and comparison. A finite value is the rational it denotes, the negative zero apart;
  a result is the exact rational rounded to the nearest double, ties to even, with gradual
  underflow and overflow to infinity.
\<close>

datatype float64 = NaN | Inf bool | NegZero | Fin rat

definition roundHalfEven :: "rat \<Rightarrow> int" where
  "roundHalfEven x =
    (let f = \<lfloor>x\<rfloor>; r = x - of_int f in
     if r < 1/2 then f else if 1/2 < r then f + 1 else if even f then f else f + 1)"

text \<open>The exponent of a positive rational: the power of two just below it.\<close>

definition pow2 :: "int \<Rightarrow> rat" where
  "pow2 k = (if 0 \<le> k then of_int (2 ^ nat k) else 1 / of_int (2 ^ nat (- k)))"

function ilog :: "int \<Rightarrow> int" where
  "ilog n = (if n < 2 then 0 else 1 + ilog (n div 2))"
  by pat_completeness auto
termination
  by (relation "measure nat") auto

declare ilog.simps [simp del]

definition log2 :: "rat \<Rightarrow> int" where
  "log2 q =
    (let (n, d) = quotient_of q; k = ilog n - ilog d in if pow2 k \<le> q then k else k - 1)"

definition unitOf :: "rat \<Rightarrow> int" where
  "unitOf q = max (log2 q - 52) (- 1074)"

definition roundPos :: "rat \<Rightarrow> rat" where
  "roundPos q = of_int (roundHalfEven (q / pow2 (unitOf q))) * pow2 (unitOf q)"

definition toFloat :: "rat \<Rightarrow> float64" where
  "toFloat q =
    (if q = 0 then Fin 0
     else let r = roundPos \<bar>q\<bar> in
       if 0 < r \<and> 1024 \<le> log2 r then Inf (q < 0)
       else if r = 0 then (if q < 0 then NegZero else Fin 0)
       else Fin (if q < 0 then - r else r))"

fun signBit :: "float64 \<Rightarrow> bool" where
  "signBit NaN = False"
| "signBit (Inf s) = s"
| "signBit NegZero = True"
| "signBit (Fin q) = (q < 0)"

fun ratOf :: "float64 \<Rightarrow> rat" where
  "ratOf (Fin q) = q"
| "ratOf _ = 0"

definition isFinite :: "float64 \<Rightarrow> bool" where
  "isFinite x = (case x of NaN \<Rightarrow> False | Inf _ \<Rightarrow> False | _ \<Rightarrow> True)"

definition isNaN :: "float64 \<Rightarrow> bool" where
  "isNaN x = (x = NaN)"

definition isInf :: "float64 \<Rightarrow> bool" where
  "isInf x = (case x of Inf _ \<Rightarrow> True | _ \<Rightarrow> False)"

fun fneg :: "float64 \<Rightarrow> float64" where
  "fneg NaN = NaN"
| "fneg (Inf s) = Inf (\<not> s)"
| "fneg NegZero = Fin 0"
| "fneg (Fin q) = (if q = 0 then NegZero else Fin (- q))"

definition fadd :: "float64 \<Rightarrow> float64 \<Rightarrow> float64" where
  "fadd x y =
    (case (x, y) of
       (NaN, _) \<Rightarrow> NaN | (_, NaN) \<Rightarrow> NaN
     | (Inf s, Inf t) \<Rightarrow> if s = t then Inf s else NaN
     | (Inf s, _) \<Rightarrow> Inf s | (_, Inf t) \<Rightarrow> Inf t
     | (NegZero, NegZero) \<Rightarrow> NegZero
     | _ \<Rightarrow> toFloat (ratOf x + ratOf y))"

definition fsub :: "float64 \<Rightarrow> float64 \<Rightarrow> float64" where
  "fsub x y = fadd x (fneg y)"

definition fzero :: "bool \<Rightarrow> float64" where
  "fzero s = (if s then NegZero else Fin 0)"

definition fdiv :: "float64 \<Rightarrow> float64 \<Rightarrow> float64" where
  "fdiv x y =
    (let s = (signBit x \<noteq> signBit y) in
     if x = NaN \<or> y = NaN \<or> (isInf x \<and> isInf y) then NaN
     else if isInf x then Inf s
     else if isInf y then fzero s
     else if ratOf y = 0 then (if ratOf x = 0 then NaN else Inf s)
     else if ratOf x = 0 then fzero s
     else toFloat (ratOf x / ratOf y))"

definition fless :: "float64 \<Rightarrow> float64 \<Rightarrow> bool" where
  "fless x y \<longleftrightarrow>
    (case (x, y) of
       (NaN, _) \<Rightarrow> False | (_, NaN) \<Rightarrow> False
     | (Inf s, Inf t) \<Rightarrow> s \<and> \<not> t
     | (Inf s, _) \<Rightarrow> s | (_, Inf t) \<Rightarrow> \<not> t
     | _ \<Rightarrow> ratOf x < ratOf y)"

definition fleq :: "float64 \<Rightarrow> float64 \<Rightarrow> bool" where
  "fleq x y \<longleftrightarrow>
    (case (x, y) of
       (NaN, _) \<Rightarrow> False | (_, NaN) \<Rightarrow> False
     | (Inf s, Inf t) \<Rightarrow> s \<or> \<not> t
     | (Inf s, _) \<Rightarrow> s | (_, Inf t) \<Rightarrow> \<not> t
     | _ \<Rightarrow> ratOf x \<le> ratOf y)"


section \<open>Reading a number\<close>

text \<open>
  \<open>strconv.ParseFloat\<close> of 64 bits. The scan of the mantissa takes digits, at most one dot and
  underscores; it returns the value of the digits, how many follow the dot, whether there was a
  digit and an underscore, and the rest.
\<close>

definition floatDigit :: "bool \<Rightarrow> char \<Rightarrow> int option" where
  "floatDigit hex c =
    (let n = (of_char c :: int) in
     if 48 \<le> n \<and> n \<le> 57 then Some (n - 48)
     else if hex \<and> 97 \<le> n \<and> n \<le> 102 then Some (n - 87)
     else if hex \<and> 65 \<le> n \<and> n \<le> 70 then Some (n - 55) else None)"

record mantissa =
  mtValue :: int
  mtFraction :: int
  mtDot :: bool
  mtDigit :: bool
  mtUnderscore :: bool

fun scanMantissa :: "bool \<Rightarrow> mantissa \<Rightarrow> string \<Rightarrow> mantissa \<times> string" where
  "scanMantissa hex m [] = (m, [])"
| "scanMantissa hex m (c # s) =
     (if c = CHR ''_'' then scanMantissa hex (m\<lparr>mtUnderscore := True\<rparr>) s
      else if c = CHR ''.'' then
        (if mtDot m then (m, c # s) else scanMantissa hex (m\<lparr>mtDot := True\<rparr>) s)
      else case floatDigit hex c of
          None \<Rightarrow> (m, c # s)
        | Some d \<Rightarrow> scanMantissa hex (m\<lparr>mtValue := mtValue m * (if hex then 16 else 10) + d,
            mtFraction := mtFraction m + (if mtDot m then 1 else 0), mtDigit := True\<rparr>) s)"

fun scanExponent :: "int \<Rightarrow> bool \<Rightarrow> string \<Rightarrow> int \<times> bool \<times> string" where
  "scanExponent e u [] = (e, u, [])"
| "scanExponent e u (c # s) =
     (if c = CHR ''_'' then scanExponent e True s
      else if isDigit c then scanExponent (if e < 10000 then e * 10 + int (digitVal c) else e) u s
      else (e, u, c # s))"

text \<open>The last character seen: the beginning, a digit, an underscore, something else.\<close>

datatype seenChar = AtStart | AfterDigit | AfterUnderscore | AfterOther

fun underscoreScan :: "bool \<Rightarrow> seenChar \<Rightarrow> string \<Rightarrow> bool" where
  "underscoreScan hex saw [] \<longleftrightarrow> saw \<noteq> AfterUnderscore"
| "underscoreScan hex saw (c # s) \<longleftrightarrow>
     (if floatDigit hex c \<noteq> None then underscoreScan hex AfterDigit s
      else if c = CHR ''_'' then saw = AfterDigit \<and> underscoreScan hex AfterUnderscore s
      else saw \<noteq> AfterUnderscore \<and> underscoreScan hex AfterOther s)"

definition dropSign :: "string \<Rightarrow> bool \<times> string" where
  "dropSign s = (case s of c # r \<Rightarrow> if c = CHR ''-'' then (True, r) else if c = CHR ''+'' then (False, r) else (False, s)
                | [] \<Rightarrow> (False, []))"

definition hexPrefix :: "string \<Rightarrow> bool" where
  "hexPrefix s \<longleftrightarrow> 3 \<le> length s \<and> s ! 0 = CHR ''0'' \<and> asciiLower (s ! 1) = CHR ''x''"

definition underscoreOK :: "string \<Rightarrow> bool" where
  "underscoreOK s =
    (let r = snd (dropSign s) in
     if 2 \<le> length r \<and> r ! 0 = CHR ''0'' \<and> asciiLower (r ! 1) \<in> {CHR ''b'', CHR ''o'', CHR ''x''}
     then underscoreScan (asciiLower (r ! 1) = CHR ''x'') AfterDigit (drop 2 r)
     else underscoreScan False AtStart r)"

text \<open>The exponent part: its value, whether it holds an underscore; \<open>None\<close> when it is malformed.\<close>

definition readExponent :: "bool \<Rightarrow> string \<Rightarrow> (int \<times> bool) option" where
  "readExponent hex s =
    (case s of
       [] \<Rightarrow> if hex then None else Some (0, False)
     | c # r \<Rightarrow>
         if asciiLower c \<noteq> (if hex then CHR ''p'' else CHR ''e'') then None
         else let (neg, ds) = dropSign r in
           if ds = [] \<or> \<not> isDigit (hd ds) then None
           else let (e, u, rest) = scanExponent 0 False ds in
             if rest \<noteq> [] then None else Some (if neg then - e else e, u))"

definition readFloat :: "string \<Rightarrow> rat option" where
  "readFloat s =
    (let (neg, r) = dropSign s; hex = hexPrefix r;
         (m, rest) = scanMantissa hex \<lparr>mtValue = 0, mtFraction = 0, mtDot = False, mtDigit = False, mtUnderscore = False\<rparr>
            (if hex then drop 2 r else r)
     in if \<not> mtDigit m then None
        else case readExponent hex rest of
            None \<Rightarrow> None
          | Some (e, u) \<Rightarrow>
              if (u \<or> mtUnderscore m) \<and> \<not> underscoreOK s then None
              else let scale = (if hex then pow2 (e - 4 * mtFraction m)
                     else if 0 \<le> e - mtFraction m then 10 ^ nat (e - mtFraction m)
                     else 1 / 10 ^ nat (mtFraction m - e));
                     q = of_int (mtValue m) * scale
                in Some (if neg then - q else q))"

definition isSpecial :: "string \<Rightarrow> float64 option" where
  "isSpecial s =
    (let (neg, r) = dropSign s; l = ToLower r in
     if l = ''inf'' \<or> l = ''infinity'' then Some (Inf neg)
     else if ToLower s = ''nan'' then Some NaN else None)"

definition ParseFloat :: "string \<Rightarrow> float64 option" where
  "ParseFloat s =
    (case isSpecial s of
       Some x \<Rightarrow> Some x
     | None \<Rightarrow>
         (case readFloat s of
            None \<Rightarrow> None
          | Some q \<Rightarrow>
              (let x = (if q = 0 then fzero (fst (dropSign s)) else toFloat q) in
               if isInf x then None else Some x)))"

end
