(* ===== verification/Sha256.thy ===== *)
theory Sha256
  imports GoStrings "HOL-Library.Word"
begin

text \<open>
  \<open>crypto/sha256.Sum256\<close> and \<open>encoding/hex.EncodeToString\<close> on byte strings, as FIPS 180-4 defines
  the function: padding, sixteen words a block, a schedule of sixty-four, sixty-four rounds.
\<close>

unbundle bit_operations_syntax

type_synonym w32 = "32 word"

definition roundConstants :: "w32 list" where
  "roundConstants =
    [1116352408, 1899447441, 3049323471, 3921009573, 961987163, 1508970993,
     2453635748, 2870763221, 3624381080, 310598401, 607225278, 1426881987,
     1925078388, 2162078206, 2614888103, 3248222580, 3835390401, 4022224774,
     264347078, 604807628, 770255983, 1249150122, 1555081692, 1996064986,
     2554220882, 2821834349, 2952996808, 3210313671, 3336571891, 3584528711,
     113926993, 338241895, 666307205, 773529912, 1294757372, 1396182291,
     1695183700, 1986661051, 2177026350, 2456956037, 2730485921, 2820302411,
     3259730800, 3345764771, 3516065817, 3600352804, 4094571909, 275423344,
     430227734, 506948616, 659060556, 883997877, 958139571, 1322822218,
     1537002063, 1747873779, 1955562222, 2024104815, 2227730452, 2361852424,
     2428436474, 2756734187, 3204031479, 3329325298]"

definition initialHash :: "w32 list" where
  "initialHash =
    [1779033703, 3144134277, 1013904242, 2773480762,
     1359893119, 2600822924, 528734635, 1541459225]"

definition rotr :: "nat \<Rightarrow> w32 \<Rightarrow> w32" where
  "rotr n x = drop_bit n x OR push_bit (32 - n) x"

definition bigEndian :: "nat list \<Rightarrow> w32" where
  "bigEndian bs = foldl (\<lambda>acc b. 256 * acc + of_nat b) 0 bs"

definition bytesOf :: "nat \<Rightarrow> nat \<Rightarrow> nat list" where
  "bytesOf n v = map (\<lambda>i. v div 256 ^ (n - 1 - i) mod 256) [0..<n]"

definition padMessage :: "nat list \<Rightarrow> nat list" where
  "padMessage m = m @ [128] @ replicate ((119 - length m mod 64) mod 64) 0 @ bytesOf 8 (8 * length m)"

fun chunksOf :: "nat \<Rightarrow> nat \<Rightarrow> 'a list \<Rightarrow> 'a list list" where
  "chunksOf k 0 xs = []"
| "chunksOf k (Suc n) xs = take k xs # chunksOf k n (drop k xs)"

text \<open>The message schedule, newest word first.\<close>

fun extendSchedule :: "nat \<Rightarrow> w32 list \<Rightarrow> w32 list" where
  "extendSchedule 0 ws = ws"
| "extendSchedule (Suc n) ws =
     (let a = ws ! 1; b = ws ! 14;
          s1 = rotr 17 a XOR rotr 19 a XOR drop_bit 10 a;
          s0 = rotr 7 b XOR rotr 18 b XOR drop_bit 3 b
      in extendSchedule n ((s1 + ws ! 6 + s0 + ws ! 15) # ws))"

definition roundStep :: "w32 list \<Rightarrow> w32 \<times> w32 \<Rightarrow> w32 list" where
  "roundStep v kw =
    (let a = v ! 0; b = v ! 1; c = v ! 2; e = v ! 4; f = v ! 5; g = v ! 6;
         t1 = v ! 7 + (rotr 6 e XOR rotr 11 e XOR rotr 25 e) + ((e AND f) XOR (NOT e AND g)) + fst kw + snd kw;
         t2 = (rotr 2 a XOR rotr 13 a XOR rotr 22 a) + ((a AND b) XOR (a AND c) XOR (b AND c))
     in [t1 + t2, a, b, c, v ! 3 + t1, e, f, g])"

definition rounds :: "(w32 \<times> w32) list \<Rightarrow> w32 list \<Rightarrow> w32 list" where
  "rounds kws v = foldl roundStep v kws"

definition compress :: "w32 list \<Rightarrow> nat list \<Rightarrow> w32 list" where
  "compress hs block =
    (let ws = rev (extendSchedule 48 (rev (map bigEndian (chunksOf 4 16 block))))
     in map2 (+) hs (rounds (zip roundConstants ws) hs))"

definition sha256 :: "nat list \<Rightarrow> nat list" where
  "sha256 m =
    (let p = padMessage m; hs = foldl compress initialHash (chunksOf 64 (length p div 64) p)
     in concat (map (\<lambda>w. bytesOf 4 (unat w)) hs))"

definition Sum256 :: "string \<Rightarrow> nat list" where
  "Sum256 s = sha256 (map of_char s)"

lemma rounds_length: "length v = 8 \<Longrightarrow> length (rounds kws v) = 8"
  by (induction kws arbitrary: v) (simp_all add: rounds_def roundStep_def Let_def)

lemma compress_length: "length hs = 8 \<Longrightarrow> length (compress hs block) = 8"
  by (simp add: compress_def Let_def rounds_length)

lemma foldl_compress_length: "length hs = 8 \<Longrightarrow> length (foldl compress hs bs) = 8"
  by (induction bs arbitrary: hs) (simp_all add: compress_length)

lemma concat_const_length: "(\<And>x. x \<in> set xs \<Longrightarrow> length (f x) = k) \<Longrightarrow> length (concat (map f xs)) = length xs * k"
  by (induction xs) auto

text \<open>A digest has 32 bytes, each below 256.\<close>

lemma sha256_length: "length (sha256 m) = 32"
  by (simp add: sha256_def Let_def concat_const_length[where k = 4] bytesOf_def foldl_compress_length initialHash_def)

lemma sha256_bytes: "b \<in> set (sha256 m) \<Longrightarrow> b < 256"
  by (auto simp: sha256_def Let_def bytesOf_def)

lemma hexOf_length: "length (hexOf bs) = 2 * length bs"
  by (induction bs) (simp_all add: hexOf_def)

definition lowerHexDigit :: "char \<Rightarrow> bool" where
  "lowerHexDigit c \<longleftrightarrow> isDigit c \<or> 97 \<le> (of_char c :: nat) \<and> (of_char c :: nat) \<le> 102"

lemma hexDigit_lower: "b < 16 \<Longrightarrow> lowerHexDigit (hexDigit b)"
  by (auto simp: hexDigit_def lowerHexDigit_def isDigit_def)

lemma hexOf_lower: "(\<And>b. b \<in> set bs \<Longrightarrow> b < 256) \<Longrightarrow> list_all lowerHexDigit (hexOf bs)"
  by (induction bs) (simp_all add: hexOf_def hexDigit_lower less_mult_imp_div_less)

lemma digest_hex: "list_all lowerHexDigit (hexOf (take n (Sum256 s)))"
proof (rule hexOf_lower)
  fix b assume "b \<in> set (take n (Sum256 s))"
  then have "b \<in> set (sha256 (map of_char s))" unfolding Sum256_def by (rule in_set_takeD)
  then show "b < 256" by (rule sha256_bytes)
qed

end
