(* ===== verification/CaptureStore.thy ===== *)
theory CaptureStore
  imports RateLimit GoUrl GoPath GoFloat Sha256 "HOL-Library.Multiset"
begin

text \<open>
  The store of captured HTTP exchanges (\<open>networkcapture/store.go\<close>) and its queries (\<open>query.go\<close>).
  The state is the part of the file system below the root: body blobs by relative path, exchange
  manifests by day and file name, the lines of the index, and the staging files. A manifest or an
  index line is the value its JSON spells. Every operation on a file can fail: \<open>io\<close> names the error
  of each one, and what a failed removal leaves behind or a failed append has written.
\<close>


section \<open>Exchanges\<close>

record Body =
  bdSHA256 :: string
  bdBytes :: int
  bdPath :: string
  bdContentType :: string
  bdRepresentation :: string

record Timing =
  tmStartMillis :: float64
  tmDomainLookupStart :: float64
  tmDomainLookupEnd :: float64
  tmConnectStart :: float64
  tmSecureConnectionStart :: float64
  tmConnectEnd :: float64
  tmRequestStart :: float64
  tmResponseStart :: float64
  tmResponseEnd :: float64

record Request =
  rqMethod :: string
  rqURL :: string
  rqHeaders :: "header list"
  rqBody :: "Body option"
  rqResourceType :: string
  rqNavigation :: bool
  rqRedirectedFrom :: string
  rqRedirectedTo :: string
  rqBytes :: int
  rqTiming :: "Timing option"

record Response =
  rpStatus :: int
  rpStatusText :: string
  rpProtocol :: string
  rpHeaders :: "header list"
  rpBody :: "Body option"
  rpBytes :: int
  rpFromServiceWorker :: bool
  rpServerAddress :: string
  rpServerPort :: int

record Exchange =
  exVersion :: int
  exID :: string
  exCorrelationID :: string
  exService :: string
  exScenario :: string
  exTransport :: string
  exStartedAt :: instant
  exCompletedAt :: instant
  exDurationMS :: int
  exOutcome :: string
  exError :: string
  exCaptureError :: string
  exRequest :: Request
  exResponse :: "Response option"

record Record =
  rcExchange :: Exchange
  rcRequestBody :: "string option"
  rcRequestBodyPath :: string
  rcRequestContentType :: string
  rcRequestRepresentation :: string
  rcResponseBody :: "string option"
  rcResponseBodyPath :: string
  rcResponseContentType :: string
  rcResponseRepresentation :: string

record Result =
  rsID :: string
  rsManifestPath :: string
  rsRequestBody :: "Body option"
  rsResponseBody :: "Body option"

record Summary =
  suVersion :: int
  suID :: string
  suCompletedAt :: instant
  suService :: string
  suScenario :: string
  suTransport :: string
  suOutcome :: string
  suMethod :: string
  suURL :: string
  suStatus :: int
  suDurationMS :: int
  suManifestPath :: string
  suError :: string
  suCaptureError :: string
  suRequestBodySHA256 :: string
  suRequestBodyBytes :: int
  suResponseBodySHA256 :: string
  suResponseBodyBytes :: int

text \<open>
  The index: its lines, \<open>None\<close> for one that is no summary, and whether the last one still lacks its
  line feed, so that the next append only completes it.
\<close>

record Store =
  storeRoot :: string
  storeDebug :: bool
  storeClearedAt :: instant
  storeBlobs :: "string \<rightharpoonup> string"
  storeExchanges :: "string \<times> string \<rightharpoonup> Exchange"
  storeIndex :: "Summary option list"
  storeTorn :: bool
  storeStaging :: "string \<rightharpoonup> string"

datatype ioOp =
    MkdirAll string | StatFile string | AtomicWrite string | OpenSource string
  | OpenIndex | WriteIndex | CloseIndex | RemoveAll string

record ioFaults =
  ioErr :: "ioOp \<Rightarrow> goerr option"
  ioKeepBlob :: "string \<Rightarrow> bool"
  ioKeepExchange :: "string \<times> string \<Rightarrow> bool"
  ioTear :: bool

definition manifestVersion :: int where "manifestVersion = 1"
definition stagingMaxAge :: duration where "stagingMaxAge = 24 * hour"


section \<open>Names\<close>

definition safeChar :: "char \<Rightarrow> bool" where
  "safeChar c \<longleftrightarrow> isAlnum c \<or> c = CHR ''-'' \<or> c = CHR ''_''"

text \<open>A rune outside the alphabet, of however many bytes, becomes one underscore.\<close>

function safeID :: "string \<Rightarrow> string" where
  "safeID s = (case s of [] \<Rightarrow> []
     | c # r \<Rightarrow> (if safeChar c then c else CHR ''_'') # safeID (drop (runeLen s) s))"
  by pat_completeness auto
termination
  by (relation "measure length") auto

declare safeID.simps [simp del]

definition newID :: "instant \<Rightarrow> nat list option \<Rightarrow> string" where
  "newID now random = (case random of None \<Rightarrow> Itoa now | Some bytes \<Rightarrow> Itoa now @ ''-'' @ hexOf bytes)"

definition responseStatus :: "Response option \<Rightarrow> int" where
  "responseStatus response = (case response of None \<Rightarrow> 0 | Some r \<Rightarrow> rpStatus r)"

definition blobPath :: "string \<Rightarrow> string" where
  "blobPath hash = JoinPath [''blobs'', ''sha256'', take 2 hash, hash]"

definition manifestFile :: "Store \<Rightarrow> string \<times> string \<Rightarrow> string" where
  "manifestFile store key = JoinPath [JoinPath [storeRoot store, ''exchanges'', fst key], snd key]"


section \<open>Opening and clearing\<close>

text \<open>
  A staging file lies directly in \<open>.staging\<close>; \<open>modTime\<close> is the modification time of a regular file
  there whose information could be read and whose removal succeeds.
\<close>

definition stagingPath :: "string \<Rightarrow> string \<Rightarrow> string" where
  "stagingPath captureRoot name = JoinPath [JoinPath [captureRoot, ''.staging''], name]"

definition stagedName :: "string \<Rightarrow> string \<Rightarrow> bool" where
  "stagedName captureRoot path =
    (components path \<noteq> [] \<and> HasPrefix (last (components path)) ''.body-''
     \<and> path = stagingPath captureRoot (last (components path)))"

definition cleanupStaleStaging ::
  "string \<Rightarrow> instant \<Rightarrow> (string \<Rightarrow> instant option) \<Rightarrow> (string \<rightharpoonup> string) \<Rightarrow> (string \<rightharpoonup> string)" where
  "cleanupStaleStaging captureRoot now modTime staging path =
    (case modTime path of
       Some t \<Rightarrow> if stagedName captureRoot path \<and> \<not> timeSub now t < stagingMaxAge then None else staging path
     | None \<Rightarrow> staging path)"

definition NewStore ::
  "string \<Rightarrow> bool \<Rightarrow> (ioOp \<Rightarrow> goerr option) \<Rightarrow> instant \<Rightarrow> (string \<Rightarrow> instant option) \<Rightarrow> Store \<Rightarrow> Store result" where
  "NewStore root0 debug io now modTime disk =
    (let captureRoot = Clean (TrimSpace root0) in
     if captureRoot = ''.'' \<or> captureRoot = [] then Inl (errNew ''network capture root is required'')
     else case io (MkdirAll (JoinPath [captureRoot, ''blobs'', ''sha256''])) of
         Some e \<Rightarrow> Inl (wrapE (''create network capture directory '' @ quoteGo (JoinPath [captureRoot, ''blobs'', ''sha256''])) e)
       | None \<Rightarrow>
           (case io (MkdirAll (JoinPath [captureRoot, ''exchanges''])) of
              Some e \<Rightarrow> Inl (wrapE (''create network capture directory '' @ quoteGo (JoinPath [captureRoot, ''exchanges''])) e)
            | None \<Rightarrow> Inr (disk\<lparr>storeRoot := captureRoot, storeDebug := debug, storeClearedAt := zeroTime,
                storeStaging := cleanupStaleStaging captureRoot now modTime (storeStaging disk)\<rparr>)))"

text \<open>\<open>os.RemoveAll\<close> of a tree: all of it, or on an error what was not reached.\<close>

definition Clear :: "ioFaults \<Rightarrow> instant \<Rightarrow> Store \<Rightarrow> unit result \<times> Store" where
  "Clear io now store0 =
    (let store = store0\<lparr>storeClearedAt := now\<rparr>;
         path = (\<lambda>name. JoinPath [storeRoot store, name]);
         failed = (\<lambda>name e. Inl (wrapE (''clear network capture path '' @ quoteGo (path name)) e))
     in case ioErr io (RemoveAll ''index.jsonl'') of
          Some e \<Rightarrow> (failed ''index.jsonl'' e, store)
        | None \<Rightarrow>
    (let store1 = store\<lparr>storeIndex := [], storeTorn := False\<rparr> in
     case ioErr io (RemoveAll ''exchanges'') of
       Some e \<Rightarrow> (failed ''exchanges'' e, store1\<lparr>storeExchanges := storeExchanges store |` {k. ioKeepExchange io k}\<rparr>)
     | None \<Rightarrow>
    (let store2 = store1\<lparr>storeExchanges := Map.empty\<rparr> in
     case ioErr io (RemoveAll ''blobs'') of
       Some e \<Rightarrow> (failed ''blobs'' e, store2\<lparr>storeBlobs := storeBlobs store |` {k. ioKeepBlob io k}\<rparr>)
     | None \<Rightarrow>
    (let store3 = store2\<lparr>storeBlobs := Map.empty\<rparr>;
         again = (\<lambda>es. JoinPath (storeRoot store # es))
     in case ioErr io (MkdirAll (again [''blobs'', ''sha256''])) of
          Some e \<Rightarrow> (Inl (wrapE (''recreate network capture directory '' @ quoteGo (again [''blobs'', ''sha256''])) e), store3)
        | None \<Rightarrow>
            (case ioErr io (MkdirAll (again [''exchanges''])) of
               Some e \<Rightarrow> (Inl (wrapE (''recreate network capture directory '' @ quoteGo (again [''exchanges''])) e), store3)
             | None \<Rightarrow> (Inr (), store3))))))"


section \<open>Saving\<close>

definition DebugEnabled :: "Store \<Rightarrow> bool" where
  "DebugEnabled store = storeDebug store"

definition shouldPersist :: "Store \<Rightarrow> Exchange \<Rightarrow> bool" where
  "shouldPersist store exchange =
    (let bad = (case exResponse exchange of None \<Rightarrow> False | Some r \<Rightarrow> 400 \<le> rpStatus r) in
     if DebugEnabled store then True
     else if exOutcome exchange = ''blocked'' \<or> exOutcome exchange = ''canceled'' then bad
     else if exError exchange \<noteq> [] \<or> exCaptureError exchange \<noteq> [] \<or> exOutcome exchange = ''failed'' then True
     else bad)"

text \<open>Storing the contents under their hash unless a blob of that name is there.\<close>

definition placeBlob :: "(ioOp \<Rightarrow> goerr option) \<Rightarrow> string \<Rightarrow> string \<Rightarrow> string \<Rightarrow> Store \<Rightarrow> Body result \<times> Store" where
  "placeBlob io contents contentType reprName store =
    (let hash = hexOf (Sum256 contents); path = blobPath hash;
         body = \<lparr>bdSHA256 = hash, bdBytes = int (length contents), bdPath = path,
                 bdContentType = contentType, bdRepresentation = reprName\<rparr>
     in case io (StatFile path) of
          Some e \<Rightarrow> (Inl e, store)
        | None \<Rightarrow>
            if storeBlobs store path \<noteq> None then (Inr body, store)
            else (case io (MkdirAll path) of
                Some e \<Rightarrow> (Inl e, store)
              | None \<Rightarrow>
                  (case io (AtomicWrite path) of
                     Some e \<Rightarrow> (Inl e, store)
                   | None \<Rightarrow> (Inr body, store\<lparr>storeBlobs := (storeBlobs store)(path \<mapsto> contents)\<rparr>))))"

definition saveBody :: "(ioOp \<Rightarrow> goerr option) \<Rightarrow> string \<Rightarrow> string \<Rightarrow> string \<Rightarrow> Store \<Rightarrow> Body result \<times> Store" where
  "saveBody io contents contentType reprName store = placeBlob io contents contentType reprName store"

definition saveBodyFile :: "(ioOp \<Rightarrow> goerr option) \<Rightarrow> string \<Rightarrow> string \<Rightarrow> string \<Rightarrow> Store \<Rightarrow> Body result \<times> Store" where
  "saveBodyFile io sourcePath contentType reprName store =
    (let source = Clean sourcePath in
     case io (OpenSource source) of
       Some e \<Rightarrow> (Inl e, store)
     | None \<Rightarrow>
         (case storeStaging store source of
            None \<Rightarrow> (Inl (Sentinel ErrNotExist), store)
          | Some contents \<Rightarrow> placeBlob io contents contentType reprName store))"

text \<open>One side of the record: its bytes, else its staging file, else nothing.\<close>

definition saveSide ::
  "(ioOp \<Rightarrow> goerr option) \<Rightarrow> string option \<Rightarrow> string \<Rightarrow> string \<Rightarrow> string \<Rightarrow> Store \<Rightarrow> Body option result \<times> Store" where
  "saveSide io contents path contentType reprName store =
    (case contents of
       Some c \<Rightarrow> (case saveBody io c contentType reprName store of (r, s) \<Rightarrow> (bindR r (\<lambda>b. Inr (Some b)), s))
     | None \<Rightarrow>
         if TrimSpace path \<noteq> [] then
           (case saveBodyFile io path contentType reprName store of (r, s) \<Rightarrow> (bindR r (\<lambda>b. Inr (Some b)), s))
         else (Inr None, store))"

definition clearedBefore :: "Store \<Rightarrow> Exchange \<Rightarrow> bool" where
  "clearedBefore store exchange \<longleftrightarrow> \<not> IsZero (storeClearedAt store) \<and>
    (let startedAt = (if IsZero (exStartedAt exchange) then exCompletedAt exchange else exStartedAt exchange)
     in \<not> IsZero startedAt \<and> startedAt < storeClearedAt store)"

definition normalizeExchange :: "instant \<Rightarrow> nat list option \<Rightarrow> Exchange \<Rightarrow> Exchange" where
  "normalizeExchange now random e0 =
    (let e1 = (if exID e0 = [] then e0\<lparr>exID := newID now random\<rparr> else e0);
         e2 = (if IsZero (exStartedAt e1) then e1\<lparr>exStartedAt := now\<rparr> else e1);
         e3 = (if IsZero (exCompletedAt e2) then e2\<lparr>exCompletedAt := now\<rparr> else e2);
         e4 = (if exDurationMS e3 = 0 \<and> exStartedAt e3 < exCompletedAt e3
               then e3\<lparr>exDurationMS := truncDiv (timeSub (exCompletedAt e3) (exStartedAt e3)) millisecond\<rparr> else e3);
         e5 = (if exOutcome e4 = [] then e4\<lparr>exOutcome := ''succeeded''\<rparr> else e4)
     in e5\<lparr>exVersion := manifestVersion\<rparr>)"

definition emptyResult :: Result where
  "emptyResult = \<lparr>rsID = [], rsManifestPath = [], rsRequestBody = None, rsResponseBody = None\<rparr>"

definition zeroResponse :: Response where
  "zeroResponse = \<lparr>rpStatus = 0, rpStatusText = [], rpProtocol = [], rpHeaders = [], rpBody = None, rpBytes = 0,
     rpFromServiceWorker = False, rpServerAddress = [], rpServerPort = 0\<rparr>"

definition attachBodies :: "Body option \<Rightarrow> Body option \<Rightarrow> Exchange \<Rightarrow> Exchange" where
  "attachBodies request response e =
    (let e1 = (case request of None \<Rightarrow> e | Some b \<Rightarrow> e\<lparr>exRequest := (exRequest e)\<lparr>rqBody := Some b\<rparr>\<rparr>) in
     case response of None \<Rightarrow> e1
     | Some b \<Rightarrow> e1\<lparr>exResponse := Some ((case exResponse e1 of None \<Rightarrow> zeroResponse | Some r \<Rightarrow> r)\<lparr>rpBody := Some b\<rparr>)\<rparr>)"

definition summaryOf :: "Exchange \<Rightarrow> string \<Rightarrow> Body option \<Rightarrow> Body option \<Rightarrow> Summary" where
  "summaryOf e manifestPath request response =
    \<lparr>suVersion = manifestVersion, suID = exID e, suCompletedAt = exCompletedAt e, suService = exService e,
     suScenario = exScenario e, suTransport = exTransport e, suOutcome = exOutcome e,
     suMethod = rqMethod (exRequest e), suURL = rqURL (exRequest e), suStatus = responseStatus (exResponse e),
     suDurationMS = exDurationMS e, suManifestPath = manifestPath, suError = exError e, suCaptureError = exCaptureError e,
     suRequestBodySHA256 = (case request of None \<Rightarrow> [] | Some b \<Rightarrow> bdSHA256 b),
     suRequestBodyBytes = (case request of None \<Rightarrow> 0 | Some b \<Rightarrow> bdBytes b),
     suResponseBodySHA256 = (case response of None \<Rightarrow> [] | Some b \<Rightarrow> bdSHA256 b),
     suResponseBodyBytes = (case response of None \<Rightarrow> 0 | Some b \<Rightarrow> bdBytes b)\<rparr>"

definition appendIndex :: "Summary \<Rightarrow> Store \<Rightarrow> Store" where
  "appendIndex summary store =
    (if storeTorn store then store\<lparr>storeTorn := False\<rparr>
     else store\<lparr>storeIndex := storeIndex store @ [Some summary]\<rparr>)"

definition tearIndex :: "Store \<Rightarrow> Store" where
  "tearIndex store =
    (if storeTorn store then store else store\<lparr>storeIndex := storeIndex store @ [None], storeTorn := True\<rparr>)"

text \<open>Writing the manifest and the line of the index.\<close>

definition writeManifest ::
  "ioFaults \<Rightarrow> (instant \<Rightarrow> string) \<Rightarrow> Exchange \<Rightarrow> Body option \<Rightarrow> Body option \<Rightarrow> Store \<Rightarrow> Result result \<times> Store" where
  "writeManifest io localDay e request response store =
    (let day = localDay (exCompletedAt e); key = (day, safeID (exID e) @ ''.json''); path = manifestFile store key;
         directory = JoinPath [storeRoot store, ''exchanges'', day]
     in case ioErr io (MkdirAll directory) of
          Some err \<Rightarrow> (Inl (wrapE ''create exchange directory'' err), store)
        | None \<Rightarrow>
            (case ioErr io (AtomicWrite path) of
               Some err \<Rightarrow> (Inl (wrapE ''write exchange manifest'' err), store)
             | None \<Rightarrow>
                 (let store1 = store\<lparr>storeExchanges := (storeExchanges store)(key \<mapsto> e)\<rparr>;
                      summary = summaryOf e path request response
                  in case ioErr io OpenIndex of
                       Some err \<Rightarrow> (Inl (wrapE ''open exchange index'' err), store1)
                     | None \<Rightarrow>
                         (case ioErr io WriteIndex of
                            Some err \<Rightarrow> (Inl (wrapE ''append exchange index'' err), if ioTear io then tearIndex store1 else store1)
                          | None \<Rightarrow>
                              (let store2 = appendIndex summary store1 in
                               case ioErr io CloseIndex of
                                 Some err \<Rightarrow> (Inl (wrapE ''close exchange index'' err), store2)
                               | None \<Rightarrow> (Inr \<lparr>rsID = exID e, rsManifestPath = path, rsRequestBody = request, rsResponseBody = response\<rparr>, store2))))))"

definition Save ::
  "ioFaults \<Rightarrow> (instant \<Rightarrow> string) \<Rightarrow> goerr option \<Rightarrow> instant \<Rightarrow> nat list option \<Rightarrow> Record \<Rightarrow> Store \<Rightarrow> Result result \<times> Store" where
  "Save io localDay cause now random rc store =
    (case cause of
       Some e \<Rightarrow> (Inl e, store)
     | None \<Rightarrow>
         if clearedBefore store (rcExchange rc) then (Inr emptyResult, store)
         else let e = normalizeExchange now random (rcExchange rc) in
           if \<not> shouldPersist store e then (Inr emptyResult, store)
           else (case saveSide (ioErr io) (rcRequestBody rc) (rcRequestBodyPath rc) (rcRequestContentType rc)
                        (rcRequestRepresentation rc) store of
               (Inl err, store1) \<Rightarrow> (Inl (wrapE ''persist request body'' err), store1)
             | (Inr request, store1) \<Rightarrow>
                 (case saveSide (ioErr io) (rcResponseBody rc) (rcResponseBodyPath rc) (rcResponseContentType rc)
                          (rcResponseRepresentation rc) store1 of
                    (Inl err, store2) \<Rightarrow> (Inl (wrapE ''persist response body'' err), store2)
                  | (Inr response, store2) \<Rightarrow>
                      writeManifest io localDay (attachBodies request response e) request response store2)))"


text \<open>A staging file of a fresh name, and its removal by the caller.\<close>

definition NewStagingFile :: "(ioOp \<Rightarrow> goerr option) \<Rightarrow> string \<Rightarrow> Store \<Rightarrow> string result \<times> Store" where
  "NewStagingFile io name store =
    (let directory = JoinPath [storeRoot store, ''.staging'']; path = stagingPath (storeRoot store) name in
     case io (MkdirAll directory) of
       Some e \<Rightarrow> (Inl e, store)
     | None \<Rightarrow>
         (case io (AtomicWrite path) of
            Some e \<Rightarrow> (Inl e, store)
          | None \<Rightarrow> (Inr path, store\<lparr>storeStaging := (storeStaging store)(path \<mapsto> [])\<rparr>)))"

definition removeStaging :: "string \<Rightarrow> Store \<Rightarrow> Store" where
  "removeStaging path store = store\<lparr>storeStaging := (storeStaging store)(path := None)\<rparr>"


section \<open>Queries\<close>

definition defaultListLimit :: int where "defaultListLimit = 100"
definition maximumListLimit :: int where "maximumListLimit = 500"

record Query =
  qyLimit :: int
  qyMinimumStatus :: int
  qyStatus :: int
  qyOutcome :: string
  qyURLContains :: string
  qyCompletedAfter :: instant

record Statistics =
  stCaptured :: int
  stProviderSent :: int
  stBlocked :: int
  stFailed :: int
  stStatus429 :: int
  stTruncated :: bool

definition matchesSummary :: "Summary \<Rightarrow> Query \<Rightarrow> bool" where
  "matchesSummary summary query \<longleftrightarrow>
    \<not> (\<not> IsZero (qyCompletedAfter query) \<and> suCompletedAt summary < qyCompletedAfter query)
    \<and> \<not> (0 < qyStatus query \<and> suStatus summary \<noteq> qyStatus query)
    \<and> \<not> (0 < qyMinimumStatus query \<and> suStatus summary < qyMinimumStatus query)
    \<and> \<not> (TrimSpace (qyOutcome query) \<noteq> [] \<and> \<not> EqualFold (suOutcome summary) (TrimSpace (qyOutcome query)))
    \<and> \<not> (ToLower (TrimSpace (qyURLContains query)) \<noteq> []
          \<and> \<not> Contains (ToLower (suURL summary)) (ToLower (TrimSpace (qyURLContains query))))"

definition isCGVURL :: "string \<Rightarrow> bool" where
  "isCGVURL raw =
    (case urlParse (TrimSpace raw) of
       Inl _ \<Rightarrow> False
     | Inr parsed \<Rightarrow> (let host = ToLower (Hostname parsed) in host = ''cgv.co.kr'' \<or> host = ''www.cgv.co.kr''))"

definition addSummaryStats :: "Statistics \<Rightarrow> Summary \<Rightarrow> Statistics" where
  "addSummaryStats s summary =
    (let blocked = EqualFold (suOutcome summary) ''blocked'' \<or> EqualFold (suOutcome summary) ''canceled'';
         s1 = s\<lparr>stCaptured := stCaptured s + 1\<rparr>;
         s2 = (if blocked then s1\<lparr>stBlocked := stBlocked s1 + 1\<rparr>
               else if isCGVURL (suURL summary) then s1\<lparr>stProviderSent := stProviderSent s1 + 1\<rparr> else s1);
         s3 = (if EqualFold (suOutcome summary) ''failed'' \<or> 400 \<le> suStatus summary then s2\<lparr>stFailed := stFailed s2 + 1\<rparr> else s2)
     in if suStatus summary = 429 then s3\<lparr>stStatus429 := stStatus429 s3 + 1\<rparr> else s3)"

text \<open>
  The part of the index a query reads: the last 64 MiB, less the first, possibly cut, line. Which
  lines that leaves depends on their lengths in bytes, which are those of the file.
\<close>

datatype readStage = OpenFile | StatSize | SeekTail | ScanLines

record indexFile =
  ifSkipped :: nat
  ifError :: "(readStage \<times> goerr) option"

fun indexError :: "readStage \<times> goerr \<Rightarrow> goerr" where
  "indexError (OpenFile, e) = wrapE ''open network capture index'' e"
| "indexError (StatSize, e) = wrapE ''stat network capture index'' e"
| "indexError (SeekTail, e) = wrapE ''seek network capture index'' e"
| "indexError (ScanLines, e) = wrapE ''scan network capture index'' e"

definition indexTail :: "indexFile \<Rightarrow> Store \<Rightarrow> Summary list" where
  "indexTail f store = List.map_filter id (drop (ifSkipped f) (storeIndex store))"

definition Stats :: "indexFile \<Rightarrow> Query \<Rightarrow> Store \<Rightarrow> Statistics result" where
  "Stats f query store =
    (case ifError f of
       Some e \<Rightarrow> Inl (indexError e)
     | None \<Rightarrow> Inr (foldl addSummaryStats
         \<lparr>stCaptured = 0, stProviderSent = 0, stBlocked = 0, stFailed = 0, stStatus429 = 0, stTruncated = (0 < ifSkipped f)\<rparr>
         (filter (\<lambda>s. matchesSummary s query) (indexTail f store))))"

definition listLimit :: "Query \<Rightarrow> nat" where
  "listLimit query =
    (let limit = (if qyLimit query \<le> 0 then defaultListLimit else qyLimit query)
     in nat (if maximumListLimit < limit then maximumListLimit else limit))"

text \<open>The window of the loop: a full one drops its first entry for the next.\<close>

definition pushWindow :: "nat \<Rightarrow> Summary list \<Rightarrow> Summary \<Rightarrow> Summary list" where
  "pushWindow limit window s = (if length window = limit then tl window @ [s] else window @ [s])"

text \<open>\<open>sort.Slice\<close> by descending completion; entries completed together keep their order here.\<close>

definition newestFirst :: "Summary list \<Rightarrow> Summary list" where
  "newestFirst ss = sort_key (\<lambda>s. - suCompletedAt s) ss"

definition List_captures :: "indexFile \<Rightarrow> Query \<Rightarrow> Store \<Rightarrow> Summary list result" where
  "List_captures f query store =
    (case ifError f of
       Some e \<Rightarrow> Inl (indexError e)
     | None \<Rightarrow> Inr (newestFirst (foldl (pushWindow (listLimit query)) []
         (filter (\<lambda>s. matchesSummary s query) (indexTail f store)))))"


definition BodyPath :: "string \<Rightarrow> Exchange \<Rightarrow> string \<Rightarrow> (string \<times> Body) result" where
  "BodyPath captureRoot exchange side0 =
    (let side = ToLower (TrimSpace side0) in
     if side \<noteq> ''request'' \<and> side \<noteq> ''response'' then Inl (errNew ''body side must be request or response'')
     else case (if side = ''request'' then rqBody (exRequest exchange)
                else case exResponse exchange of None \<Rightarrow> None | Some r \<Rightarrow> rpBody r) of
         None \<Rightarrow> Inl (Sentinel ErrNotExist)
       | Some body \<Rightarrow>
           if TrimSpace (bdPath body) = [] then Inl (Sentinel ErrNotExist)
           else (let cleanRoot = Clean captureRoot; path = JoinPath [cleanRoot, Clean (bdPath body)] in
             case Rel cleanRoot path of
               None \<Rightarrow> Inl (errNew ''network body path escapes capture root'')
             | Some relative \<Rightarrow>
                 if relative = dotdot \<or> HasPrefix relative (dotdot @ [slash])
                 then Inl (errNew ''network body path escapes capture root'')
                 else Inr (path, body)))"

section \<open>Content addressing\<close>

text \<open>
  What a content-addressed store promises its client: contents are found under their key, nothing
  stored is ever changed, and nothing appears but what was put.
\<close>

locale content_store =
  fixes put :: "string \<Rightarrow> 's \<Rightarrow> string option \<times> 's"
    and look :: "'s \<Rightarrow> string \<Rightarrow> string option"
    and keyOf :: "string \<Rightarrow> string"
  assumes put_found: "put c s = (Some k, s') \<Longrightarrow> k = keyOf c \<and> look s' k \<noteq> None"
    and put_keeps: "put c s = (r, s') \<Longrightarrow> look s k = Some c' \<Longrightarrow> look s' k = Some c'"
    and put_only: "put c s = (r, s') \<Longrightarrow> look s' k = Some c' \<Longrightarrow> look s k = Some c' \<or> k = keyOf c \<and> c' = c"
begin

definition addressed :: "'s \<Rightarrow> bool" where
  "addressed s \<longleftrightarrow> (\<forall>k c. look s k = Some c \<longrightarrow> k = keyOf c)"

lemma put_addressed: "put c s = (r, s') \<Longrightarrow> addressed s \<Longrightarrow> addressed s'"
  unfolding addressed_def using put_only by blast

lemma put_finds:
  assumes "put c s = (Some k, s')" "addressed s"
  shows "\<exists>c'. look s' k = Some c' \<and> keyOf c' = keyOf c"
  using put_found[OF assms(1)] put_addressed[OF assms] unfolding addressed_def by fastforce

text \<open>Contents stored before, or for the first time, are found as they are unless another has the same key.\<close>

lemma put_exact:
  assumes "put c s = (Some k, s')" "addressed s" "\<And>c'. keyOf c' = keyOf c \<Longrightarrow> c' = c"
  shows "look s' k = Some c"
  using put_finds[OF assms(1,2)] assms(3) by fastforce

end

definition putBlob :: "(ioOp \<Rightarrow> goerr option) \<Rightarrow> string \<Rightarrow> Store \<Rightarrow> string option \<times> Store" where
  "putBlob io c s = (case placeBlob io c [] [] s of (Inr b, s') \<Rightarrow> (Some (bdPath b), s') | (Inl _, s') \<Rightarrow> (None, s'))"

definition contentKey :: "string \<Rightarrow> string" where
  "contentKey c = blobPath (hexOf (Sum256 c))"

interpretation blobs: content_store "putBlob io" storeBlobs contentKey
  by unfold_locales
    (auto simp: putBlob_def placeBlob_def contentKey_def Let_def split: option.splits if_splits)

lemma placeBlob_put: "snd (placeBlob io c ct rp s) = snd (putBlob io c s)"
  "placeBlob io c ct rp s = (Inr b, s') \<Longrightarrow> putBlob io c s = (Some (bdPath b), s')"
  by (auto simp: putBlob_def placeBlob_def Let_def split: option.splits if_splits)


section \<open>Paths of blobs\<close>

definition plainName :: "string \<Rightarrow> bool" where
  "plainName c \<longleftrightarrow> c \<noteq> [] \<and> c \<noteq> ''.'' \<and> c \<noteq> dotdot \<and> slash \<notin> set c"

lemma foldl_plain: "list_all plainName cs \<Longrightarrow> foldl (cleanStep b) ks cs = rev cs @ ks"
  by (induction cs arbitrary: ks) (auto simp: cleanStep_def plainName_def)

lemma Join_plain_not_rooted: "list_all plainName cs \<Longrightarrow> \<not> rooted (Join cs [slash])"
proof (cases cs)
  case (Cons c r)
  assume "list_all plainName cs"
  then have c: "c \<noteq> []" "slash \<notin> set c" using Cons by (auto simp: plainName_def)
  then have "hd c \<noteq> slash" using hd_in_set[OF c(1)] by metis
  with c(1) show ?thesis by (cases r) (auto simp: Cons rooted_def hd_append)
qed (simp add: rooted_def)

lemma Clean_plain:
  assumes "list_all plainName cs" "cs \<noteq> []" shows "Clean (Join cs [slash]) = Join cs [slash]"
proof -
  have "Split slash (Join cs [slash]) = cs"
    using assms by (intro Split_Join) (auto simp: list_all_iff plainName_def)
  then show ?thesis using assms Join_plain_not_rooted[OF assms(1)]
    by (simp add: Clean_def components_def foldl_plain showPath_def)
qed

lemma JoinPath_plain: "list_all plainName cs \<Longrightarrow> cs \<noteq> [] \<Longrightarrow> JoinPath cs = Join cs [slash]"
  using Clean_plain by (cases cs) (auto simp: JoinPath_def plainName_def)

lemma Join_plain_inject:
  assumes "list_all plainName as" "list_all plainName bs" "as \<noteq> []" "bs \<noteq> []" "Join as [slash] = Join bs [slash]"
  shows "as = bs"
proof -
  have s: "Split slash (Join cs [slash]) = cs" if "list_all plainName cs" "cs \<noteq> []" for cs
    using that by (intro Split_Join) (auto simp: list_all_iff plainName_def)
  show ?thesis using arg_cong[OF assms(5), of "Split slash"] by (simp only: s[OF assms(1,3)] s[OF assms(2,4)])
qed

lemma hexChar_plain: "lowerHexDigit c \<Longrightarrow> c \<noteq> slash \<and> c \<noteq> CHR ''.''"
  by (auto simp: lowerHexDigit_def isDigit_def slash_def)

lemma hexName_plain: "list_all lowerHexDigit h \<Longrightarrow> h \<noteq> [] \<Longrightarrow> plainName h"
  by (cases h) (auto simp: plainName_def dotdot_def list_all_iff dest: hexChar_plain)

definition isHash :: "string \<Rightarrow> bool" where
  "isHash h \<longleftrightarrow> length h = 64 \<and> list_all lowerHexDigit h"

lemma isHash_Sum256: "isHash (hexOf (Sum256 c))"
  using digest_hex[of 32 c] by (simp add: isHash_def hexOf_length Sum256_def sha256_length)

lemma blobPath_eq: "isHash h \<Longrightarrow> blobPath h = Join [''blobs'', ''sha256'', take 2 h, h] [slash]"
proof -
  assume h: "isHash h"
  then have "take 2 h \<noteq> []" "h \<noteq> []" by (auto simp: isHash_def)
  moreover have "list_all lowerHexDigit (take 2 h)" using h by (auto simp: isHash_def list_all_iff dest: in_set_takeD)
  ultimately have "plainName (take 2 h)" "plainName h" using h by (auto simp: isHash_def hexName_plain)
  moreover have "plainName ''blobs''" "plainName ''sha256''" by (simp_all add: plainName_def dotdot_def slash_def)
  ultimately show ?thesis unfolding blobPath_def by (intro JoinPath_plain) simp_all
qed

lemma blobPath_inject:
  assumes "isHash h" "isHash h'" "blobPath h = blobPath h'" shows "h = h'"
proof -
  have "take 2 h @ slash # h = take 2 h' @ slash # h'" using assms blobPath_eq by simp
  moreover have "length (take 2 h) = length (take 2 h')" using assms(1,2) by (simp add: isHash_def)
  ultimately show ?thesis by (metis append_eq_append_conv list.inject)
qed

section \<open>No dangling reference\<close>

definition bodiesOf :: "Exchange \<Rightarrow> Body list" where
  "bodiesOf e = (case rqBody (exRequest e) of None \<Rightarrow> [] | Some b \<Rightarrow> [b])
    @ (case exResponse e of None \<Rightarrow> [] | Some r \<Rightarrow> (case rpBody r of None \<Rightarrow> [] | Some b \<Rightarrow> [b]))"

definition bodyHeld :: "Store \<Rightarrow> Body \<Rightarrow> bool" where
  "bodyHeld s b \<longleftrightarrow> (\<exists>c. storeBlobs s (bdPath b) = Some c \<and> hexOf (Sum256 c) = bdSHA256 b)"

definition storeInv :: "Store \<Rightarrow> bool" where
  "storeInv s \<longleftrightarrow> blobs.addressed s
    \<and> (\<forall>k e. storeExchanges s k = Some e \<longrightarrow> (\<forall>b \<in> set (bodiesOf e). bodyHeld s b))
    \<and> (\<forall>x. Some x \<in> set (storeIndex s) \<longrightarrow> (\<exists>k. suManifestPath x = manifestFile s k \<and> storeExchanges s k \<noteq> None))"

definition sameTree :: "Store \<Rightarrow> Store \<Rightarrow> bool" where
  "sameTree s s' \<longleftrightarrow> storeRoot s' = storeRoot s \<and> storeExchanges s' = storeExchanges s \<and> storeIndex s' = storeIndex s
    \<and> storeTorn s' = storeTorn s \<and> (\<forall>p c. storeBlobs s p = Some c \<longrightarrow> storeBlobs s' p = Some c)"

lemma manifestFile_root: "storeRoot s' = storeRoot s \<Longrightarrow> manifestFile s' k = manifestFile s k"
  by (simp add: manifestFile_def)

lemma sameTree_held: "sameTree s s' \<Longrightarrow> bodyHeld s b \<Longrightarrow> bodyHeld s' b"
  by (auto simp: sameTree_def bodyHeld_def)

lemma sameTree_inv: "storeInv s \<Longrightarrow> sameTree s s' \<Longrightarrow> blobs.addressed s' \<Longrightarrow> storeInv s'"
  using sameTree_held unfolding storeInv_def
  by (auto simp: sameTree_def manifestFile_root[of s' s] intro: sameTree_held)

lemma sameTree_trans: "sameTree a b \<Longrightarrow> sameTree b c \<Longrightarrow> sameTree a c"
  by (simp add: sameTree_def)

lemma placeBlob_step:
  assumes "placeBlob io c ct rp s = (r, s')" "blobs.addressed s"
  shows "sameTree s s' \<and> blobs.addressed s' \<and> (\<forall>b. r = Inr b \<longrightarrow> bodyHeld s' b)"
proof -
  have same: "sameTree s s'" using assms(1)
    by (auto simp: placeBlob_def sameTree_def Let_def split: option.splits if_splits)
  obtain k where k: "putBlob io c s = (k, s')" using placeBlob_put(1)[of io c ct rp s] assms(1) by (metis prod.collapse snd_conv)
  have "bodyHeld s' b" if "r = Inr b" for b
  proof -
    have b: "bdSHA256 b = hexOf (Sum256 c)" using assms(1) that
      by (auto simp: placeBlob_def Let_def split: option.splits if_splits)
    have "putBlob io c s = (Some (bdPath b), s')" using placeBlob_put(2) assms(1) that by blast
    from blobs.put_finds[OF this assms(2)] obtain c' where c': "storeBlobs s' (bdPath b) = Some c'" "contentKey c' = contentKey c" by blast
    then have "hexOf (Sum256 c') = hexOf (Sum256 c)" using blobPath_inject isHash_Sum256 by (simp add: contentKey_def)
    then show ?thesis using c'(1) b by (auto simp: bodyHeld_def)
  qed
  then show ?thesis using same blobs.put_addressed[OF k assms(2)] by blast
qed

lemma sameTree_refl [simp]: "sameTree s s"
  by (simp add: sameTree_def)

lemma saveSide_step:
  assumes "saveSide io c path ct rp s = (r, s')" "blobs.addressed s"
  shows "sameTree s s' \<and> blobs.addressed s' \<and> (\<forall>b. r = Inr (Some b) \<longrightarrow> bodyHeld s' b)"
proof (cases "\<exists>c' q. placeBlob io c' ct rp s = (q, s') \<and> r = bindR q (\<lambda>b. Inr (Some b))")
  case True
  then show ?thesis using placeBlob_step assms(2) by (auto simp: result_simps)
next
  case False
  then have "s' = s \<and> (\<forall>b. r \<noteq> Inr (Some b))" using assms(1)
    by (fastforce simp: saveSide_def saveBody_def saveBodyFile_def Let_def split: option.splits if_splits prod.splits)
  then show ?thesis using assms(2) by simp
qed

lemma storeInv_body: "storeInv s \<Longrightarrow> storeExchanges s k = Some e \<Longrightarrow> \<forall>b \<in> set (bodiesOf e). bodyHeld s b"
  unfolding storeInv_def by blast

lemma storeInv_insert:
  assumes "storeInv s" "\<forall>b \<in> set (bodiesOf e). bodyHeld s b"
  shows "storeInv (s\<lparr>storeExchanges := (storeExchanges s)(k \<mapsto> e)\<rparr>)" (is "storeInv ?s")
  unfolding storeInv_def
proof (intro conjI allI impI)
  show "blobs.addressed ?s" using assms(1) by (simp add: storeInv_def blobs.addressed_def)
next
  fix k' e' assume "storeExchanges ?s k' = Some e'"
  then have "if k' = k then e' = e else storeExchanges s k' = Some e'" by (simp split: if_splits)
  then have "\<forall>b \<in> set (bodiesOf e'). bodyHeld s b" using assms(2) storeInv_body[OF assms(1)] by (cases "k' = k") simp_all
  then show "\<forall>b \<in> set (bodiesOf e'). bodyHeld ?s b" by (simp add: bodyHeld_def)
next
  fix x assume "Some x \<in> set (storeIndex ?s)"
  then obtain k' where "suManifestPath x = manifestFile s k'" "storeExchanges s k' \<noteq> None"
    using assms(1) unfolding storeInv_def by auto
  then show "\<exists>k'. suManifestPath x = manifestFile ?s k' \<and> storeExchanges ?s k' \<noteq> None"
    by (intro exI[of _ k']) (simp add: manifestFile_def)
qed

lemma writeManifest_inv:
  assumes "storeInv s" "\<forall>b \<in> set (bodiesOf e). bodyHeld s b"
  shows "storeInv (snd (writeManifest io localDay e rb pb s))"
proof -
  let ?k = "(localDay (exCompletedAt e), safeID (exID e) @ ''.json'')"
  let ?s1 = "s\<lparr>storeExchanges := (storeExchanges s)(?k \<mapsto> e)\<rparr>"
  let ?x = "summaryOf e (manifestFile s ?k) rb pb"
  have 1: "storeInv ?s1" by (rule storeInv_insert[OF assms])
  have 2: "storeInv (appendIndex ?x ?s1)"
    using 1 by (auto simp: storeInv_def appendIndex_def bodyHeld_def manifestFile_def summaryOf_def blobs.addressed_def)
  have 3: "storeInv (tearIndex ?s1)"
    using 1 by (auto simp: storeInv_def tearIndex_def bodyHeld_def manifestFile_def blobs.addressed_def)
  show ?thesis using assms(1) 1 2 3 by (auto simp: writeManifest_def Let_def split: option.splits)
qed

text \<open>Records as the capturers make them: the bodies are bytes or staging files, not yet stored ones.\<close>

definition freshRecord :: "Record \<Rightarrow> bool" where
  "freshRecord rc \<longleftrightarrow> bodiesOf (rcExchange rc) = []"

lemma normalizeExchange_bodies [simp]:
  "bodiesOf (normalizeExchange now random e) = bodiesOf e"
  by (simp add: normalizeExchange_def bodiesOf_def Let_def)

lemma attachBodies_bodies:
  "bodiesOf e = [] \<Longrightarrow> b \<in> set (bodiesOf (attachBodies rb pb e)) \<Longrightarrow> rb = Some b \<or> pb = Some b"
  by (auto simp: attachBodies_def bodiesOf_def Let_def zeroResponse_def split: option.splits)

lemma Save_inv:
  assumes "storeInv s" "freshRecord rc"
  shows "storeInv (snd (Save io localDay cause now random rc s))"
proof -
  let ?e = "normalizeExchange now random (rcExchange rc)"
  have ad: "blobs.addressed s" using assms(1) by (simp add: storeInv_def)
  obtain r1 s1 where 1: "saveSide (ioErr io) (rcRequestBody rc) (rcRequestBodyPath rc) (rcRequestContentType rc) (rcRequestRepresentation rc) s = (r1, s1)"
    by fastforce
  note st1 = saveSide_step[OF 1 ad]
  obtain r2 s2 where 2: "saveSide (ioErr io) (rcResponseBody rc) (rcResponseBodyPath rc) (rcResponseContentType rc) (rcResponseRepresentation rc) s1 = (r2, s2)"
    by fastforce
  have st2: "sameTree s1 s2 \<and> blobs.addressed s2 \<and> (\<forall>b. r2 = Inr (Some b) \<longrightarrow> bodyHeld s2 b)"
    using saveSide_step[OF 2] st1 by blast
  have inv: "storeInv s1" "storeInv s2" using assms(1) st1 st2 sameTree_inv sameTree_trans by blast+
  have "storeInv (snd (writeManifest io localDay (attachBodies rb pb ?e) rb pb s2))" if "r1 = Inr rb" "r2 = Inr pb" for rb pb
  proof (rule writeManifest_inv[OF inv(2)], intro ballI)
    fix b assume "b \<in> set (bodiesOf (attachBodies rb pb ?e))"
    then have "rb = Some b \<or> pb = Some b" using attachBodies_bodies[of ?e] assms(2) by (simp add: freshRecord_def)
    then show "bodyHeld s2 b" using st1 st2 that sameTree_held by blast
  qed
  then show ?thesis using assms(1) inv
    by (auto simp: Save_def 1 2 Let_def split: option.splits sum.splits)
qed

lemma Clear_inv: "storeInv s \<Longrightarrow> storeInv (snd (Clear io now s))"
  by (auto simp: Clear_def storeInv_def bodyHeld_def manifestFile_def blobs.addressed_def restrict_map_def Let_def
      split: option.splits if_splits)

text \<open>The operations that change what is on disk, in any order and with any faults.\<close>

datatype storeOp =
    SaveOp ioFaults "instant \<Rightarrow> string" "goerr option" instant "nat list option" Record
  | ClearOp ioFaults instant

fun storeStep :: "Store \<Rightarrow> storeOp \<Rightarrow> Store" where
  "storeStep s (SaveOp io localDay cause now random rc) = snd (Save io localDay cause now random rc s)"
| "storeStep s (ClearOp io now) = snd (Clear io now s)"

fun freshOp :: "storeOp \<Rightarrow> bool" where
  "freshOp (SaveOp _ _ _ _ _ rc) = freshRecord rc"
| "freshOp (ClearOp _ _) = True"

definition emptyStore :: "string \<Rightarrow> bool \<Rightarrow> Store" where
  "emptyStore captureRoot debug = \<lparr>storeRoot = captureRoot, storeDebug = debug, storeClearedAt = zeroTime, storeBlobs = Map.empty,
     storeExchanges = Map.empty, storeIndex = [], storeTorn = False, storeStaging = Map.empty\<rparr>"

lemma emptyStore_inv: "storeInv (emptyStore r d)"
  by (simp add: storeInv_def emptyStore_def blobs.addressed_def)

lemma storeStep_inv: "storeInv s \<Longrightarrow> freshOp op \<Longrightarrow> storeInv (storeStep s op)"
  by (cases op) (simp_all add: Save_inv Clear_inv)

lemma storeRun_inv: "storeInv s \<Longrightarrow> \<forall>op \<in> set ops. freshOp op \<Longrightarrow> storeInv (foldl storeStep s ops)"
  by (induction ops arbitrary: s) (simp_all add: storeStep_inv)

text \<open>
  C14. The evidence on disk never dangles, whatever fails: after any sequence of saves and clears,
  each of which may fail at any file operation, every line of the index names a manifest that is
  there, every body a manifest names is there under the hash of its contents, and every blob lies
  at the path of its own SHA-256.
\<close>

theorem store_no_dangling:
  assumes "\<forall>op \<in> set ops. freshOp op"
  shows "storeInv (foldl storeStep (emptyStore captureRoot debug) ops)"
  using storeRun_inv[OF emptyStore_inv assms] .

definition noFaults :: ioFaults where
  "noFaults = \<lparr>ioErr = \<lambda>_. None, ioKeepBlob = \<lambda>_. False, ioKeepExchange = \<lambda>_. False, ioTear = False\<rparr>"

definition sampleExchange :: Exchange where
  "sampleExchange = \<lparr>exVersion = 0, exID = ''e1'', exCorrelationID = [], exService = ''probe'', exScenario = [], exTransport = ''go_http'',
     exStartedAt = 5, exCompletedAt = 7, exDurationMS = 0, exOutcome = ''failed'', exError = ''HTTP 500'', exCaptureError = [],
     exRequest = \<lparr>rqMethod = ''GET'', rqURL = ''https://cgv.co.kr/'', rqHeaders = [], rqBody = None, rqResourceType = [],
       rqNavigation = False, rqRedirectedFrom = [], rqRedirectedTo = [], rqBytes = 0, rqTiming = None\<rparr>, exResponse = None\<rparr>"

definition sampleRecord :: Record where
  "sampleRecord = \<lparr>rcExchange = sampleExchange, rcRequestBody = None, rcRequestBodyPath = [], rcRequestContentType = [],
     rcRequestRepresentation = [], rcResponseBody = Some ''oops'', rcResponseBodyPath = [], rcResponseContentType = ''text/plain'',
     rcResponseRepresentation = ''encoded''\<rparr>"

theorem store_no_dangling_witness:
  "storeInv (foldl storeStep (emptyStore ''/data'' False)
     [SaveOp noFaults (\<lambda>_. ''2025-01-02'') None 9 None sampleRecord,
      ClearOp (noFaults\<lparr>ioErr := \<lambda>op. if op = RemoveAll ''blobs'' then Some (Sentinel Canceled) else None\<rparr>) 10])"
  by (rule store_no_dangling) (simp add: freshRecord_def sampleRecord_def sampleExchange_def bodiesOf_def)


section \<open>What is saved can be read back\<close>



lemma attachBodies_fields [simp]:
  "exID (attachBodies rb pb e) = exID e" "exCompletedAt (attachBodies rb pb e) = exCompletedAt e"
  by (simp_all add: attachBodies_def Let_def split: option.splits)




section \<open>Bodies stay below the root\<close>

lemma BodyPath_ok:
  assumes "BodyPath captureRoot e side = Inr (path, body)"
  shows "path = JoinPath [Clean captureRoot, Clean (bdPath body)] \<and> body \<in> set (bodiesOf e)
    \<and> (\<exists>r. Rel (Clean captureRoot) path = Some r \<and> r \<noteq> dotdot \<and> \<not> HasPrefix r (dotdot @ [slash]))"
  using assms by (auto simp: BodyPath_def bodiesOf_def Let_def split: option.splits if_splits)

text \<open>
  C38. A body path never leaves the capture root: whatever path a manifest names, with parent steps,
  doubled slashes or a leading slash, a path that \<open>BodyPath\<close> returns has exactly the components of
  the root followed by names none of which climbs, and the body is one of the exchange's.
\<close>

theorem BodyPath_contained:
  assumes "BodyPath captureRoot e side = Inr (path, body)"
  shows "rooted path = rooted captureRoot \<and> body \<in> set (bodiesOf e)
    \<and> (\<exists>rest. components path = components captureRoot @ rest \<and> dotdot \<notin> set rest)"
proof -
  obtain r where "Rel (Clean captureRoot) path = Some r" "r \<noteq> dotdot" "\<not> HasPrefix r (dotdot @ [slash])" "body \<in> set (bodiesOf e)"
    using BodyPath_ok[OF assms] by (elim conjE exE) (rule that)
  then show ?thesis using Rel_below[of "Clean captureRoot" path r] by simp
qed

definition bodyAt :: "string \<Rightarrow> Exchange" where
  "bodyAt path = sampleExchange\<lparr>exRequest := (exRequest sampleExchange)\<lparr>rqBody :=
     Some \<lparr>bdSHA256 = [], bdBytes = 0, bdPath = path, bdContentType = [], bdRepresentation = []\<rparr>\<rparr>\<rparr>"

theorem BodyPath_contained_witness:
  "\<exists>body. BodyPath ''/data/'' (bodyAt ''/x/../blobs//a'') ''Request'' = Inr (''/data/blobs/a'', body)
     \<and> (\<exists>rest. components ''/data/blobs/a'' = components ''/data/'' @ rest \<and> dotdot \<notin> set rest)"
proof -
  have "case BodyPath ''/data/'' (bodyAt ''/x/../blobs//a'') ''Request'' of Inr (p, _) \<Rightarrow> p = ''/data/blobs/a'' | Inl _ \<Rightarrow> False"
    by code_simp
  then obtain body where b: "BodyPath ''/data/'' (bodyAt ''/x/../blobs//a'') ''Request'' = Inr (''/data/blobs/a'', body)"
    by (auto split: sum.splits)
  show ?thesis using BodyPath_contained[OF b] b by (intro exI[of _ body]) (simp only: simp_thms)
qed

lemma BodyPath_rejects_parent: "isOk (BodyPath ''data'' (bodyAt ''../secret'') ''request'') = False"
  by code_simp


section \<open>The newest exchanges\<close>

lemma pushWindow_take_last:
  assumes "0 < n" shows "foldl (pushWindow n) [] xs = drop (length xs - n) xs"
proof (induction xs rule: rev_induct)
  case (snoc x xs)
  show ?case
  proof (cases "length xs < n")
    case False
    then have "tl (drop (length xs - n) xs) = drop (Suc (length xs) - n) xs" by (simp add: Suc_diff_le drop_Suc tl_drop)
    then show ?thesis using snoc False assms by (simp add: pushWindow_def)
  qed (use snoc in \<open>simp add: pushWindow_def\<close>)
qed simp

lemma listLimit_bounds: "0 < listLimit q \<and> listLimit q \<le> 500 \<and> (0 < qyLimit q \<and> qyLimit q \<le> 500 \<longrightarrow> int (listLimit q) = qyLimit q)"
  by (auto simp: listLimit_def defaultListLimit_def maximumListLimit_def Let_def)

lemma newestFirst_sorted: "sorted_wrt (\<lambda>a b. suCompletedAt b \<le> suCompletedAt a) (newestFirst ss)"
  using sorted_sort_key[of "\<lambda>s. - suCompletedAt s" ss] by (simp add: newestFirst_def sorted_map)

text \<open>
  The sliding window of \<open>List\<close> keeps the last matches: when the index can be read, the listing is
  a permutation of the last \<open>limit\<close> matching lines of what is read of the index (all of them when there
  are fewer), in order of descending completion, and never longer than 500.
\<close>

theorem List_captures_last:
  assumes "ifError f = None" "ms = filter (\<lambda>s. matchesSummary s q) (indexTail f s)"
  shows "\<exists>ss. List_captures f q s = Inr ss \<and> mset ss = mset (drop (length ms - listLimit q) ms)
    \<and> sorted_wrt (\<lambda>a b. suCompletedAt b \<le> suCompletedAt a) ss \<and> length ss = min (length ms) (listLimit q) \<and> length ss \<le> 500"
proof -
  have "List_captures f q s = Inr (newestFirst (drop (length ms - listLimit q) ms))"
    using assms pushWindow_take_last[of "listLimit q"] listLimit_bounds[of q] by (simp add: List_captures_def)
  moreover have "length (newestFirst (drop (length ms - listLimit q) ms)) = min (length ms) (listLimit q)"
    by (simp add: newestFirst_def)
  ultimately show ?thesis using newestFirst_sorted listLimit_bounds[of q]
    by (intro exI[of _ "newestFirst (drop (length ms - listLimit q) ms)"]) (auto simp: newestFirst_def min_le_iff_disj)
qed

definition sampleSummary :: "int \<Rightarrow> int \<Rightarrow> Summary" where
  "sampleSummary completed status = (summaryOf sampleExchange [] None None)\<lparr>suCompletedAt := completed, suStatus := status\<rparr>"

definition sampleQuery :: Query where
  "sampleQuery = \<lparr>qyLimit = 2, qyMinimumStatus = 400, qyStatus = 0, qyOutcome = [], qyURLContains = [], qyCompletedAfter = zeroTime\<rparr>"

definition sampleIndex :: Store where
  "sampleIndex = (emptyStore ''/data'' False)\<lparr>storeIndex :=
     [Some (sampleSummary 9 500), None, Some (sampleSummary 5 429), Some (sampleSummary 6 200), Some (sampleSummary 7 404)]\<rparr>"

theorem List_captures_last_witness:
  "\<exists>ss. List_captures \<lparr>ifSkipped = 0, ifError = None\<rparr> sampleQuery sampleIndex = Inr ss
     \<and> mset ss = mset [sampleSummary 5 429, sampleSummary 7 404]"
proof -
  let ?ms = "[sampleSummary 9 500, sampleSummary 5 429, sampleSummary 7 404]"
  have m: "?ms = filter (\<lambda>s. matchesSummary s sampleQuery) (indexTail \<lparr>ifSkipped = 0, ifError = None\<rparr> sampleIndex)" by code_simp
  have l: "listLimit sampleQuery = 2" by code_simp
  obtain ss where "List_captures \<lparr>ifSkipped = 0, ifError = None\<rparr> sampleQuery sampleIndex = Inr ss"
    "mset ss = mset (drop (length ?ms - listLimit sampleQuery) ?ms)"
    using List_captures_last[OF indexFile.select_convs(2) m] by (elim exE conjE) (rule that)
  then show ?thesis by (intro exI[of _ ss]) (simp add: l)
qed

end
