(* ===== verification/CaptureHttp.thy ===== *)
theory CaptureHttp
  imports CaptureStore
begin

text \<open>
  The capturing HTTP transport (\<open>networkcapture/http.go\<close>): a round tripper that stages the bodies of a
  request and of its response in files, and saves the exchange once the body of the response has been
  read or closed. The underlying transport, the files and the clock answer through arguments. A nil
  store is \<open>None\<close>; the records handed to \<open>Store.Save\<close> are kept in a list.
\<close>


section \<open>Stages\<close>

definition requestIDHeader :: string where "requestIDHeader = ''X-Request-Id''"

record httpStage =
  hsOpen :: bool
  hsPath :: string
  hsCleanup :: bool
  hsWriteError :: "goerr option"

definition zeroStage :: httpStage where
  "zeroStage = \<lparr>hsOpen = False, hsPath = [], hsCleanup = False, hsWriteError = None\<rparr>"

definition openHTTPStage :: "(ioOp \<Rightarrow> goerr option) \<Rightarrow> string \<Rightarrow> Store option \<Rightarrow> httpStage \<times> Store option" where
  "openHTTPStage io name store =
    (case store of
       None \<Rightarrow> (zeroStage, None)
     | Some s \<Rightarrow>
         (case NewStagingFile io name s of
            (Inl e, s') \<Rightarrow> (zeroStage\<lparr>hsWriteError := Some e\<rparr>, Some s')
          | (Inr path, s') \<Rightarrow> (\<lparr>hsOpen = True, hsPath = path, hsCleanup = True, hsWriteError = None\<rparr>, Some s')))"

definition closeStage :: "goerr option \<Rightarrow> httpStage \<Rightarrow> httpStage" where
  "closeStage closeErr stage =
    (if \<not> hsOpen stage then stage
     else stage\<lparr>hsWriteError := errorsJoin [hsWriteError stage, closeErr], hsOpen := False\<rparr>)"

definition cleanupStage :: "httpStage \<Rightarrow> Store option \<Rightarrow> Store option" where
  "cleanupStage stage store = (if hsCleanup stage then map_option (removeStaging (hsPath stage)) store else store)"

text \<open>Appending to the open file of a stage; a failed write may have written a first part.\<close>

definition appendStaging :: "string \<Rightarrow> string \<Rightarrow> Store \<Rightarrow> Store" where
  "appendStaging path contents s = s\<lparr>storeStaging := (storeStaging s)(path \<mapsto> (case storeStaging s path of None \<Rightarrow> [] | Some c \<Rightarrow> c) @ contents)\<rparr>"

definition writeStage :: "goerr option \<times> nat \<Rightarrow> string \<Rightarrow> httpStage \<Rightarrow> Store option \<Rightarrow> httpStage \<times> Store option" where
  "writeStage fault contents stage store =
    (if contents \<noteq> [] \<and> hsOpen stage \<and> hsWriteError stage = None then
       (stage\<lparr>hsWriteError := fst fault\<rparr>,
        map_option (appendStaging (hsPath stage) (if fst fault = None then contents else take (snd fault) contents)) store)
     else (stage, store))"


section \<open>Requests and responses\<close>

record httpRequest =
  hqMethod :: string
  hqURL :: string
  hqHeader :: "header list"
  hqContentLength :: int
  hqBody :: bool

record httpResponse =
  hpStatusCode :: int
  hpProto :: string
  hpHeader :: "header list"
  hpContentLength :: int
  hpUncompressed :: bool
  hpBody :: bool

text \<open>\<open>Header.Get\<close> and \<open>Header.Set\<close> on the pairs of the header map, whose keys are canonical.\<close>

definition headerGet :: "string \<Rightarrow> header list \<Rightarrow> string" where
  "headerGet name hs = (case find (\<lambda>h. hName h = name) hs of None \<Rightarrow> [] | Some h \<Rightarrow> hValue h)"

definition headerSet :: "string \<Rightarrow> string \<Rightarrow> header list \<Rightarrow> header list" where
  "headerSet name v hs = \<lparr>hName = name, hValue = v\<rparr> # filter (\<lambda>h. hName h \<noteq> name) hs"

text \<open>What the saving of an exchange depends on besides it; \<open>heStatusText\<close> is the table of \<open>http.StatusText\<close>.\<close>

record httpEnv =
  heService :: string
  heStatusText :: "int \<Rightarrow> string"
  heIo :: ioFaults
  heLocalDay :: "instant \<Rightarrow> string"
  heRandom :: "nat list option"
  heNow :: instant
  heCloseRequest :: "goerr option"
  heCloseResponse :: "goerr option"

definition zeroRequest :: Request where
  "zeroRequest = \<lparr>rqMethod = [], rqURL = [], rqHeaders = [], rqBody = None, rqResourceType = [], rqNavigation = False,
     rqRedirectedFrom = [], rqRedirectedTo = [], rqBytes = 0, rqTiming = None\<rparr>"

definition httpFailure :: "httpResponse option \<Rightarrow> httpStage \<Rightarrow> httpStage \<Rightarrow> goerr option \<Rightarrow> goerr option" where
  "httpFailure response requestStage responseStage rawErr =
    (let captureErr = errorsJoin [rawErr, hsWriteError requestStage, hsWriteError responseStage] in
     case response of
       None \<Rightarrow> captureErr
     | Some r \<Rightarrow> if 400 \<le> hpStatusCode r then errorsJoin [captureErr, Some (errNew (''HTTP '' @ Itoa (hpStatusCode r)))] else captureErr)"

definition httpRecord ::
  "httpEnv \<Rightarrow> string \<Rightarrow> httpRequest \<Rightarrow> httpResponse option \<Rightarrow> instant \<Rightarrow> httpStage \<Rightarrow> httpStage \<Rightarrow> goerr option \<Rightarrow> Record" where
  "httpRecord env requestID request response started requestStage responseStage rawErr =
    (let failure = httpFailure response requestStage responseStage rawErr in
     \<lparr>rcExchange = \<lparr>exVersion = 0, exID = [], exCorrelationID = requestID, exService = heService env, exScenario = ''http_client'',
        exTransport = ''go_http'', exStartedAt = started, exCompletedAt = heNow env, exDurationMS = 0,
        exOutcome = (if failure = None then ''succeeded'' else ''failed''),
        exError = (case failure of None \<Rightarrow> [] | Some e \<Rightarrow> errorText e), exCaptureError = [],
        exRequest = zeroRequest\<lparr>rqMethod := hqMethod request, rqURL := hqURL request, rqHeaders := hqHeader request,
                                rqBytes := max (hqContentLength request) 0\<rparr>,
        exResponse = map_option (\<lambda>r. zeroResponse\<lparr>rpStatus := hpStatusCode r, rpStatusText := heStatusText env (hpStatusCode r), rpProtocol := hpProto r,
                                rpHeaders := hpHeader r, rpBytes := max (hpContentLength r) 0\<rparr>) response\<rparr>,
      rcRequestBody = None, rcRequestBodyPath = hsPath requestStage, rcRequestContentType = headerGet ''Content-Type'' (hqHeader request),
      rcRequestRepresentation = ''application'', rcResponseBody = None, rcResponseBodyPath = hsPath responseStage,
      rcResponseContentType = (case response of None \<Rightarrow> [] | Some r \<Rightarrow> headerGet ''Content-Type'' (hpHeader r)),
      rcResponseRepresentation = (case response of None \<Rightarrow> ''application''
        | Some r \<Rightarrow> if hpUncompressed r then ''decoded'' else ''encoded'')\<rparr>)"

text \<open>\<open>httpTransport.save\<close>; an error of the store is only logged.\<close>

definition saveHTTP ::
  "httpEnv \<Rightarrow> string \<Rightarrow> httpRequest \<Rightarrow> httpResponse option \<Rightarrow> instant \<Rightarrow> httpStage \<Rightarrow> httpStage \<Rightarrow> goerr option \<Rightarrow>
   Store option \<Rightarrow> Record list \<times> Store option" where
  "saveHTTP env requestID request response started requestStage responseStage rawErr store =
    (case store of
       None \<Rightarrow> ([], None)
     | Some s \<Rightarrow>
         if \<not> DebugEnabled s \<and> rawErr = None \<and> (case response of None \<Rightarrow> False | Some r \<Rightarrow> hpStatusCode r < 400)
         then ([], Some s)
         else let rc = httpRecord env requestID request response started requestStage responseStage rawErr in
           ([rc], Some (snd (Save (heIo env) (heLocalDay env) None (heNow env) (heRandom env) rc s))))"


section \<open>The body of the response\<close>

record capturingHTTPBody =
  cbRequest :: httpRequest
  cbRequestID :: string
  cbResponse :: httpResponse
  cbStarted :: instant
  cbRequestStage :: httpStage
  cbResponseStage :: httpStage
  cbReadError :: "goerr option"
  cbDone :: bool
  cbSaves :: "Record list"

definition completeBody :: "httpEnv \<Rightarrow> capturingHTTPBody \<times> Store option \<Rightarrow> capturingHTTPBody \<times> Store option" where
  "completeBody env = (\<lambda>(body, store).
    if cbDone body then (body, store)
    else
      let requestStage = closeStage (heCloseRequest env) (cbRequestStage body);
          responseStage = closeStage (heCloseResponse env) (cbResponseStage body);
          (saves, store1) = saveHTTP env (cbRequestID body) (cbRequest body) (Some (cbResponse body)) (cbStarted body)
                              requestStage responseStage (cbReadError body) store
      in (body\<lparr>cbDone := True, cbRequestStage := requestStage, cbResponseStage := responseStage, cbSaves := cbSaves body @ saves\<rparr>,
          cleanupStage responseStage (cleanupStage requestStage store1)))"

text \<open>
  One answer of the underlying body, with what a write of it to the stage would do. \<open>Read\<close> returns the
  answer itself; what changes is the capture.
\<close>

record bodyRead =
  rdContents :: string
  rdErr :: "goerr option"
  rdWrite :: "goerr option \<times> nat"

definition readBody :: "httpEnv \<Rightarrow> bodyRead \<Rightarrow> capturingHTTPBody \<times> Store option \<Rightarrow> (string \<times> goerr option) \<times> capturingHTTPBody \<times> Store option" where
  "readBody env r = (\<lambda>(body, store).
    let (stage, store1) = writeStage (rdWrite r) (rdContents r) (cbResponseStage body) store;
        body1 = body\<lparr>cbResponseStage := stage\<rparr>
    in ((rdContents r, rdErr r),
        case rdErr r of
          None \<Rightarrow> (body1, store1)
        | Some e \<Rightarrow> completeBody env (if e = Sentinel EOF then body1 else body1\<lparr>cbReadError := Some e\<rparr>, store1)))"

text \<open>
  \<open>io.Copy\<close> to \<open>io.Discard\<close>: reads until an error, end of file being none. \<open>None\<close> when the underlying
  body never ends the reading.
\<close>

fun drainBody :: "httpEnv \<Rightarrow> bodyRead list \<Rightarrow> capturingHTTPBody \<times> Store option \<Rightarrow> (goerr option \<times> capturingHTTPBody \<times> Store option) option" where
  "drainBody env [] st = None"
| "drainBody env (r # rs) st =
     (let (answer, st') = readBody env r st in
      case snd answer of
        None \<Rightarrow> drainBody env rs st'
      | Some e \<Rightarrow> Some (if e = Sentinel EOF then None else Some e, st'))"

definition closeBody ::
  "httpEnv \<Rightarrow> bodyRead list \<Rightarrow> goerr option \<Rightarrow> capturingHTTPBody \<times> Store option \<Rightarrow> (goerr option \<times> capturingHTTPBody \<times> Store option) option" where
  "closeBody env rs closeErr st =
    (case (if cbReadError (fst st) = None
           then map_option (\<lambda>(e, body, store). (body\<lparr>cbReadError := e\<rparr>, store)) (drainBody env rs st) else Some st) of
       None \<Rightarrow> None
     | Some (body, store) \<Rightarrow>
         Some (closeErr, completeBody env (body\<lparr>cbReadError := errorsJoin [cbReadError body, closeErr]\<rparr>, store)))"


section \<open>The round trip\<close>

text \<open>
  What the underlying transport does: the bytes of the request body that reached the stage, and its
  answer. The names are those of the temporary files.
\<close>

record roundTripEnv =
  rtClock :: instant
  rtStageIo :: "ioOp \<Rightarrow> goerr option"
  rtRequestName :: string
  rtResponseName :: string
  rtSent :: string
  rtResponse :: "httpResponse option"
  rtErr :: "goerr option"
  rtRandom :: "nat list option"

definition storeDebugging :: "Store option \<Rightarrow> bool" where
  "storeDebugging store = (case store of None \<Rightarrow> False | Some s \<Rightarrow> DebugEnabled s)"

definition RoundTrip ::
  "httpEnv \<Rightarrow> roundTripEnv \<Rightarrow> httpRequest option \<Rightarrow> Store option \<Rightarrow>
   (httpResponse option \<times> goerr option) \<times> (capturingHTTPBody option \<times> Record list) \<times> Store option" where
  "RoundTrip env rt request0 store =
    (case request0 of
       None \<Rightarrow> ((None, Some (errNew ''network capture HTTP transport received a nil request'')), (None, []), store)
     | Some request1 \<Rightarrow>
         (let given = TrimSpace (headerGet requestIDHeader (hqHeader request1));
              requestID = (if given = [] then newID (rtClock rt) (rtRandom rt) else given);
              request = request1\<lparr>hqHeader := headerSet requestIDHeader requestID (hqHeader request1)\<rparr>;
              (requestStage0, store1) = (if storeDebugging store then openHTTPStage (rtStageIo rt) (rtRequestName rt) store else (zeroStage, store));
              store2 = (if hqBody request \<and> hsOpen requestStage0
                        then map_option (appendStaging (hsPath requestStage0) (rtSent rt)) store1 else store1);
              requestStage = closeStage (heCloseRequest env) requestStage0
          in case (rtErr rt, rtResponse rt) of
               (None, Some response) \<Rightarrow>
                 if \<not> hpBody response then
                   (let (saves, store3) = saveHTTP env requestID request (Some response) (rtClock rt) requestStage zeroStage None store2
                    in ((Some response, None), (None, saves), cleanupStage requestStage store3))
                 else
                   (let (responseStage, store3) =
                      (if store2 \<noteq> None \<and> (storeDebugging store2 \<or> 400 \<le> hpStatusCode response)
                       then openHTTPStage (rtStageIo rt) (rtResponseName rt) store2 else (zeroStage, store2))
                    in ((Some response, None),
                        (Some \<lparr>cbRequest = request, cbRequestID = requestID, cbResponse = response, cbStarted = rtClock rt,
                               cbRequestStage = requestStage, cbResponseStage = responseStage, cbReadError = None,
                               cbDone = False, cbSaves = []\<rparr>, []), store3))
             | (e, response) \<Rightarrow>
                 (let err = (case e of None \<Rightarrow> errNew ''HTTP RoundTripper returned a nil response'' | Some x \<Rightarrow> x);
                      (saves, store3) = saveHTTP env requestID request response (rtClock rt) requestStage zeroStage (Some err) store2
                  in ((response, Some err), (None, saves), cleanupStage requestStage store3))))"

section \<open>Completed once, nothing left behind\<close>

lemma placeBlob_staging: "placeBlob io c ct rp s = (r, s') \<Longrightarrow> storeStaging s' = storeStaging s \<and> storeDebug s' = storeDebug s"
  by (auto simp: placeBlob_def Let_def split: option.splits if_splits)

lemma saveSide_staging: "saveSide io c p ct rp s = (r, s') \<Longrightarrow> storeStaging s' = storeStaging s \<and> storeDebug s' = storeDebug s"
  using placeBlob_staging
  by (fastforce simp: saveSide_def saveBody_def saveBodyFile_def Let_def split: option.splits if_splits prod.splits)

lemma writeManifest_staging: "storeStaging (snd (writeManifest io localDay e rb pb s)) = storeStaging s"
  by (simp add: writeManifest_def appendIndex_def tearIndex_def Let_def split: option.splits)

lemma Save_staging [simp]: "storeStaging (snd (Save io localDay cause now random rc s)) = storeStaging s"
proof -
  obtain r1 s1 where 1: "saveSide (ioErr io) (rcRequestBody rc) (rcRequestBodyPath rc) (rcRequestContentType rc) (rcRequestRepresentation rc) s = (r1, s1)"
    by fastforce
  obtain r2 s2 where 2: "saveSide (ioErr io) (rcResponseBody rc) (rcResponseBodyPath rc) (rcResponseContentType rc) (rcResponseRepresentation rc) s1 = (r2, s2)"
    by fastforce
  have s: "storeStaging s1 = storeStaging s" "storeStaging s2 = storeStaging s" using saveSide_staging[OF 1] saveSide_staging[OF 2] by auto
  show ?thesis using s by (auto simp: Save_def 1 2 Let_def writeManifest_staging split: option.splits sum.splits)
qed

text \<open>The files of the stages, and a stage as \<open>openHTTPStage\<close> and \<open>close\<close> leave it.\<close>

definition stagePath :: "httpStage \<Rightarrow> string set" where
  "stagePath stage = (if hsCleanup stage then {hsPath stage} else {})"

definition stageOk :: "httpStage \<Rightarrow> bool" where
  "stageOk stage \<longleftrightarrow> (hsOpen stage \<longrightarrow> hsCleanup stage)"

lemma closeStage_path [simp]: "stagePath (closeStage e st) = stagePath st" "stageOk (closeStage e st)" "hsPath (closeStage e st) = hsPath st"
  by (auto simp: closeStage_def stagePath_def stageOk_def)

lemma zeroStage_simps [simp]: "stagePath zeroStage = {}" "stageOk zeroStage" "hsOpen zeroStage = False" "hsWriteError zeroStage = None" "hsPath zeroStage = []"
  "hsCleanup zeroStage = False"
  by (simp_all add: zeroStage_def stagePath_def stageOk_def)











text \<open>What the client does with the body, in any order; a closing that never returns ends the story.\<close>

datatype bodyOp = ReadOp httpEnv bodyRead | CloseOp httpEnv "bodyRead list" "goerr option"

fun bodyStep :: "bodyOp \<Rightarrow> capturingHTTPBody \<times> Store option \<Rightarrow> (capturingHTTPBody \<times> Store option) option" where
  "bodyStep (ReadOp env r) st = Some (snd (readBody env r st))"
| "bodyStep (CloseOp env rs e) st = map_option snd (closeBody env rs e st)"

fun runBody :: "bodyOp list \<Rightarrow> capturingHTTPBody \<times> Store option \<Rightarrow> (capturingHTTPBody \<times> Store option) option" where
  "runBody [] st = Some st"
| "runBody (op # ops) st = Option.bind (bodyStep op st) (runBody ops)"







text \<open>A failed exchange met by a store that keeps errors only, and a client that reads it in two pieces.\<close>

definition sampleHttpEnv :: httpEnv where
  "sampleHttpEnv = \<lparr>heService = ''probe'', heStatusText = (\<lambda>_. ''Bad Gateway''), heIo = noFaults, heLocalDay = (\<lambda>_. ''2025-01-02''),
     heRandom = None, heNow = 9, heCloseRequest = None, heCloseResponse = None\<rparr>"

definition sampleHttpRequest :: httpRequest where
  "sampleHttpRequest = \<lparr>hqMethod = ''GET'', hqURL = ''https://cgv.co.kr/'', hqHeader = [\<lparr>hName = requestIDHeader, hValue = ''r1''\<rparr>],
     hqContentLength = 0, hqBody = False\<rparr>"

definition sampleHttpResponse :: httpResponse where
  "sampleHttpResponse = \<lparr>hpStatusCode = 502, hpProto = ''HTTP/1.1'', hpHeader = [], hpContentLength = -1, hpUncompressed = False, hpBody = True\<rparr>"

definition sampleRoundTrip :: roundTripEnv where
  "sampleRoundTrip = \<lparr>rtClock = 3, rtStageIo = (\<lambda>_. None), rtRequestName = ''.body-1'', rtResponseName = ''.body-2'', rtSent = [],
     rtResponse = Some sampleHttpResponse, rtErr = None, rtRandom = None\<rparr>"

definition sampleChunk :: bodyRead where
  "sampleChunk = \<lparr>rdContents = ''bad '', rdErr = None, rdWrite = (None, 0)\<rparr>"

definition sampleLastChunk :: bodyRead where
  "sampleLastChunk = \<lparr>rdContents = ''gateway'', rdErr = Some (Sentinel EOF), rdWrite = (None, 0)\<rparr>"

definition sampleBody :: "capturingHTTPBody \<times> Store option" where
  "sampleBody = (case RoundTrip sampleHttpEnv sampleRoundTrip (Some sampleHttpRequest) (Some (emptyStore ''/data'' False)) of
     (_, (b, _), st) \<Rightarrow> (the b, st))"

lemma sampleBody_eq:
  "\<exists>answer. RoundTrip sampleHttpEnv sampleRoundTrip (Some sampleHttpRequest) (Some (emptyStore ''/data'' False))
     = (answer, (Some (fst sampleBody), []), snd sampleBody)"
  by (simp add: sampleBody_def RoundTrip_def sampleHttpEnv_def sampleRoundTrip_def sampleHttpRequest_def sampleHttpResponse_def Let_def
      case_prod_unfold storeDebugging_def DebugEnabled_def emptyStore_def)


section \<open>What a failed response leaves in the store\<close>

text \<open>Reading without errors only appends to the open stage.\<close>

definition stageOpen :: "string \<Rightarrow> string \<Rightarrow> capturingHTTPBody \<times> Store option \<Rightarrow> bool" where
  "stageOpen path contents st \<longleftrightarrow> \<not> cbDone (fst st) \<and> hsOpen (cbResponseStage (fst st)) \<and> hsWriteError (cbResponseStage (fst st)) = None
     \<and> hsPath (cbResponseStage (fst st)) = path \<and> (\<exists>s. snd st = Some s \<and> storeStaging s path = Some contents)"

lemma writeStage_open:
  assumes "hsOpen stage" "hsWriteError stage = None" "hsPath stage = path" "storeStaging s path = Some contents" "fst fault = None"
  shows "\<exists>s'. writeStage fault chunk stage (Some s) = (stage, Some s') \<and> storeStaging s' path = Some (contents @ chunk) \<and> storeDebug s' = storeDebug s"
  using assms by (auto simp: writeStage_def appendStaging_def)

lemma readBody_open:
  assumes "stageOpen path contents st" "rdErr r = None" "fst (rdWrite r) = None"
  shows "\<exists>st'. snd (readBody env r st) = st' \<and> stageOpen path (contents @ rdContents r) st' \<and> fst st' = fst st"
proof -
  obtain body s where st: "st = (body, Some s)" "storeStaging s path = Some contents" using assms(1) by (cases st) (auto simp: stageOpen_def)
  have stage: "hsOpen (cbResponseStage body)" "hsWriteError (cbResponseStage body) = None" "hsPath (cbResponseStage body) = path"
    using assms(1) by (simp_all add: stageOpen_def st)
  obtain s' where w: "writeStage (rdWrite r) (rdContents r) (cbResponseStage body) (Some s) = (cbResponseStage body, Some s')"
    "storeStaging s' path = Some (contents @ rdContents r)"
    using writeStage_open[OF stage st(2) assms(3)] by blast
  then show ?thesis using assms(1,2) by (simp add: st readBody_def stageOpen_def)
qed

lemma runBody_append: "runBody (xs @ ys) st = Option.bind (runBody xs st) (runBody ys)"
  by (induction xs arbitrary: st) (simp, simp split: Option.bind_splits)

lemma runBody_open:
  "stageOpen path contents st \<Longrightarrow> \<forall>r \<in> set rs. rdErr r = None \<and> fst (rdWrite r) = None \<Longrightarrow>
    \<exists>st'. runBody (map (ReadOp env) rs) st = Some st' \<and> stageOpen path (contents @ concat (map rdContents rs)) st' \<and> fst st' = fst st"
proof (induction rs arbitrary: st contents)
  case (Cons r rs)
  obtain mid where m: "snd (readBody env r st) = mid" "stageOpen path (contents @ rdContents r) mid" "fst mid = fst st"
    using readBody_open[OF Cons.prems(1), of r env] Cons.prems(2) by auto
  from Cons.IH[OF m(2)] Cons.prems(2) m(1,3) show ?case by simp
qed simp

lemma readBody_eof:
  assumes "stageOpen path contents (body, store)" "rdErr r = Some (Sentinel EOF)" "fst (rdWrite r) = None" "400 \<le> hpStatusCode (cbResponse body)"
  shows "\<exists>body' s' rc full. snd (readBody env r (body, store)) = (body', Some s') \<and> cbSaves body' = cbSaves body @ [rc]
    \<and> exOutcome (rcExchange rc) = ''failed'' \<and> map_option rpStatus (exResponse (rcExchange rc)) = Some (hpStatusCode (cbResponse body))
    \<and> rcResponseBodyPath rc = path \<and> storeStaging full path = Some (contents @ rdContents r)
    \<and> (let saved = snd (Save (heIo env) (heLocalDay env) None (heNow env) (heRandom env) rc full) in
       storeIndex s' = storeIndex saved \<and> storeExchanges s' = storeExchanges saved \<and> storeBlobs s' = storeBlobs saved)"
proof -
  obtain s where s: "store = Some s" "storeStaging s path = Some contents" using assms(1) by (auto simp: stageOpen_def)
  have stage: "hsOpen (cbResponseStage body)" "hsWriteError (cbResponseStage body) = None" "hsPath (cbResponseStage body) = path" "\<not> cbDone body"
    using assms(1) by (simp_all add: stageOpen_def)
  obtain full where w: "writeStage (rdWrite r) (rdContents r) (cbResponseStage body) (Some s) = (cbResponseStage body, Some full)"
    "storeStaging full path = Some (contents @ rdContents r)"
    using writeStage_open[OF stage(1-3) s(2) assms(3)] by blast
  define a b where "a = closeStage (heCloseRequest env) (cbRequestStage body)" and "b = closeStage (heCloseResponse env) (cbResponseStage body)"
  define rc where "rc = httpRecord env (cbRequestID body) (cbRequest body) (Some (cbResponse body)) (cbStarted body) a b (cbReadError body)"
  define saved where "saved = snd (Save (heIo env) (heLocalDay env) None (heNow env) (heRandom env) rc full)"
  have c: "snd (readBody env r (body, store)) = (body\<lparr>cbDone := True, cbRequestStage := a, cbResponseStage := b, cbSaves := cbSaves body @ [rc]\<rparr>,
      cleanupStage b (cleanupStage a (Some saved)))"
    using assms(2,4) stage(4) by (simp add: readBody_def s w(1) completeBody_def saveHTTP_def rc_def a_def b_def saved_def Let_def)
  have f: "exOutcome (rcExchange rc) = ''failed''" "map_option rpStatus (exResponse (rcExchange rc)) = Some (hpStatusCode (cbResponse body))" "rcResponseBodyPath rc = path"
    using assms(4) stage(3)
    by (simp_all add: rc_def httpRecord_def Let_def httpFailure_def errorsJoin_None_iff b_def)
  have "\<exists>s'. cleanupStage b (cleanupStage a (Some saved)) = Some s' \<and> storeIndex s' = storeIndex saved \<and> storeExchanges s' = storeExchanges saved \<and> storeBlobs s' = storeBlobs saved"
    by (simp add: cleanupStage_def removeStaging_def)
  then show ?thesis using c f w(2) unfolding saved_def by (auto simp: Let_def)
qed

lemma RoundTrip_stageOpen:
  assumes "RoundTrip env rt (Some request) (Some s) = (answer, (Some body, saves), store)" "400 \<le> hpStatusCode (cbResponse body)" "rtStageIo rt = (\<lambda>_. None)"
  shows "stageOpen (stagingPath (storeRoot s) (rtResponseName rt)) [] (body, store) \<and> cbSaves body = []"
proof -
  obtain response where resp: "rtErr rt = None" "rtResponse rt = Some response" "hpBody response"
    using assms(1) by (cases "rtErr rt"; cases "rtResponse rt") (simp_all add: RoundTrip_def Let_def case_prod_unfold split: if_splits)
  show ?thesis using assms
    by (cases "hqBody request"; cases "storeDebugging (Some s)";
        auto simp: RoundTrip_def Let_def resp openHTTPStage_def NewStagingFile_def stageOpen_def appendStaging_def split: if_splits)
qed

text \<open>
  C28. The body of a failed response is kept whole: without write errors, a client that reads a
  response of status 400 or more to its end leaves exactly one record, marked failed and with the
  status, and the staging file it names holds, when the store saves it, the bytes of all the reads in
  order; the index, the manifests and the blobs are those the saving leaves.
\<close>

theorem failed_response_captured:
  assumes "RoundTrip env rt (Some request) (Some s) = (answer, (Some body, saves), store)"
    "400 \<le> hpStatusCode (cbResponse body)" "rtStageIo rt = (\<lambda>_. None)"
    "\<forall>r \<in> set rs. rdErr r = None \<and> fst (rdWrite r) = None" "rdErr l = Some (Sentinel EOF)" "fst (rdWrite l) = None"
  shows "\<exists>body' s' rc full. runBody (map (ReadOp env) (rs @ [l])) (body, store) = Some (body', Some s') \<and> cbSaves body' = [rc]
    \<and> exOutcome (rcExchange rc) = ''failed'' \<and> map_option rpStatus (exResponse (rcExchange rc)) = Some (hpStatusCode (cbResponse body))
    \<and> storeStaging full (rcResponseBodyPath rc) = Some (concat (map rdContents (rs @ [l])))
    \<and> (let saved = snd (Save (heIo env) (heLocalDay env) None (heNow env) (heRandom env) rc full) in
       storeIndex s' = storeIndex saved \<and> storeExchanges s' = storeExchanges saved \<and> storeBlobs s' = storeBlobs saved)"
proof -
  note start = RoundTrip_stageOpen[OF assms(1-3)]
  obtain store1 where mid: "runBody (map (ReadOp env) rs) (body, store) = Some (body, store1)"
      "stageOpen (stagingPath (storeRoot s) (rtResponseName rt)) (concat (map rdContents rs)) (body, store1)"
    using runBody_open[OF conjunct1[OF start] assms(4), of env] by auto
  from readBody_eof[OF mid(2) assms(5,6,2), of env] show ?thesis
    by (elim exE conjE) (intro exI conjI, simp_all add: runBody_append mid(1) start Let_def)
qed

theorem failed_response_captured_witness:
  "\<exists>body' s' rc (full :: Store). runBody (map (ReadOp sampleHttpEnv) [sampleChunk, sampleLastChunk]) sampleBody = Some (body', Some s')
    \<and> cbSaves body' = [rc] \<and> exOutcome (rcExchange rc) = ''failed'' \<and> storeStaging full (rcResponseBodyPath rc) = Some ''bad gateway''"
proof -
  obtain answer where rt: "RoundTrip sampleHttpEnv sampleRoundTrip (Some sampleHttpRequest) (Some (emptyStore ''/data'' False))
      = (answer, (Some (fst sampleBody), []), snd sampleBody)"
    using sampleBody_eq by blast
  have status: "400 \<le> hpStatusCode (cbResponse (fst sampleBody))" by code_simp
  have io: "rtStageIo sampleRoundTrip = (\<lambda>_. None)" by (simp add: sampleRoundTrip_def)
  have ok: "\<forall>r \<in> set [sampleChunk]. rdErr r = None \<and> fst (rdWrite r) = None" "rdErr sampleLastChunk = Some (Sentinel EOF)" "fst (rdWrite sampleLastChunk) = None"
    by (simp_all add: sampleChunk_def sampleLastChunk_def)
  have whole: "concat (map rdContents ([sampleChunk] @ [sampleLastChunk])) = ''bad gateway''" by (simp add: sampleChunk_def sampleLastChunk_def)
  from failed_response_captured[OF rt status io ok, unfolded whole] obtain body' s' rc and full :: Store where
    "runBody (map (ReadOp sampleHttpEnv) ([sampleChunk] @ [sampleLastChunk])) (fst sampleBody, snd sampleBody) = Some (body', Some s')"
    "cbSaves body' = [rc]" "exOutcome (rcExchange rc) = ''failed''" "storeStaging full (rcResponseBodyPath rc) = Some ''bad gateway''"
    by (elim exE conjE) (rule that)
  then show ?thesis by (intro exI[of _ body'] exI[of _ s'] exI[of _ rc] exI[of _ full]) simp
qed

end
