(* ===== verification/TelemetryHttp.thy ===== *)
theory TelemetryHttp
  imports CaptureHttp
begin

text \<open>
  The instrumented HTTP client and server (\<open>internal/telemetry/http.go\<close>): request identifiers, the
  transport that logs one completion for each request, the bodies and the response writer that count,
  and the middleware. A context is the value it holds under the package's key; the clock, the wrapped
  transport, the wrapped writer and the handler answer through arguments. The log is the list of
  records written. Counters are 64-bit integers.
\<close>


section \<open>Request identifiers\<close>

definition RequestIDHeader :: string where "RequestIDHeader = ''X-Request-Id''"

definition defaultHTTPService :: string where "defaultHTTPService = ''probe''"

definition normalizeRequestID :: "string \<Rightarrow> string" where
  "normalizeRequestID requestID0 =
    (let requestID = TrimSpace requestID0 in
     if requestID = [] \<or> 128 < length requestID \<or> CHR 0x0D \<in> set requestID \<or> CHR 0x0A \<in> set requestID then []
     else requestID)"

type_synonym requestContext = "string option"

definition WithRequestID :: "requestContext \<Rightarrow> string \<Rightarrow> requestContext" where
  "WithRequestID ctx requestID = Some (normalizeRequestID requestID)"

definition RequestID :: "requestContext \<Rightarrow> string" where
  "RequestID ctx = normalizeRequestID (case ctx of None \<Rightarrow> [] | Some requestID \<Rightarrow> requestID)"

text \<open>Lower-case hexadecimal without leading zeros, the verb \<open>%x\<close> of a natural number.\<close>

fun hexNat :: "nat \<Rightarrow> string" where
  "hexNat n = (if n < 16 then [hexDigit n] else hexNat (n div 16) @ [hexDigit (n mod 16)])"

declare hexNat.simps [simp del]

text \<open>The random bytes are \<open>None\<close> when the source fails; then the 64-bit sequence is counted up.\<close>

definition NewRequestID :: "nat list option \<Rightarrow> nat \<Rightarrow> string \<times> nat" where
  "NewRequestID random sequence =
    (case random of
       Some raw \<Rightarrow> (''req_'' @ hexOf raw, sequence)
     | None \<Rightarrow> (let n = (sequence + 1) mod 2 ^ 64 in (''req_'' @ hexNat n, n)))"

record telemetryRequest =
  tqMethod :: string
  tqPath :: "string option"
  tqPattern :: string
  tqHeader :: "header list"
  tqContentLength :: int
  tqBody :: bool
  tqContext :: requestContext

definition requestIDFromRequest :: "telemetryRequest option \<Rightarrow> string" where
  "requestIDFromRequest request =
    (case request of
       None \<Rightarrow> []
     | Some r \<Rightarrow> if RequestID (tqContext r) \<noteq> [] then RequestID (tqContext r)
                 else normalizeRequestID (headerGet RequestIDHeader (tqHeader r)))"

definition requestPath :: "string option \<Rightarrow> string" where
  "requestPath path = (case path of None \<Rightarrow> ''/'' | Some p \<Rightarrow> if p = [] then ''/'' else p)"

definition serverRoute :: "telemetryRequest option \<Rightarrow> string" where
  "serverRoute request =
    (case request of
       Some r \<Rightarrow> if TrimSpace (tqPattern r) \<noteq> [] then tqPattern r else requestPath (tqPath r)
     | None \<Rightarrow> ''/'')"


section \<open>Counting\<close>

text \<open>\<open>countingReadCloser.Read\<close>: what the wrapped body answered is added when it is positive.\<close>

definition countRead :: "int \<Rightarrow> int \<Rightarrow> int" where
  "countRead bytes n = (if 0 < n then wrap64 (bytes + n) else bytes)"

text \<open>A counter is \<open>None\<close> when the request has no body.\<close>

definition countedRequestBytes :: "telemetryRequest \<Rightarrow> int option \<Rightarrow> int" where
  "countedRequestBytes request body =
    (case body of
       Some bytes \<Rightarrow>
         if 0 < bytes \<or> tqContentLength request = 0 then bytes
         else if 0 < tqContentLength request then tqContentLength request else - 1
     | None \<Rightarrow> if 0 \<le> tqContentLength request then tqContentLength request else - 1)"



section \<open>The client\<close>

record completionLog =
  clEvent :: string
  clRequestID :: string
  clMethod :: string
  clRoute :: string
  clPath :: string
  clStatus :: int
  clDurationMS :: int
  clRequestBytes :: int
  clResponseBytes :: int
  clOutcome :: string
  clError :: "goerr option"









definition wireRequest :: "string \<Rightarrow> telemetryRequest \<Rightarrow> telemetryRequest" where
  "wireRequest requestID request =
    request\<lparr>tqContext := WithRequestID (tqContext request) requestID, tqHeader := headerSet RequestIDHeader requestID (tqHeader request)\<rparr>"




section \<open>Valid identifiers\<close>

definition validRequestID :: "string \<Rightarrow> bool" where
  "validRequestID s \<longleftrightarrow> s \<noteq> [] \<and> normalizeRequestID s = s"

lemma normalizeRequestID_idem [simp]: "normalizeRequestID (normalizeRequestID s) = normalizeRequestID s"
  by (simp add: normalizeRequestID_def Let_def)

lemma normalizeRequestID_valid: "normalizeRequestID s \<noteq> [] \<Longrightarrow> validRequestID (normalizeRequestID s)"
  by (simp add: validRequestID_def)

lemma RequestID_With [simp]: "RequestID (WithRequestID ctx s) = normalizeRequestID s"
  by (simp add: RequestID_def WithRequestID_def)

lemma plain_valid:
  assumes "list_all plainChar s" "s \<noteq> []" "length s \<le> 128"
  shows "validRequestID s"
proof -
  have "CHR 0x0D \<notin> set s" "CHR 0x0A \<notin> set s" using assms(1) by (auto simp: list_all_iff plainChar_def)
  then show ?thesis using assms by (simp add: validRequestID_def normalizeRequestID_def TrimSpace_plain)
qed

lemma lowerHexDigit_plain: "lowerHexDigit c \<Longrightarrow> plainChar c"
  by (auto simp: lowerHexDigit_def plainChar_def isDigit_def)

lemma hexNat_hex: "list_all lowerHexDigit (hexNat n) \<and> hexNat n \<noteq> []"
  by (induction n rule: hexNat.induct) (subst hexNat.simps, simp add: hexDigit_lower, subst hexNat.simps, simp)

lemma hexNat_length: "n < 16 ^ Suc k \<Longrightarrow> length (hexNat n) \<le> Suc k"
proof (induction k arbitrary: n)
  case 0
  then show ?case by (subst hexNat.simps) simp
next
  case (Suc k)
  then have "n div 16 < 16 ^ Suc k" by (simp add: less_mult_imp_div_less mult.commute)
  from Suc.IH[OF this] show ?case by (subst hexNat.simps) simp
qed

text \<open>\<open>crypto/rand.Read\<close> fills the array of sixteen bytes or fails.\<close>

definition randomOk :: "nat list option \<Rightarrow> bool" where
  "randomOk random \<longleftrightarrow> (case random of None \<Rightarrow> True | Some raw \<Rightarrow> length raw = 16 \<and> list_all (\<lambda>b. b < 256) raw)"

lemma NewRequestID_valid:
  assumes "randomOk random"
  shows "validRequestID (fst (NewRequestID random sequence))"
proof -
  have p: "list_all plainChar ''req_''" by (simp add: plainChar_def)
  show ?thesis
  proof (cases random)
    case None
    let ?n = "(sequence + 1) mod 2 ^ 64"
    have "?n < 16 ^ Suc 15" by (rule order.strict_trans2[OF mod_less_divisor]) simp_all
    from hexNat_length[OF this] have "length (''req_'' @ hexNat ?n) \<le> 128" by simp
    moreover have "list_all plainChar (''req_'' @ hexNat ?n)"
      using hexNat_hex[of ?n] p by (simp add: list_all_iff lowerHexDigit_plain)
    ultimately show ?thesis unfolding NewRequestID_def None Let_def by (auto intro!: plain_valid)
  next
    case (Some raw)
    then have raw: "length raw = 16" "\<And>b. b \<in> set raw \<Longrightarrow> b < 256" using assms by (auto simp: randomOk_def list_all_iff)
    have "list_all plainChar (''req_'' @ hexOf raw)" using hexOf_lower[OF raw(2)] p by (simp add: list_all_iff lowerHexDigit_plain)
    moreover have "length (''req_'' @ hexOf raw) \<le> 128" by (simp add: hexOf_length raw(1))
    ultimately show ?thesis unfolding NewRequestID_def Some by (auto intro!: plain_valid)
  qed
qed


lemma headerGet_set [simp]: "headerGet name (headerSet name v hs) = v"
  by (simp add: headerGet_def headerSet_def)

lemma wireRequest_id:
  "validRequestID i \<Longrightarrow> requestIDFromRequest (Some (wireRequest i request)) = i \<and> headerGet RequestIDHeader (tqHeader (wireRequest i request)) = i"
  by (simp add: requestIDFromRequest_def wireRequest_def validRequestID_def)


section \<open>One completion for each request\<close>












definition sampleTelemetryRequest :: telemetryRequest where
  "sampleTelemetryRequest = \<lparr>tqMethod = ''GET'', tqPath = Some ''/v1/slots'', tqPattern = [], tqHeader = [], tqContentLength = 0, tqBody = False, tqContext = None\<rparr>"




section \<open>The server\<close>

text \<open>
  The optional interfaces of the wrapped writer, and the calls it received. What the wrapped writer
  answers to a write is in the operation.
\<close>

record writerCaps =
  wcReaderFrom :: bool
  wcFlusher :: bool
  wcHijacker :: bool
  wcPusher :: bool

datatype writerCall = HeaderCall int | WriteCall | ReadFromCall | FlushCall | HijackCall | PushCall string

record countingResponseWriter =
  cwStatus :: int
  cwBytes :: int
  cwWrote :: bool
  cwWriteErr :: "goerr option"
  cwCalls :: "writerCall list"

definition newResponseWriter :: countingResponseWriter where
  "newResponseWriter = \<lparr>cwStatus = 0, cwBytes = 0, cwWrote = False, cwWriteErr = None, cwCalls = []\<rparr>"

definition WriteHeader :: "int \<Rightarrow> countingResponseWriter \<Rightarrow> countingResponseWriter" where
  "WriteHeader status writer =
    (if 100 \<le> status \<and> status < 200 \<and> status \<noteq> 101 then writer\<lparr>cwCalls := cwCalls writer @ [HeaderCall status]\<rparr>
     else if cwWrote writer then writer
     else writer\<lparr>cwStatus := status, cwWrote := True, cwCalls := cwCalls writer @ [HeaderCall status]\<rparr>)"

definition ensureHeader :: "countingResponseWriter \<Rightarrow> countingResponseWriter" where
  "ensureHeader writer = (if cwWrote writer then writer else WriteHeader 200 writer)"

text \<open>The bytes an answer of the wrapped writer adds, and the error it leaves.\<close>

definition countWritten :: "int \<times> goerr option \<Rightarrow> countingResponseWriter \<Rightarrow> countingResponseWriter" where
  "countWritten answer writer =
    writer\<lparr>cwBytes := wrap64 (cwBytes writer + fst answer),
           cwWriteErr := (if snd answer = None then cwWriteErr writer else snd answer)\<rparr>"

definition writeResponse :: "int \<times> goerr option \<Rightarrow> countingResponseWriter \<Rightarrow> countingResponseWriter" where
  "writeResponse answer writer =
    (let writer1 = ensureHeader writer in countWritten answer (writer1\<lparr>cwCalls := cwCalls writer1 @ [WriteCall]\<rparr>))"

text \<open>
  A source to copy from: whether it implements \<open>io.WriterTo\<close>, then the answers to the writes it makes and
  its result, and the answer of a wrapped writer that implements \<open>io.ReaderFrom\<close>.
\<close>

record copySource =
  csWriterTo :: bool
  csWrites :: "(int \<times> goerr option) list"
  csResult :: "int \<times> goerr option"
  csReadFrom :: "int \<times> goerr option"

text \<open>
  \<open>io.Copy(writer, source)\<close> hands the copy to the source if it is an \<open>io.WriterTo\<close> and to the writer if
  that is an \<open>io.ReaderFrom\<close>, which the counting writer is.
\<close>

partial_function (option) ReadFrom ::
  "writerCaps \<Rightarrow> copySource \<Rightarrow> countingResponseWriter \<Rightarrow> ((int \<times> goerr option) \<times> countingResponseWriter) option" where
  "ReadFrom caps source writer =
    (let writer1 = ensureHeader writer in
     if wcReaderFrom caps then
       Some (csReadFrom source, countWritten (csReadFrom source) (writer1\<lparr>cwCalls := cwCalls writer1 @ [ReadFromCall]\<rparr>))
     else if csWriterTo source then Some (csResult source, foldl (\<lambda>w answer. writeResponse answer w) writer1 (csWrites source))
     else ReadFrom caps source writer1)"

definition FlushResponse :: "writerCaps \<Rightarrow> countingResponseWriter \<Rightarrow> countingResponseWriter" where
  "FlushResponse caps writer =
    (let writer1 = ensureHeader writer in if wcFlusher caps then writer1\<lparr>cwCalls := cwCalls writer1 @ [FlushCall]\<rparr> else writer1)"

definition Hijack :: "writerCaps \<Rightarrow> unit result \<Rightarrow> countingResponseWriter \<Rightarrow> unit result \<times> countingResponseWriter" where
  "Hijack caps answer writer =
    (if \<not> wcHijacker caps then (Inl (errNew ''HTTP response writer does not support hijacking''), writer)
     else (answer, writer\<lparr>cwCalls := cwCalls writer @ [HijackCall]\<rparr>))"

definition ErrNotSupported :: goerr where "ErrNotSupported = errNew ''feature not supported''"

definition Push :: "writerCaps \<Rightarrow> string \<Rightarrow> goerr option \<Rightarrow> countingResponseWriter \<Rightarrow> goerr option \<times> countingResponseWriter" where
  "Push caps pushed answer writer =
    (if \<not> wcPusher caps then (Some ErrNotSupported, writer)
     else (answer, writer\<lparr>cwCalls := cwCalls writer @ [PushCall pushed]\<rparr>))"

text \<open>What a handler does with its writer and the body of its request.\<close>

datatype handlerOp =
    SetStatus int | WriteBody "int \<times> goerr option" | CopyBody copySource | FlushBody
  | HijackConn "unit result" | PushTarget string "goerr option" | ReadRequestBody int

fun handlerStep :: "writerCaps \<Rightarrow> handlerOp \<Rightarrow> countingResponseWriter \<times> int option \<Rightarrow> (countingResponseWriter \<times> int option) option" where
  "handlerStep caps (SetStatus status) (writer, body) = Some (WriteHeader status writer, body)"
| "handlerStep caps (WriteBody answer) (writer, body) = Some (writeResponse answer writer, body)"
| "handlerStep caps (CopyBody source) (writer, body) = map_option (\<lambda>(_, writer'). (writer', body)) (ReadFrom caps source writer)"
| "handlerStep caps FlushBody (writer, body) = Some (FlushResponse caps writer, body)"
| "handlerStep caps (HijackConn answer) (writer, body) = Some (snd (Hijack caps answer writer), body)"
| "handlerStep caps (PushTarget pushed answer) (writer, body) = Some (snd (Push caps pushed answer writer), body)"
| "handlerStep caps (ReadRequestBody n) (writer, body) = Some (writer, map_option (\<lambda>bytes. countRead bytes n) body)"

fun runHandler :: "writerCaps \<Rightarrow> handlerOp list \<Rightarrow> countingResponseWriter \<times> int option \<Rightarrow> (countingResponseWriter \<times> int option) option" where
  "runHandler caps [] st = Some st"
| "runHandler caps (op # ops) st = (case handlerStep caps op st of None \<Rightarrow> None | Some st' \<Rightarrow> runHandler caps ops st')"

definition logHTTPServerCompletion ::
  "telemetryRequest \<Rightarrow> countingResponseWriter \<Rightarrow> int option \<Rightarrow> instant \<Rightarrow> instant \<Rightarrow> goerr option \<Rightarrow> completionLog" where
  "logHTTPServerCompletion request response requestBody started now rawErr0 =
    (let status = (if cwStatus response = 0 then 200 else cwStatus response);
         rawErr = (if rawErr0 = None \<and> 400 \<le> status then Some (errNew (''HTTP '' @ Itoa status)) else rawErr0)
     in \<lparr>clEvent = ''http.server.request.completed'', clRequestID = requestIDFromRequest (Some request), clMethod = tqMethod request,
         clRoute = serverRoute (Some request), clPath = requestPath (tqPath request), clStatus = status,
         clDurationMS = truncDiv (now - started) 1000000, clRequestBytes = max 0 (countedRequestBytes request requestBody),
         clResponseBytes = cwBytes response, clOutcome = (if rawErr = None then ''succeeded'' else ''failed''), clError = rawErr\<rparr>)"

text \<open>
  The handler's operations on the request it is given, with the value it panics with at the end, if any.
  The outcome is the identifier in the response header, the request the handler saw, the writer, the log
  and the value the middleware panics with; \<open>None\<close> when the handler does not return.
\<close>

record serverOutcome =
  soResponseID :: string
  soRequest :: telemetryRequest
  soWriter :: countingResponseWriter
  soLog :: "completionLog list"
  soPanic :: "string option"

definition serverRequestID :: "string \<Rightarrow> telemetryRequest \<Rightarrow> string" where
  "serverRequestID fresh request =
    (let given = requestIDFromRequest (Some request) in if given = [] then fresh else given)"

definition HTTPServerMiddleware ::
  "string \<Rightarrow> instant \<Rightarrow> instant \<Rightarrow> writerCaps \<Rightarrow> (telemetryRequest \<Rightarrow> handlerOp list \<times> string option) \<Rightarrow> telemetryRequest \<Rightarrow> serverOutcome option" where
  "HTTPServerMiddleware fresh started now caps next request0 =
    (let requestID = serverRequestID fresh request0;
         request = wireRequest requestID request0;
         (ops, panicValue) = next request
     in case runHandler caps ops (newResponseWriter, if tqBody request then Some 0 else None) of
          None \<Rightarrow> None
        | Some (response, requestBody) \<Rightarrow>
            (let rawErr = (case panicValue of None \<Rightarrow> cwWriteErr response | Some v \<Rightarrow> Some (errNew (''HTTP handler panic: '' @ v)))
             in Some \<lparr>soResponseID = requestID, soRequest = request, soWriter = response,
                      soLog = [logHTTPServerCompletion request response requestBody started now rawErr], soPanic = panicValue\<rparr>))"

section \<open>One status, one completion\<close>

text \<open>The statuses forwarded to the wrapped writer that are final, and the bytes it reported.\<close>

definition finalStatuses :: "countingResponseWriter \<Rightarrow> int list" where
  "finalStatuses writer = List.map_filter (\<lambda>call. case call of HeaderCall s \<Rightarrow> if 100 \<le> s \<and> s < 200 \<and> s \<noteq> 101 then None else Some s | _ \<Rightarrow> None) (cwCalls writer)"

definition writtenBy :: "writerCaps \<Rightarrow> handlerOp \<Rightarrow> (int \<times> goerr option) list" where
  "writtenBy caps op = (case op of WriteBody answer \<Rightarrow> [answer]
     | CopyBody source \<Rightarrow> if wcReaderFrom caps then [csReadFrom source] else csWrites source | _ \<Rightarrow> [])"

definition endlessCopy :: "writerCaps \<Rightarrow> handlerOp \<Rightarrow> bool" where
  "endlessCopy caps op = (case op of CopyBody source \<Rightarrow> \<not> wcReaderFrom caps \<and> \<not> csWriterTo source | _ \<Rightarrow> False)"

definition writerOk :: "countingResponseWriter \<Rightarrow> bool" where
  "writerOk writer \<longleftrightarrow> finalStatuses writer = (if cwWrote writer then [cwStatus writer] else []) \<and> (cwWrote writer \<or> cwStatus writer = 0)"

lemma finalStatuses_append [simp]:
  "finalStatuses (writer\<lparr>cwCalls := cwCalls writer @ calls\<rparr>) = finalStatuses writer @ finalStatuses (writer\<lparr>cwCalls := calls\<rparr>)"
  by (simp add: finalStatuses_def List.map_filter_def)

lemma writerOk_new: "writerOk newResponseWriter"
  by (simp add: writerOk_def newResponseWriter_def finalStatuses_def List.map_filter_def)

lemma WriteHeader_ok: "writerOk writer \<Longrightarrow> writerOk (WriteHeader status writer) \<and> cwBytes (WriteHeader status writer) = cwBytes writer
   \<and> cwWriteErr (WriteHeader status writer) = cwWriteErr writer"
  by (auto simp: WriteHeader_def writerOk_def finalStatuses_def List.map_filter_def)

lemma ensureHeader_ok: "writerOk writer \<Longrightarrow> writerOk (ensureHeader writer) \<and> cwBytes (ensureHeader writer) = cwBytes writer
   \<and> cwWriteErr (ensureHeader writer) = cwWriteErr writer"
  by (simp add: ensureHeader_def WriteHeader_ok)

lemma ReadFrom_endless: "\<not> wcReaderFrom caps \<Longrightarrow> \<not> csWriterTo source \<Longrightarrow> ReadFrom caps source writer = None"
proof (rule ccontr)
  assume caps: "\<not> wcReaderFrom caps" "\<not> csWriterTo source" and "ReadFrom caps source writer \<noteq> None"
  then obtain r where r: "ReadFrom caps source writer = Some r" by blast
  have "wcReaderFrom caps \<or> csWriterTo source"
    by (rule ReadFrom.raw_induct[where P = "\<lambda>c s w r. wcReaderFrom c \<or> csWriterTo s", OF _ r], auto simp: Let_def split: if_splits, blast)
  then show False using caps by simp
qed

definition addWritten :: "int \<Rightarrow> int \<times> goerr option \<Rightarrow> int" where
  "addWritten bytes answer = wrap64 (bytes + fst answer)"

definition wroteAll :: "countingResponseWriter \<Rightarrow> (int \<times> goerr option) list \<Rightarrow> countingResponseWriter \<Rightarrow> bool" where
  "wroteAll writer answers writer' \<longleftrightarrow> writerOk writer' \<and> cwBytes writer' = foldl addWritten (cwBytes writer) answers
    \<and> (cwWriteErr writer' = None \<longleftrightarrow> cwWriteErr writer = None \<and> list_all (\<lambda>answer. snd answer = None) answers)"

lemma wroteAll_trans: "wroteAll w as w1 \<Longrightarrow> wroteAll w1 bs w2 \<Longrightarrow> wroteAll w (as @ bs) w2"
  by (auto simp: wroteAll_def)

lemma wroteAll_ensure: "writerOk w \<Longrightarrow> wroteAll w [] (ensureHeader w)"
  by (simp add: wroteAll_def ensureHeader_ok)

lemma wroteAll_count: "writerOk w \<Longrightarrow> call \<in> {WriteCall, ReadFromCall} \<Longrightarrow> wroteAll w [answer] (countWritten answer (w\<lparr>cwCalls := cwCalls w @ [call]\<rparr>))"
  by (auto simp: wroteAll_def countWritten_def addWritten_def writerOk_def finalStatuses_def List.map_filter_def)

lemma wroteAll_write: "writerOk w \<Longrightarrow> wroteAll w [answer] (writeResponse answer w)"
  using wroteAll_trans[OF wroteAll_ensure wroteAll_count[of "ensureHeader w" WriteCall]] by (simp add: writeResponse_def Let_def ensureHeader_ok)

lemma wroteAll_writes: "writerOk w \<Longrightarrow> wroteAll w answers (foldl (\<lambda>w answer. writeResponse answer w) w answers)"
proof (induction answers arbitrary: w)
  case Nil
  then show ?case by (simp add: wroteAll_def)
next
  case (Cons answer answers)
  from wroteAll_write[OF Cons.prems] have first: "wroteAll w [answer] (writeResponse answer w)" .
  then have "writerOk (writeResponse answer w)" by (simp add: wroteAll_def)
  from wroteAll_trans[OF first Cons.IH[OF this]] show ?case by simp
qed

lemma wroteAll_same: "writerOk w \<Longrightarrow> call \<in> {FlushCall, HijackCall} \<union> range PushCall \<Longrightarrow> wroteAll w [] (w\<lparr>cwCalls := cwCalls w @ [call]\<rparr>)"
  by (auto simp: wroteAll_def writerOk_def finalStatuses_def List.map_filter_def)

lemma ReadFrom_ok:
  assumes "writerOk w" "\<not> endlessCopy caps (CopyBody source)"
  shows "\<exists>answer w'. ReadFrom caps source w = Some (answer, w') \<and> wroteAll w (writtenBy caps (CopyBody source)) w'"
proof -
  note e = wroteAll_ensure[OF assms(1)] ensureHeader_ok[OF assms(1)]
  show ?thesis
  proof (cases "wcReaderFrom caps")
    case True
    then show ?thesis using wroteAll_trans[OF e(1) wroteAll_count[of _ ReadFromCall]] e(2)
      by (simp add: ReadFrom.simps writtenBy_def Let_def)
  next
    case False
    then show ?thesis using wroteAll_trans[OF e(1) wroteAll_writes] e(2) assms(2)
      by (simp add: ReadFrom.simps writtenBy_def endlessCopy_def Let_def)
  qed
qed

lemma handlerStep_ok:
  assumes "writerOk w"
  shows "case handlerStep caps op (w, body) of None \<Rightarrow> endlessCopy caps op
    | Some (w', body') \<Rightarrow> \<not> endlessCopy caps op \<and> wroteAll w (writtenBy caps op) w'"
proof (cases op)
  case (CopyBody source)
  then show ?thesis using ReadFrom_ok[OF assms] ReadFrom_endless
    by (cases "endlessCopy caps op") (fastforce simp: endlessCopy_def split: option.splits)+
next
  case FlushBody
  note e = wroteAll_ensure[OF assms] ensureHeader_ok[OF assms]
  then show ?thesis using wroteAll_trans[OF e(1) wroteAll_same[of _ FlushCall]]
    by (simp add: FlushBody endlessCopy_def writtenBy_def FlushResponse_def Let_def)
qed (use assms wroteAll_write WriteHeader_ok wroteAll_same in
     \<open>auto simp: endlessCopy_def writtenBy_def Hijack_def Push_def wroteAll_def\<close>)

lemma runHandler_ok:
  assumes "writerOk w"
  shows "case runHandler caps ops (w, body) of None \<Rightarrow> list_ex (endlessCopy caps) ops
    | Some (w', body') \<Rightarrow> \<not> list_ex (endlessCopy caps) ops \<and> wroteAll w (concat (map (writtenBy caps) ops)) w'"
  using assms
proof (induction ops arbitrary: w body)
  case Nil
  then show ?case by (simp add: wroteAll_def)
next
  case (Cons op ops)
  show ?case
  proof (cases "handlerStep caps op (w, body)")
    case None
    then show ?thesis using handlerStep_ok[OF Cons.prems, of caps op body] by simp
  next
    case (Some st)
    obtain w1 body1 where st: "st = (w1, body1)" by (cases st)
    have s: "\<not> endlessCopy caps op" "wroteAll w (writtenBy caps op) w1" using handlerStep_ok[OF Cons.prems, of caps op body] by (auto simp: Some st)
    then have "writerOk w1" by (simp add: wroteAll_def)
    from Cons.IH[OF this, of body1] show ?thesis using s wroteAll_trans[OF s(2)] by (auto simp: Some st split: option.splits)
  qed
qed

lemma foldl_addWritten:
  assumes "0 \<le> b" "list_all (\<lambda>answer. 0 \<le> fst answer) answers" "b + (\<Sum>answer\<leftarrow>answers. fst answer) < 2 ^ 63"
  shows "foldl addWritten b answers = b + (\<Sum>answer\<leftarrow>answers. fst answer)"
  using assms
proof (induction answers arbitrary: b)
  case (Cons answer answers)
  have "0 \<le> (\<Sum>answer\<leftarrow>answers. fst answer)" using Cons.prems(2) by (intro sum_list_nonneg) (auto simp: list_all_iff)
  then have "addWritten b answer = b + fst answer" using Cons.prems by (simp add: addWritten_def inInt64_def int_limits)
  then show ?case using Cons by (simp add: algebra_simps)
qed simp

lemma serverRequestID_valid: "validRequestID fresh \<Longrightarrow> validRequestID (serverRequestID fresh request)"
  by (auto simp: serverRequestID_def requestIDFromRequest_def RequestID_def Let_def intro: normalizeRequestID_valid)

lemma serverLog_fields:
  assumes "writerOk writer" "l = logHTTPServerCompletion request writer requestBody started now rawErr"
  shows "clRequestID l = requestIDFromRequest (Some request)" "clResponseBytes l = cwBytes writer"
    "finalStatuses writer = [] \<and> clStatus l = 200 \<or> (\<exists>s. finalStatuses writer = [s] \<and> clStatus l = (if s = 0 then 200 else s))"
    "clError l = None \<longleftrightarrow> rawErr = None \<and> clStatus l < 400"
  using assms by (auto simp: logHTTPServerCompletion_def writerOk_def Let_def)

text \<open>
  C25. The middleware returns exactly when the handler never copies from a source without \<open>WriteTo\<close> to a
  wrapped writer without \<open>ReadFrom\<close>: such a copy calls itself for ever. When it returns, it panics with
  what the handler panicked with, the identifier of the request is kept if it has a valid one, is valid
  in every case, and is the same in the response, in the request the handler saw and in the one
  completion record. At most one final status reached the wrapped writer and it is the recorded one,
  200 if there was none. The recorded bytes are those the wrapped writer reported, as far as they fit
  the counter, and the record has an error exactly when the handler panicked, a write failed or the
  status is 400 or above.
\<close>

theorem server_completion:
  assumes "randomOk random" "fresh = fst (NewRequestID random sequence)"
    "handler (wireRequest (serverRequestID fresh request) request) = (ops, panicValue)" "answers = concat (map (writtenBy caps) ops)"
  shows "case HTTPServerMiddleware fresh started now caps handler request of
      None \<Rightarrow> list_ex (endlessCopy caps) ops
    | Some out \<Rightarrow> \<not> list_ex (endlessCopy caps) ops \<and> soPanic out = panicValue
        \<and> validRequestID (soResponseID out) \<and> (requestIDFromRequest (Some request) \<noteq> [] \<longrightarrow> soResponseID out = requestIDFromRequest (Some request))
        \<and> headerGet RequestIDHeader (tqHeader (soRequest out)) = soResponseID out
        \<and> (\<exists>l. soLog out = [l] \<and> clRequestID l = soResponseID out
            \<and> (finalStatuses (soWriter out) = [] \<and> clStatus l = 200
               \<or> (\<exists>s. finalStatuses (soWriter out) = [s] \<and> clStatus l = (if s = 0 then 200 else s)))
            \<and> (list_all (\<lambda>answer. 0 \<le> fst answer) answers \<and> (\<Sum>answer\<leftarrow>answers. fst answer) < 2 ^ 63
               \<longrightarrow> clResponseBytes l = (\<Sum>answer\<leftarrow>answers. fst answer))
            \<and> (clError l = None \<longleftrightarrow> panicValue = None \<and> list_all (\<lambda>answer. snd answer = None) answers \<and> clStatus l < 400))"
proof -
  let ?id = "serverRequestID fresh request"
  have i: "validRequestID ?id" using serverRequestID_valid NewRequestID_valid[OF assms(1)] assms(2) by simp
  let ?body = "if tqBody (wireRequest ?id request) then Some 0 else None :: int option"
  note run = runHandler_ok[OF writerOk_new, of caps ops ?body]
  show ?thesis
  proof (cases "runHandler caps ops (newResponseWriter, ?body)")
    case None
    then show ?thesis using run by (simp add: HTTPServerMiddleware_def assms(3) Let_def)
  next
    case (Some st)
    obtain w b where st: "st = (w, b)" by (cases st)
    have r: "\<not> list_ex (endlessCopy caps) ops" "wroteAll newResponseWriter answers w" using run assms(4) by (auto simp: Some st)
    let ?err = "case panicValue of None \<Rightarrow> cwWriteErr w | Some v \<Rightarrow> Some (errNew (''HTTP handler panic: '' @ v))"
    define l where "l = logHTTPServerCompletion (wireRequest ?id request) w b started now ?err"
    have m: "HTTPServerMiddleware fresh started now caps handler request = Some \<lparr>soResponseID = ?id, soRequest = wireRequest ?id request, soWriter = w, soLog = [l], soPanic = panicValue\<rparr>"
      using Some by (simp add: HTTPServerMiddleware_def assms(3) Let_def st l_def)
    have w: "writerOk w" "cwBytes w = foldl addWritten 0 answers" "cwWriteErr w = None \<longleftrightarrow> list_all (\<lambda>answer. snd answer = None) answers"
      using r(2) by (simp_all add: wroteAll_def newResponseWriter_def)
    note f = serverLog_fields[OF w(1) l_def]
    have "?err = None \<longleftrightarrow> panicValue = None \<and> list_all (\<lambda>answer. snd answer = None) answers" using w(3) by (cases panicValue) auto
    moreover have "requestIDFromRequest (Some request) \<noteq> [] \<longrightarrow> ?id = requestIDFromRequest (Some request)" by (simp add: serverRequestID_def)
    ultimately show ?thesis using f i wireRequest_id[OF i, of request] r(1) foldl_addWritten[of 0 answers] w(2) by (simp add: m)
  qed
qed

definition plainWriter :: writerCaps where
  "plainWriter = \<lparr>wcReaderFrom = False, wcFlusher = False, wcHijacker = False, wcPusher = False\<rparr>"

definition plainSource :: copySource where
  "plainSource = \<lparr>csWriterTo = False, csWrites = [], csResult = (0, None), csReadFrom = (0, None)\<rparr>"

theorem server_completion_witness:
  "(\<exists>out l. HTTPServerMiddleware (fst (NewRequestID None 4)) 0 0 plainWriter (\<lambda>_. ([SetStatus 100, WriteBody (5, None), SetStatus 500, WriteBody (6, None)], None)) sampleTelemetryRequest = Some out
     \<and> soLog out = [l] \<and> clStatus l = 200 \<and> clResponseBytes l = 11 \<and> clError l = None)
   \<and> HTTPServerMiddleware (fst (NewRequestID None 4)) 0 0 plainWriter (\<lambda>_. ([CopyBody plainSource], None)) sampleTelemetryRequest = None"
proof -
  have ok: "randomOk None" by (simp add: randomOk_def)
  let ?ops = "[SetStatus 100, WriteBody (5, None), SetStatus 500, WriteBody (6, None)]"
  note a = server_completion[where caps = plainWriter and handler = "\<lambda>_. (?ops, None)" and request = sampleTelemetryRequest and started = 0 and now = 0, OF ok refl refl refl, of 4]
  have e: "\<not> list_ex (endlessCopy plainWriter) ?ops" "concat (map (writtenBy plainWriter) ?ops) = [(5, None), (6, None)]"
    by (simp_all add: endlessCopy_def writtenBy_def)
  obtain out where out: "HTTPServerMiddleware (fst (NewRequestID None 4)) 0 0 plainWriter (\<lambda>_. (?ops, None)) sampleTelemetryRequest = Some out"
    using a e(1) by (auto split: option.splits)
  then have s: "finalStatuses (soWriter out) = [200]"
    by (auto simp: HTTPServerMiddleware_def newResponseWriter_def WriteHeader_def writeResponse_def ensureHeader_def countWritten_def finalStatuses_def List.map_filter_def Let_def)
  from a obtain l where "soLog out = [l]" "clStatus l = 200" "clResponseBytes l = 11" "clError l = None"
    unfolding out e(2) by (auto simp: s)
  moreover have "HTTPServerMiddleware (fst (NewRequestID None 4)) 0 0 plainWriter (\<lambda>_. ([CopyBody plainSource], None)) sampleTelemetryRequest = None"
    using server_completion[where caps = plainWriter and handler = "\<lambda>_. ([CopyBody plainSource], None)" and request = sampleTelemetryRequest and started = 0 and now = 0, OF ok refl refl refl, of 4]
    by (simp add: endlessCopy_def plainWriter_def plainSource_def split: option.splits)
  ultimately show ?thesis using out by blast
qed

end
