(* ===== verification/TelemetryLog.thy ===== *)
theory TelemetryLog
  imports GoErrors
begin

text \<open>
  The log handlers (\<open>internal/telemetry/telemetry.go\<close>): canonical keys of attributes, errors as text, the
  identifiers of the trace, and the handler that passes a record on to several. A key is the list of
  its runes. What Unicode says of runes beyond ASCII is an argument; so are the handlers, which come
  from \<open>log/slog\<close> and the exporter.
\<close>

section \<open>Runes\<close>

type_synonym rune = nat

record unicodeTable =
  utLetter :: "rune \<Rightarrow> bool"
  utDigit :: "rune \<Rightarrow> bool"
  utUpper :: "rune \<Rightarrow> bool"
  utLower :: "rune \<Rightarrow> bool"
  utSpace :: "rune \<Rightarrow> bool"
  utToLower :: "rune \<Rightarrow> rune"

definition isUpperRune :: "unicodeTable \<Rightarrow> rune \<Rightarrow> bool" where
  "isUpperRune u r = (if r < 128 then 65 \<le> r \<and> r \<le> 90 else utUpper u r)"

definition isLowerRune :: "unicodeTable \<Rightarrow> rune \<Rightarrow> bool" where
  "isLowerRune u r = (if r < 128 then 97 \<le> r \<and> r \<le> 122 else utLower u r)"

definition isDigitRune :: "unicodeTable \<Rightarrow> rune \<Rightarrow> bool" where
  "isDigitRune u r = (if r < 128 then 48 \<le> r \<and> r \<le> 57 else utDigit u r)"

definition isLetterRune :: "unicodeTable \<Rightarrow> rune \<Rightarrow> bool" where
  "isLetterRune u r = (if r < 128 then (65 \<le> r \<and> r \<le> 90) \<or> (97 \<le> r \<and> r \<le> 122) else utLetter u r)"

definition isSpaceRune :: "unicodeTable \<Rightarrow> rune \<Rightarrow> bool" where
  "isSpaceRune u r = (if r < 128 then r = 32 \<or> (9 \<le> r \<and> r \<le> 13) else utSpace u r)"

definition toLowerRune :: "unicodeTable \<Rightarrow> rune \<Rightarrow> rune" where
  "toLowerRune u r = (if r < 128 then (if 65 \<le> r \<and> r \<le> 90 then r + 32 else r) else utToLower u r)"

definition trimRunes :: "(rune \<Rightarrow> bool) \<Rightarrow> rune list \<Rightarrow> rune list" where
  "trimRunes P s = rev (dropWhile P (rev (dropWhile P s)))"

section \<open>Keys\<close>

definition underscore :: rune where "underscore = 95"

text \<open>The loop of \<open>normalizeKey\<close>: the output so far, the rune before, whether an underscore was written last, and whether this is the first rune.\<close>

fun keyLoop :: "unicodeTable \<Rightarrow> rune list \<Rightarrow> rune \<Rightarrow> bool \<Rightarrow> bool \<Rightarrow> rune list \<Rightarrow> rune list" where
  "keyLoop u out previous lastUnderscore start [] = out"
| "keyLoop u out previous lastUnderscore start (current # rest) =
     (if isLetterRune u current \<or> isDigitRune u current then
        (let out1 = (if isUpperRune u current \<and> \<not> start \<and> \<not> lastUnderscore \<and> (isLowerRune u previous \<or> isDigitRune u previous)
                     then out @ [underscore] else out)
         in keyLoop u (out1 @ [toLowerRune u current]) current False False rest)
      else if out \<noteq> [] \<and> \<not> lastUnderscore then keyLoop u (out @ [underscore]) current True False rest
      else keyLoop u out current lastUnderscore False rest)"

definition normalizeKey :: "unicodeTable \<Rightarrow> rune list \<Rightarrow> rune list" where
  "normalizeKey u key = trimRunes (\<lambda>r. r = underscore) (keyLoop u [] 0 False True (trimRunes (isSpaceRune u) key))"

section \<open>Attributes and records\<close>

datatype attrValue = ErrorValue goerr | TextValue string | OtherValue string

type_synonym attribute = "rune list \<times> attrValue"

definition errorKey :: "rune list" where "errorKey = [101, 114, 114, 111, 114]"

definition errKey :: "rune list" where "errKey = [101, 114, 114]"

definition normalizeAttribute :: "unicodeTable \<Rightarrow> attribute \<Rightarrow> attribute option" where
  "normalizeAttribute u attr =
    (let key = normalizeKey u (fst attr) in
     if key = [] then None
     else if key = errorKey \<or> key = errKey then
       (case snd attr of ErrorValue e \<Rightarrow> Some (errorKey, TextValue (errorText e)) | v \<Rightarrow> Some (errorKey, v))
     else Some (key, snd attr))"

text \<open>The name of the type an error has below its pointers, which reflection gives.\<close>

definition ErrorType :: "unicodeTable \<Rightarrow> rune list option \<Rightarrow> rune list" where
  "ErrorType u typeName =
    (case typeName of
       None \<Rightarrow> []
     | Some name \<Rightarrow> if name = [] then [114, 101, 112, 111, 114, 116, 101, 100, 95, 101, 114, 114, 111, 114] else normalizeKey u name)"

record logRecord =
  lrLevel :: int
  lrMessage :: string
  lrAttrs :: "attribute list"

definition traceKey :: "rune list" where "traceKey = [116, 114, 97, 99, 101, 95, 105, 100]"

definition spanKey :: "rune list" where "spanKey = [115, 112, 97, 110, 95, 105, 100]"

text \<open>The record the canonical handler passes on; \<open>span\<close> is the span of the context, if it is valid.\<close>

definition canonicalHandle :: "unicodeTable \<Rightarrow> (string \<times> string) option \<Rightarrow> logRecord \<Rightarrow> logRecord" where
  "canonicalHandle u span r =
    r\<lparr>lrAttrs := List.map_filter (normalizeAttribute u) (lrAttrs r)
       @ (case span of None \<Rightarrow> [] | Some (traceID, spanID) \<Rightarrow> [(traceKey, TextValue traceID), (spanKey, TextValue spanID)])\<rparr>"

definition canonicalWithAttrs :: "unicodeTable \<Rightarrow> attribute list \<Rightarrow> attribute list" where
  "canonicalWithAttrs u attrs = List.map_filter (normalizeAttribute u) attrs"

definition canonicalWithGroup :: "unicodeTable \<Rightarrow> rune list \<Rightarrow> rune list" where
  "canonicalWithGroup u name = normalizeKey u name"

text \<open>A handler: the levels it takes, and what handling a record answers.\<close>

record slogHandler =
  shEnabled :: "int \<Rightarrow> bool"
  shHandle :: "logRecord \<Rightarrow> goerr option"

definition fanoutEnabled :: "slogHandler list \<Rightarrow> int \<Rightarrow> bool" where
  "fanoutEnabled handlers level = list_ex (\<lambda>child. shEnabled child level) handlers"

definition fanoutHandle :: "slogHandler list \<Rightarrow> logRecord \<Rightarrow> goerr option" where
  "fanoutHandle handlers r =
    foldl (\<lambda>result child. if shEnabled child (lrLevel r) then errorsJoin [result, shHandle child r] else result) None handlers"


section \<open>Canonical keys\<close>

text \<open>No underscore at an end and no two in a row.\<close>

fun spaced :: "rune list \<Rightarrow> bool" where
  "spaced [] = True"
| "spaced [r] = True"
| "spaced (r # s # rs) = (\<not> (r = underscore \<and> s = underscore) \<and> spaced (s # rs))"

definition canonicalKey :: "rune list \<Rightarrow> bool" where
  "canonicalKey k \<longleftrightarrow> spaced k \<and> (k \<noteq> [] \<longrightarrow> hd k \<noteq> underscore \<and> last k \<noteq> underscore)"

text \<open>What is written besides underscores: lower-cased letters and digits.\<close>

definition keyRune :: "unicodeTable \<Rightarrow> rune \<Rightarrow> bool" where
  "keyRune u r \<longleftrightarrow> r = underscore \<or> (\<exists>c. (isLetterRune u c \<or> isDigitRune u c) \<and> r = toLowerRune u c)"

lemma spaced_snoc: "spaced (xs @ [r]) \<longleftrightarrow> spaced xs \<and> (xs = [] \<or> \<not> (last xs = underscore \<and> r = underscore))"
  by (induction xs rule: spaced.induct) auto

lemma spaced_rev: "spaced (rev xs) \<longleftrightarrow> spaced xs"
proof (induction xs rule: spaced.induct)
  case (3 r s rs)
  then show ?case by (simp only: rev.simps(2) spaced_snoc) (auto simp: spaced_snoc)
qed simp_all

lemma spaced_dropWhile: "spaced xs \<Longrightarrow> spaced (dropWhile P xs)"
proof (induction xs rule: spaced.induct)
  case (3 r s rs)
  then show ?case by (cases "P r") (simp_all del: dropWhile.simps add: dropWhile.simps(2)[of P r])
qed auto

text \<open>Lower-casing a letter or a digit beyond ASCII never makes an underscore.\<close>

definition tableOk :: "unicodeTable \<Rightarrow> bool" where
  "tableOk u \<longleftrightarrow> (\<forall>c. utLetter u c \<or> utDigit u c \<longrightarrow> utToLower u c \<noteq> underscore)"

lemma toLower_not_underscore: "tableOk u \<Longrightarrow> isLetterRune u c \<or> isDigitRune u c \<Longrightarrow> toLowerRune u c \<noteq> underscore"
  by (auto simp: tableOk_def isLetterRune_def isDigitRune_def toLowerRune_def underscore_def split: if_splits)

lemma keyLoop_spaced:
  assumes "tableOk u" "spaced out" "lastU \<longleftrightarrow> out \<noteq> [] \<and> last out = underscore" "list_all (keyRune u) out"
  shows "spaced (keyLoop u out previous lastU start rest) \<and> list_all (keyRune u) (keyLoop u out previous lastU start rest)"
  using assms
proof (induction u out previous lastU start rest rule: keyLoop.induct)
  case (2 u out previous lastU start current rest)
  show ?case
  proof (cases "isLetterRune u current \<or> isDigitRune u current")
    case True
    have n: "toLowerRune u current \<noteq> underscore" by (rule toLower_not_underscore[OF 2(4) True])
    have r: "keyRune u (toLowerRune u current)" "keyRune u underscore" using True by (auto simp: keyRune_def)
    show ?thesis using 2(1)[OF True HOL.refl 2(4)] 2(5-7) True n r by (auto simp: Let_def spaced_snoc)
  next
    case False
    then show ?thesis using 2(2)[OF False _ 2(4)] 2(3)[OF False _ 2(4)] 2(5-7)
      by (cases "out \<noteq> [] \<and> \<not> lastU") (auto simp: spaced_snoc keyRune_def)
  qed
qed simp

lemma trim_canonical:
  assumes "spaced s"
  shows "canonicalKey (trimRunes (\<lambda>r. r = underscore) s) \<and> set (trimRunes (\<lambda>r. r = underscore) s) \<subseteq> set s"
proof -
  let ?P = "\<lambda>r. r = underscore" and ?a = "dropWhile (\<lambda>r. r = underscore) s"
  let ?b = "dropWhile ?P (rev ?a)"
  have s: "spaced (rev ?b)" using assms by (simp add: spaced_rev spaced_dropWhile)
  have l: "?b \<noteq> [] \<Longrightarrow> hd ?b \<noteq> underscore" using hd_dropWhile[of ?P "rev ?a"] by blast
  have "last ?b \<noteq> underscore" if "?b \<noteq> []"
  proof -
    from that have "?a \<noteq> []" by (metis dropWhile.simps(1) rev.simps(1))
    then have "hd ?a \<noteq> underscore" using hd_dropWhile[of ?P s] by blast
    moreover have "last ?b = last (rev ?a)" using that by (metis dropWhile_append3 takeWhile_dropWhile_id last_append)
    ultimately show ?thesis using \<open>?a \<noteq> []\<close> by (simp add: last_rev)
  qed
  moreover have "set ?b \<subseteq> set s" by (auto dest!: set_dropWhileD)
  ultimately show ?thesis using s l by (auto simp: trimRunes_def canonicalKey_def hd_rev last_rev)
qed

lemma normalizeKey_canonical: "tableOk u \<Longrightarrow> canonicalKey (normalizeKey u key) \<and> list_all (keyRune u) (normalizeKey u key)"
  using keyLoop_spaced[of u "[]" False 0 True "trimRunes (isSpaceRune u) key"] trim_canonical
  by (auto simp: normalizeKey_def list_all_iff)

text \<open>ASCII keys: the runes of a canonical key, on which the loop changes nothing.\<close>

definition plainRune :: "rune \<Rightarrow> bool" where
  "plainRune r \<longleftrightarrow> r = underscore \<or> (97 \<le> r \<and> r \<le> 122) \<or> (48 \<le> r \<and> r \<le> 57)"

lemma plainRune_word:
  assumes "plainRune r" "r \<noteq> underscore"
  shows "isLetterRune u r \<or> isDigitRune u r" "\<not> isUpperRune u r" "toLowerRune u r = r" "\<not> isSpaceRune u r"
  using assms by (auto simp: plainRune_def underscore_def isLetterRune_def isDigitRune_def isUpperRune_def toLowerRune_def isSpaceRune_def)

lemma underscore_other: "\<not> isLetterRune u underscore" "\<not> isDigitRune u underscore"
  by (simp_all add: underscore_def isLetterRune_def isDigitRune_def)

lemma keyLoop_plain:
  assumes "list_all plainRune out" "list_all (\<lambda>r. r < 128) rest"
  shows "list_all plainRune (keyLoop u out previous lastU start rest)"
  using assms
proof (induction u out previous lastU start rest rule: keyLoop.induct)
  case (2 u out previous lastU start current rest)
  have "plainRune (toLowerRune u current)" if "isLetterRune u current \<or> isDigitRune u current"
    using that 2(5) by (auto simp: plainRune_def isLetterRune_def isDigitRune_def toLowerRune_def)
  moreover have "plainRune underscore" by (simp add: plainRune_def)
  ultimately show ?case using 2 by (auto simp: Let_def)
qed simp

lemma keyLoop_id:
  assumes "list_all plainRune rest" "spaced (out @ rest)" "lastU \<longleftrightarrow> out \<noteq> [] \<and> last out = underscore" "out = [] \<longrightarrow> rest = [] \<or> hd rest \<noteq> underscore"
  shows "keyLoop u out previous lastU start rest = out @ rest"
  using assms
proof (induction rest arbitrary: out previous lastU start)
  case (Cons r rest)
  have s: "spaced (out @ [r])" using Cons.prems(2) by (induction out rule: spaced.induct) auto
  show ?case
  proof (cases "r = underscore")
    case True
    then show ?thesis using Cons.IH[of "out @ [r]" True r False] Cons.prems s underscore_other by (auto simp: spaced_snoc)
  next
    case False
    note w = plainRune_word[OF _ False, of u]
    show ?thesis using Cons.IH[of "out @ [r]" False r False] Cons.prems w False by (auto simp: Let_def)
  qed
qed simp

lemma trimRunes_id: "(s \<noteq> [] \<Longrightarrow> \<not> P (hd s) \<and> \<not> P (last s)) \<Longrightarrow> trimRunes P s = s"
proof -
  assume ends: "s \<noteq> [] \<Longrightarrow> \<not> P (hd s) \<and> \<not> P (last s)"
  then have "dropWhile P s = s" "dropWhile P (rev s) = rev s" by (auto simp: dropWhile_eq_self_iff hd_rev)
  then show ?thesis by (simp add: trimRunes_def)
qed

lemma normalizeKey_id:
  assumes "canonicalKey k" "list_all plainRune k"
  shows "normalizeKey u k = k"
proof -
  have ends: "k \<noteq> [] \<Longrightarrow> plainRune (hd k) \<and> hd k \<noteq> underscore \<and> plainRune (last k) \<and> last k \<noteq> underscore"
    using assms by (auto simp: canonicalKey_def list_all_iff)
  have "trimRunes (isSpaceRune u) k = k" using ends plainRune_word(4) by (intro trimRunes_id) blast
  moreover have "keyLoop u [] 0 False True k = k" using keyLoop_id[OF assms(2), of "[]" False u 0 True] assms(1) by (auto simp: canonicalKey_def)
  moreover have "trimRunes (\<lambda>r. r = underscore) k = k" using ends by (intro trimRunes_id) blast
  ultimately show ?thesis by (simp add: normalizeKey_def)
qed

lemma trimRunes_subset: "set (trimRunes P s) \<subseteq> set s"
  by (auto simp: trimRunes_def dest!: set_dropWhileD)

lemma normalizeKey_idem:
  assumes "tableOk u" "list_all (\<lambda>r. r < 128) key"
  shows "list_all plainRune (normalizeKey u key) \<and> normalizeKey u (normalizeKey u key) = normalizeKey u key"
proof -
  have "list_all (\<lambda>r. r < 128) (trimRunes (isSpaceRune u) key)" using assms(2) trimRunes_subset[of "isSpaceRune u" key] by (auto simp: list_all_iff)
  from keyLoop_plain[OF _ this, of "[]"] have "list_all plainRune (normalizeKey u key)"
    using trimRunes_subset[of "\<lambda>r. r = underscore"] by (fastforce simp: normalizeKey_def list_all_iff)
  then show ?thesis using normalizeKey_id normalizeKey_canonical[OF assms(1)] by blast
qed

lemma error_keys: "normalizeKey u errorKey = errorKey" "canonicalKey errorKey" "errorKey \<noteq> []" "errorKey \<noteq> errKey"
proof -
  have "canonicalKey errorKey" "list_all plainRune errorKey" by code_simp+
  then show "normalizeKey u errorKey = errorKey" "canonicalKey errorKey" by (simp_all add: normalizeKey_id)
qed (simp_all add: errorKey_def errKey_def)

lemma trace_keys: "normalizeKey u traceKey = traceKey" "normalizeKey u spanKey = spanKey" "canonicalKey traceKey" "canonicalKey spanKey"
  "traceKey \<notin> {[], errKey, errorKey}" "spanKey \<notin> {[], errKey, errorKey}"
proof -
  have "canonicalKey traceKey" "list_all plainRune traceKey" "canonicalKey spanKey" "list_all plainRune spanKey" by code_simp+
  then show "normalizeKey u traceKey = traceKey" "normalizeKey u spanKey = spanKey" "canonicalKey traceKey" "canonicalKey spanKey" by (simp_all add: normalizeKey_id)
qed (simp_all add: errorKey_def errKey_def traceKey_def spanKey_def)

definition attributeOk :: "attribute \<Rightarrow> bool" where
  "attributeOk attr \<longleftrightarrow> fst attr \<noteq> [] \<and> canonicalKey (fst attr) \<and> fst attr \<noteq> errKey \<and> (fst attr = errorKey \<longrightarrow> (\<forall>e. snd attr \<noteq> ErrorValue e))"

lemma normalizeAttribute_ok: "tableOk u \<Longrightarrow> normalizeAttribute u attr = Some b \<Longrightarrow> attributeOk b"
  using normalizeKey_canonical[of u "fst attr"] error_keys
  by (auto simp: normalizeAttribute_def attributeOk_def Let_def split: if_splits attrValue.splits)

lemma normalizeAttribute_again:
  assumes "tableOk u" "list_all (\<lambda>r. r < 128) (fst attr)" "normalizeAttribute u attr = Some b"
  shows "normalizeAttribute u b = Some b"
  using normalizeKey_idem[OF assms(1,2)] assms(3) error_keys
  by (auto simp: normalizeAttribute_def Let_def split: if_splits attrValue.splits)

lemma map_filter_again:
  "(\<And>x y. x \<in> set xs \<Longrightarrow> f x = Some y \<Longrightarrow> f y = Some y) \<Longrightarrow> List.map_filter f (List.map_filter f xs) = List.map_filter f xs"
proof (induction xs)
  case (Cons x xs)
  then have "List.map_filter f (List.map_filter f xs) = List.map_filter f xs" by (metis list.set_intros(2))
  moreover have "f y = Some y" if "f x = Some y" for y using Cons.prems that by (meson list.set_intros(1))
  ultimately show ?case by (cases "f x") (simp_all add: map_filter_simps)
qed (simp add: map_filter_simps)

text \<open>
  Every record that is logged has usable keys: whatever the attributes were called, none of those
  passed on is without a key, a key has no underscore at an end and no two in a row, an error is the
  text of the error under the one key \<open>error\<close>, and handling the record once more changes nothing, for
  attributes whose keys are ASCII. The handler for several destinations fails exactly when one of those
  that take the level of the record does.
\<close>

theorem log_record_canonical:
  assumes "tableOk u"
  shows "list_all attributeOk (lrAttrs (canonicalHandle u span r))
    \<and> (list_all (\<lambda>attr. list_all (\<lambda>r. r < 128) (fst attr)) (lrAttrs r) \<longrightarrow> canonicalHandle u None (canonicalHandle u span r) = canonicalHandle u span r)
    \<and> (fanoutHandle handlers r = None \<longleftrightarrow> list_all (\<lambda>child. shEnabled child (lrLevel r) \<longrightarrow> shHandle child r = None) handlers)"
proof (intro conjI impI)
  show "list_all attributeOk (lrAttrs (canonicalHandle u span r))"
    using normalizeAttribute_ok[OF assms] trace_keys
    by (auto simp: canonicalHandle_def list_all_iff List.map_filter_def attributeOk_def split: option.splits)
  show "canonicalHandle u None (canonicalHandle u span r) = canonicalHandle u span r" if "list_all (\<lambda>attr. list_all (\<lambda>r. r < 128) (fst attr)) (lrAttrs r)"
  proof -
    have a: "List.map_filter (normalizeAttribute u) (List.map_filter (normalizeAttribute u) (lrAttrs r)) = List.map_filter (normalizeAttribute u) (lrAttrs r)"
      by (rule map_filter_again) (use that normalizeAttribute_again[OF assms] in \<open>auto simp: list_all_iff\<close>)
    have b: "List.map_filter (normalizeAttribute u) (xs @ ys) = List.map_filter (normalizeAttribute u) xs @ List.map_filter (normalizeAttribute u) ys" for xs ys
      by (simp add: List.map_filter_def)
    have "normalizeAttribute u (traceKey, TextValue v) = Some (traceKey, TextValue v)" "normalizeAttribute u (spanKey, TextValue v) = Some (spanKey, TextValue v)" for v
      using trace_keys by (simp_all add: normalizeAttribute_def)
    then show ?thesis by (auto simp: canonicalHandle_def a b map_filter_simps split: option.splits)
  qed
  have "foldl (\<lambda>result child. if shEnabled child (lrLevel r) then errorsJoin [result, shHandle child r] else result) acc handlers = None
      \<longleftrightarrow> acc = None \<and> list_all (\<lambda>child. shEnabled child (lrLevel r) \<longrightarrow> shHandle child r = None) handlers" for acc
    by (induction handlers arbitrary: acc) (auto simp: errorsJoin_None_iff)
  then show "fanoutHandle handlers r = None \<longleftrightarrow> list_all (\<lambda>child. shEnabled child (lrLevel r) \<longrightarrow> shHandle child r = None) handlers"
    by (simp add: fanoutHandle_def)
qed

definition asciiTable :: unicodeTable where
  "asciiTable = \<lparr>utLetter = (\<lambda>_. False), utDigit = (\<lambda>_. False), utUpper = (\<lambda>_. False), utLower = (\<lambda>_. False), utSpace = (\<lambda>_. False), utToLower = id\<rparr>"

text \<open>The attributes \<open>requestID\<close> and \<open>Err\<close>.\<close>

definition sampleLogRecord :: logRecord where
  "sampleLogRecord = \<lparr>lrLevel = 0, lrMessage = ''m'',
     lrAttrs = [([114, 101, 113, 117, 101, 115, 116, 73, 68], OtherValue ''7''), ([69, 114, 114], ErrorValue (Sentinel EOF))]\<rparr>"

theorem log_record_canonical_witness:
  "list_all attributeOk (lrAttrs (canonicalHandle asciiTable None sampleLogRecord))
   \<and> lrAttrs (canonicalHandle asciiTable None sampleLogRecord)
      = [([114, 101, 113, 117, 101, 115, 116, 95, 105, 100], OtherValue ''7''), (errorKey, TextValue ''EOF'')]
   \<and> canonicalHandle asciiTable None (canonicalHandle asciiTable None sampleLogRecord) = canonicalHandle asciiTable None sampleLogRecord"
proof -
  have t: "tableOk asciiTable" by (simp add: tableOk_def asciiTable_def)
  have a: "list_all (\<lambda>attr. list_all (\<lambda>r. r < 128) (fst attr)) (lrAttrs sampleLogRecord)" by (simp add: sampleLogRecord_def)
  have v: "lrAttrs (canonicalHandle asciiTable None sampleLogRecord)
      = [([114, 101, 113, 117, 101, 115, 116, 95, 105, 100], OtherValue ''7''), (errorKey, TextValue ''EOF'')]" by code_simp
  show ?thesis using log_record_canonical[OF t, of None sampleLogRecord "[]"] a v by blast
qed

end
