(* ===== verification/CgvIdentity.thy ===== *)
theory CgvIdentity
  imports GoHttpTime Sha256
begin

text \<open>
  Identities and times of the CGV provider (\<open>internal/provider/cgv/identity.go\<close>,
  \<open>contract_identity.go\<close>, \<open>showtime_time.go\<close>). The messages of the contracts repository are
  records of the fields the code reads or sets; where Go tests an entity, its identity and the CGV
  variant of it for nil, the argument here is the CGV identity, \<open>None\<close> when one of them is nil.
  A \<open>*time.Location\<close> is the instant of each local midnight, which the time zone database gives.
\<close>

definition ProviderCGV :: string where "ProviderCGV = ''cgv''"


section \<open>Catalog identifiers\<close>

definition CatalogID :: "string \<Rightarrow> string \<Rightarrow> string \<Rightarrow> string" where
  "CatalogID providerID kind sourceKey =
    (let normalized = ToLower (Join [TrimSpace providerID, TrimSpace kind, TrimSpace sourceKey] [CHR 0x00])
     in TrimSpace kind @ ''_'' @ hexOf (take 16 (Sum256 normalized)))"

definition SeatID :: "string \<Rightarrow> string \<Rightarrow> string" where
  "SeatID auditoriumID label =
    CatalogID ''catalog'' ''seat'' (TrimSpace auditoriumID @ [CHR 0x00] @ ToUpper (TrimSpace label))"

definition SeatMapVersionID :: "string \<Rightarrow> string \<Rightarrow> string" where
  "SeatMapVersionID auditoriumID layoutHash =
    CatalogID ''catalog'' ''seat-map'' (TrimSpace auditoriumID @ [CHR 0x00] @ TrimSpace layoutHash)"

definition canonicalProviderDate :: "string \<Rightarrow> string result" where
  "canonicalProviderDate raw0 =
    (let raw = TrimSpace raw0 in
     if raw = [] then Inl (errNew ''provider date is empty'')
     else case parseCompactDate raw of
         Some d \<Rightarrow> Inr (formatDateOnly d)
       | None \<Rightarrow> (case parseDateOnly raw of
             Some d \<Rightarrow> Inr (formatDateOnly d)
           | None \<Rightarrow> Inl (errNew (''provider date '' @ quoteGo raw @ '' is not YYYYMMDD or YYYY-MM-DD''))))"

definition movieSourceKey :: "string \<Rightarrow> string" where
  "movieSourceKey movieNo = TrimSpace movieNo"

definition auditoriumSourceKey :: "string \<Rightarrow> string \<Rightarrow> string" where
  "auditoriumSourceKey siteNo auditoriumNo = Join [TrimSpace siteNo, TrimSpace auditoriumNo] ''/''"

definition showtimeSourceKey :: "string \<Rightarrow> string \<Rightarrow> string \<Rightarrow> string \<Rightarrow> string" where
  "showtimeSourceKey siteNo date auditoriumNo sequence =
    Join [TrimSpace siteNo, TrimSpace date, TrimSpace auditoriumNo, TrimSpace sequence] ''/''"

definition providerCatalogID :: "string \<Rightarrow> string \<Rightarrow> string" where
  "providerCatalogID kind sourceKey = CatalogID ProviderCGV kind sourceKey"


section \<open>Contract identities\<close>

record LocalDate =
  ldYear :: int
  ldMonth :: int
  ldDay :: int

record CgvTheaterIdentity =
  ctSiteNo :: string

record CgvMovieIdentity =
  cmMovieNo :: string

record CgvAuditoriumIdentity =
  caSiteNo :: string
  caScreenNo :: string

record CgvShowtimeIdentity =
  csSiteNo :: string
  csScheduleDate :: "LocalDate option"
  csScreenNo :: string
  csSequence :: string

definition numericIdentifier :: "string \<Rightarrow> bool" where
  "numericIdentifier value \<longleftrightarrow> value \<noteq> [] \<and> list_all isDigit value"

text \<open>\<open>utf8.RuneCountInString\<close>.\<close>

function runeCount :: "string \<Rightarrow> nat" where
  "runeCount s = (if s = [] then 0 else Suc (runeCount (drop (runeLen s) s)))"
  by pat_completeness auto
termination
  by (relation "measure length") (auto simp: runeLen_def Let_def split: list.splits)

declare runeCount.simps [simp del]

definition providerSiteIdentifier :: "string \<Rightarrow> bool" where
  "providerSiteIdentifier value \<longleftrightarrow> value \<noteq> [] \<and> runeCount value \<le> 64"

text \<open>\<open>time.Date\<close> normalises a day past the end of its month into the next ones.\<close>

definition timeDate :: "int \<Rightarrow> int \<Rightarrow> int \<Rightarrow> ymd" where
  "timeDate y m d = addDays (nat (d - 1)) \<lparr>yr = y, mo = m, dy = 1\<rparr>"

definition localDateValue :: "LocalDate option \<Rightarrow> string" where
  "localDateValue value =
    (case value of None \<Rightarrow> [] | Some v \<Rightarrow>
       if ldYear v < 1 \<or> ldMonth v < 1 \<or> 12 < ldMonth v \<or> ldDay v < 1 \<or> 31 < ldDay v then []
       else let date = timeDate (ldYear v) (ldMonth v) (ldDay v) in
         if yr date \<noteq> ldYear v \<or> mo date \<noteq> ldMonth v \<or> dy date \<noteq> ldDay v then []
         else formatDateOnly date)"

definition contractLocalDate :: "string \<Rightarrow> LocalDate result" where
  "contractLocalDate value =
    (case parseDateOnly (TrimSpace value) of
       None \<Rightarrow> Inl (wrapE (''invalid local date '' @ quoteGo value)
                  (errNew (''parsing time '' @ quoteGo (TrimSpace value) @ '' as '' @ quoteGo ''2006-01-02'')))
     | Some d \<Rightarrow> Inr \<lparr>ldYear = yr d, ldMonth = mo d, ldDay = dy d\<rparr>)"

definition TheaterSiteNo :: "CgvTheaterIdentity option \<Rightarrow> string \<times> bool" where
  "TheaterSiteNo theater =
    (case theater of None \<Rightarrow> ([], False)
     | Some t \<Rightarrow> (let value = TrimSpace (ctSiteNo t) in (value, providerSiteIdentifier value)))"

definition AuditoriumIdentityValues :: "CgvAuditoriumIdentity option \<Rightarrow> string \<times> string \<times> bool" where
  "AuditoriumIdentityValues auditorium =
    (case auditorium of None \<Rightarrow> ([], [], False)
     | Some a \<Rightarrow> (let siteNo = TrimSpace (caSiteNo a); screenNo = TrimSpace (caScreenNo a)
                 in (siteNo, screenNo, providerSiteIdentifier siteNo \<and> numericIdentifier screenNo)))"

definition ShowtimeIdentityValues :: "CgvShowtimeIdentity option \<Rightarrow> string \<times> string \<times> string \<times> string \<times> bool" where
  "ShowtimeIdentityValues showtime =
    (case showtime of None \<Rightarrow> ([], [], [], [], False)
     | Some s \<Rightarrow>
         (let siteNo = TrimSpace (csSiteNo s); screenNo = TrimSpace (csScreenNo s);
              sequence = TrimSpace (csSequence s); date = localDateValue (csScheduleDate s)
          in (siteNo, date, screenNo, sequence,
              providerSiteIdentifier siteNo \<and> date \<noteq> [] \<and> numericIdentifier screenNo \<and> numericIdentifier sequence)))"

definition NewTheaterIdentity :: "string \<Rightarrow> CgvTheaterIdentity" where
  "NewTheaterIdentity siteNo = \<lparr>ctSiteNo = TrimSpace siteNo\<rparr>"

definition NewMovieIdentity :: "string \<Rightarrow> CgvMovieIdentity" where
  "NewMovieIdentity movieNo = \<lparr>cmMovieNo = TrimSpace movieNo\<rparr>"

definition NewAuditoriumIdentity :: "string \<Rightarrow> string \<Rightarrow> CgvAuditoriumIdentity" where
  "NewAuditoriumIdentity siteNo screenNo = \<lparr>caSiteNo = TrimSpace siteNo, caScreenNo = TrimSpace screenNo\<rparr>"

definition NewShowtimeIdentity :: "string \<Rightarrow> string \<Rightarrow> string \<Rightarrow> string \<Rightarrow> CgvShowtimeIdentity result" where
  "NewShowtimeIdentity siteNo date screenNo sequence =
    bindR (contractLocalDate date) (\<lambda>scheduleDate.
      Inr \<lparr>csSiteNo = TrimSpace siteNo, csScheduleDate = Some scheduleDate,
           csScreenNo = TrimSpace screenNo, csSequence = TrimSpace sequence\<rparr>)"


section \<open>Service-day clocks\<close>

definition maximumProviderClockHour :: int where "maximumProviderClockHour = 47"

definition parseProviderClock :: "string \<Rightarrow> (int \<times> int) result" where
  "parseProviderClock raw0 =
    (let raw1 = TrimSpace raw0;
         raw = (if length raw1 = 5 \<and> raw1 ! 2 = CHR '':'' then take 2 raw1 @ drop 3 raw1 else raw1)
     in if length raw \<noteq> 4 then Inl (errNew (quoteGo raw @ '' is not HHMM or HH:MM''))
        else case Atoi (take 2 raw) of
            None \<Rightarrow> Inl (errNew (quoteGo raw @ '' has an invalid hour''))
          | Some h \<Rightarrow>
              (case Atoi (drop 2 raw) of
                 None \<Rightarrow> Inl (errNew (quoteGo raw @ '' has an invalid minute''))
               | Some m \<Rightarrow>
                   if 59 < m then Inl (errNew (quoteGo raw @ '' has an invalid minute''))
                   else if maximumProviderClockHour < h then
                     Inl (errNew (quoteGo raw @ '' exceeds the service-day range''))
                   else Inr (h, m)))"

text \<open>The verb \<open>%02d\<close>: at least two characters, the sign counted.\<close>

definition fmt02d :: "int \<Rightarrow> string" where
  "fmt02d i = (if i < 0 then CHR ''-'' # zeroPad 1 (natStr (nat (- i))) else zeroPad 2 (natStr (nat i)))"

definition providerClockLabel :: "string \<Rightarrow> string result" where
  "providerClockLabel raw =
    bindR (parseProviderClock raw) (\<lambda>(h, m). Inr (fmt02d h @ '':'' @ fmt02d m))"

type_synonym location = "ymd \<Rightarrow> instant"

definition ParseShowtimeRange :: "string \<Rightarrow> string \<Rightarrow> string \<Rightarrow> location option \<Rightarrow> (instant \<times> instant) result" where
  "ParseShowtimeRange date startClock endClock location =
    (case location of None \<Rightarrow> Inl (errNew ''showtime location is required'')
     | Some midnight \<Rightarrow>
    bindR (canonicalProviderDate date) (\<lambda>canonicalDate.
    bindR (mapErr (wrapE ''invalid start clock'') (parseProviderClock startClock)) (\<lambda>(startHour, startMinutes).
    bindR (mapErr (wrapE ''invalid end clock'') (parseProviderClock endClock)) (\<lambda>(endHour, endMinutes).
    case parseDateOnly canonicalDate of
      None \<Rightarrow> Inl (errNew (''parsing time '' @ quoteGo canonicalDate))
    | Some d \<Rightarrow>
        (let base = midnight d;
             startsAt = base + (startHour * 60 + startMinutes) * minute;
             endsAt = base + (endHour * 60 + endMinutes) * minute
         in Inr (startsAt, if endsAt \<le> startsAt then endsAt + 24 * hour else endsAt))))))"


section \<open>Dates\<close>

lemma formatDateOnly_digits:
  assumes "ymdInRange d"
  shows "\<exists>a b c. formatDateOnly d = a @ ''-'' @ b @ ''-'' @ c \<and> length a = 4 \<and> length b = 2 \<and> length c = 2
    \<and> list_all isDigit a \<and> list_all isDigit b \<and> list_all isDigit c \<and> a \<noteq> []
    \<and> digits4 a = Some (yr d) \<and> digits2 b = Some (mo d) \<and> digits2 c = Some (dy d)"
proof -
  let ?a = "zeroPad 4 (natStr (nat (yr d)))" and ?b = "zeroPad 2 (natStr (nat (mo d)))" and ?c = "zeroPad 2 (natStr (nat (dy d)))"
  have dig: "list_all isDigit (zeroPad w (natStr n))" for w n
    using decVal_digits[OF decVal_zeroPad] by blast
  have "0 \<le> yr d" "0 \<le> mo d" "0 \<le> dy d" using assms by (auto simp: ymdInRange_def validYmd_def)
  then show ?thesis using ymd_parts_length[OF assms] dig
    by (intro exI[of _ ?a] exI[of _ ?b] exI[of _ ?c]) (auto simp: formatDateOnly_def digits4_Some digits2_Some)
qed

lemma ymd_eta [simp]: "\<lparr>yr = yr d, mo = mo d, dy = dy d\<rparr> = d"
  by simp

lemma digits_ends: "list_all isDigit s \<Longrightarrow> c \<in> set s \<Longrightarrow> plainChar c"
  by (auto simp: list_all_iff isDigit_plain)

lemma plain_dash [simp]: "plainChar (CHR ''-'')" "plainChar (CHR '':'')"
  by (simp_all add: plainChar_def)

lemma formatDateOnly_trim [simp]: "ymdInRange d \<Longrightarrow> TrimSpace (formatDateOnly d) = formatDateOnly d"
proof -
  assume "ymdInRange d"
  from formatDateOnly_digits[OF this] obtain a b c where "formatDateOnly d = a @ ''-'' @ b @ ''-'' @ c"
    "list_all isDigit a" "list_all isDigit b" "list_all isDigit c" by blast
  then show ?thesis by (intro TrimSpace_plain) (auto simp: list_all_iff isDigit_plain)
qed

lemma formatDateOnly_ne [simp]: "formatDateOnly d \<noteq> []"
  by (simp add: formatDateOnly_def)

lemma parseCompactDate_long: "length s \<noteq> 8 \<Longrightarrow> parseCompactDate s = None"
  by (simp add: parseCompactDate_def)

lemma canonical_of_date: "ymdInRange d \<Longrightarrow> canonicalProviderDate (formatDateOnly d) = Inr (formatDateOnly d)"
  by (simp add: canonicalProviderDate_def parseCompactDate_long formatDateOnly_length parse_formatDateOnly)

lemma deleteChar_digits: "list_all isDigit s \<Longrightarrow> deleteChar (CHR ''-'') s = s"
  by (induction s) (auto simp: deleteChar_def isDigit_def)

lemma compact_of_date:
  assumes "ymdInRange d"
  shows "canonicalProviderDate (deleteChar (CHR ''-'') (formatDateOnly d)) = Inr (formatDateOnly d)"
proof -
  from formatDateOnly_digits[OF assms] obtain a b c where f: "formatDateOnly d = a @ ''-'' @ b @ ''-'' @ c"
    and l: "length a = 4" "length b = 2" "length c = 2"
    and g: "list_all isDigit a" "list_all isDigit b" "list_all isDigit c"
    and v: "digits4 a = Some (yr d)" "digits2 b = Some (mo d)" "digits2 c = Some (dy d)" by blast
  have del: "deleteChar (CHR ''-'') (formatDateOnly d) = a @ b @ c"
    using g deleteChar_digits by (simp add: f deleteChar_def)
  have trim: "TrimSpace (a @ b @ c) = a @ b @ c"
    using g by (intro TrimSpace_plain) (auto simp: list_all_iff isDigit_plain)
  have "parseCompactDate (a @ b @ c) = Some d"
    using l v assms by (simp add: parseCompactDate_def mkYmd_Some ymdInRange_def)
  then show ?thesis using l trim unfolding del by (auto simp: canonicalProviderDate_def Let_def)
qed

lemma canonicalProviderDate_form:
  "canonicalProviderDate raw = Inr s \<Longrightarrow> \<exists>d. ymdInRange d \<and> s = formatDateOnly d"
  by (auto simp: canonicalProviderDate_def Let_def split: if_splits option.splits
      dest: parseCompactDate_range parseDateOnly_inv)

text \<open>
  A canonical provider date is the ISO form of a real calendar day; canonicalising is
  idempotent, and the provider's compact spelling of the same day gives the same canonical text.
\<close>

theorem canonicalProviderDate_canonical:
  assumes "canonicalProviderDate raw = Inr s"
  shows "(\<exists>d. ymdInRange d \<and> s = formatDateOnly d) \<and> canonicalProviderDate s = Inr s
    \<and> canonicalProviderDate (deleteChar (CHR ''-'') s) = Inr s"
  using canonicalProviderDate_form[OF assms] canonical_of_date compact_of_date by auto

theorem canonicalProviderDate_canonical_witness:
  "canonicalProviderDate (deleteChar (CHR ''-'') ''2024-02-29'') = Inr ''2024-02-29''"
proof -
  have "(case canonicalProviderDate '' 20240229 '' of Inr s \<Rightarrow> s | Inl _ \<Rightarrow> []) = ''2024-02-29''"
    "isOk (canonicalProviderDate '' 20240229 '')" by code_simp+
  then have "canonicalProviderDate '' 20240229 '' = Inr ''2024-02-29''" by (auto simp: isOk_iff)
  from canonicalProviderDate_canonical[OF this] show ?thesis by (simp only: simp_thms)
qed

lemma addDays_month:
  "1 \<le> m \<Longrightarrow> m \<le> 12 \<Longrightarrow> int n < daysIn y m \<Longrightarrow> addDays n \<lparr>yr = y, mo = m, dy = 1\<rparr> = \<lparr>yr = y, mo = m, dy = 1 + int n\<rparr>"
proof (induction n)
  case 0
  then show ?case by simp
next
  case (Suc n)
  then have "addDays n \<lparr>yr = y, mo = m, dy = 1\<rparr> = \<lparr>yr = y, mo = m, dy = 1 + int n\<rparr>" by simp
  then show ?case unfolding addDays_Suc using Suc.prems by (simp add: nextDay_def)
qed

text \<open>Normalisation keeps a triple exactly when it names a day of its month.\<close>

lemma timeDate_keeps:
  assumes "1 \<le> m" "m \<le> 12" "1 \<le> d"
  shows "timeDate y m d = \<lparr>yr = y, mo = m, dy = d\<rparr> \<longleftrightarrow> d \<le> daysIn y m"
proof
  assume "d \<le> daysIn y m"
  then show "timeDate y m d = \<lparr>yr = y, mo = m, dy = d\<rparr>"
    using assms addDays_month[of m "nat (d - 1)" y] by (simp add: timeDate_def)
next
  assume t: "timeDate y m d = \<lparr>yr = y, mo = m, dy = d\<rparr>"
  have "validYmd \<lparr>yr = y, mo = m, dy = 1\<rparr>" using assms by (simp add: validYmd_def daysIn_def)
  then have "validYmd (timeDate y m d)" unfolding timeDate_def by (rule addDays_valid)
  then show "d \<le> daysIn y m" by (simp add: t validYmd_def)
qed

lemma localDateValue_valid:
  "localDateValue (Some v) \<noteq> [] \<longleftrightarrow> 1 \<le> ldYear v \<and> validYmd \<lparr>yr = ldYear v, mo = ldMonth v, dy = ldDay v\<rparr>"
proof (cases "ldYear v < 1 \<or> ldMonth v < 1 \<or> 12 < ldMonth v \<or> ldDay v < 1 \<or> 31 < ldDay v")
  case True
  then show ?thesis by (auto simp: localDateValue_def validYmd_def daysIn_def split: if_splits)
next
  case False
  let ?t = "timeDate (ldYear v) (ldMonth v) (ldDay v)"
  have "(yr ?t = ldYear v \<and> mo ?t = ldMonth v \<and> dy ?t = ldDay v) \<longleftrightarrow> ldDay v \<le> daysIn (ldYear v) (ldMonth v)"
    using timeDate_keeps[of "ldMonth v" "ldDay v" "ldYear v"] False by (cases ?t) auto
  then show ?thesis using False by (auto simp: localDateValue_def Let_def validYmd_def)
qed

lemma localDateValue_eq:
  assumes "localDateValue (Some v) \<noteq> []"
  shows "localDateValue (Some v) = formatDateOnly \<lparr>yr = ldYear v, mo = ldMonth v, dy = ldDay v\<rparr>"
proof -
  from assms localDateValue_valid have v: "1 \<le> ldYear v" "validYmd \<lparr>yr = ldYear v, mo = ldMonth v, dy = ldDay v\<rparr>" by auto
  then have "timeDate (ldYear v) (ldMonth v) (ldDay v) = \<lparr>yr = ldYear v, mo = ldMonth v, dy = ldDay v\<rparr>"
    by (subst timeDate_keeps) (auto simp: validYmd_def)
  then show ?thesis using assms by (auto simp: localDateValue_def Let_def split: if_splits)
qed

text \<open>
  Contract dates and their text are inverse to each other: the text of a contract date of a
  year up to 9999 reads back as that date, the date read from a text of a year from 1 on
  prints as that text, and only triples that name a real day have a text at all.
\<close>

theorem localDate_roundtrip:
  "(localDateValue (Some v) \<noteq> [] \<longleftrightarrow> 1 \<le> ldYear v \<and> validYmd \<lparr>yr = ldYear v, mo = ldMonth v, dy = ldDay v\<rparr>)
   \<and> (localDateValue (Some v) \<noteq> [] \<and> ldYear v \<le> 9999 \<longrightarrow> contractLocalDate (localDateValue (Some v)) = Inr v)
   \<and> (contractLocalDate text = Inr v \<and> 1 \<le> ldYear v \<longrightarrow> localDateValue (Some v) = TrimSpace text)"
proof (intro conjI impI)
  show "localDateValue (Some v) \<noteq> [] \<longleftrightarrow> 1 \<le> ldYear v \<and> validYmd \<lparr>yr = ldYear v, mo = ldMonth v, dy = ldDay v\<rparr>"
    by (rule localDateValue_valid)
  assume h: "localDateValue (Some v) \<noteq> [] \<and> ldYear v \<le> 9999"
  let ?d = "\<lparr>yr = ldYear v, mo = ldMonth v, dy = ldDay v\<rparr>"
  have "ymdInRange ?d" using h localDateValue_valid by (auto simp: ymdInRange_def)
  then show "contractLocalDate (localDateValue (Some v)) = Inr v"
    unfolding localDateValue_eq[OF conjunct1[OF h]] by (simp add: contractLocalDate_def parse_formatDateOnly)
next
  assume h: "contractLocalDate text = Inr v \<and> 1 \<le> ldYear v"
  then obtain d where d: "parseDateOnly (TrimSpace text) = Some d" "v = \<lparr>ldYear = yr d, ldMonth = mo d, ldDay = dy d\<rparr>"
    by (auto simp: contractLocalDate_def split: option.splits)
  from parseDateOnly_inv[OF d(1)] have r: "ymdInRange d" "formatDateOnly d = TrimSpace text" by auto
  have "localDateValue (Some v) \<noteq> []" using h d r localDateValue_valid by (auto simp: ymdInRange_def)
  from localDateValue_eq[OF this] d r show "localDateValue (Some v) = TrimSpace text" by simp
qed

theorem localDate_roundtrip_witness:
  "contractLocalDate (localDateValue (Some \<lparr>ldYear = 2025, ldMonth = 12, ldDay = 31\<rparr>)) = Inr \<lparr>ldYear = 2025, ldMonth = 12, ldDay = 31\<rparr>"
proof -
  have "validYmd \<lparr>yr = 2025, mo = 12, dy = 31\<rparr>" by (simp add: validYmd_def daysIn_def)
  then show ?thesis using localDate_roundtrip[of "\<lparr>ldYear = 2025, ldMonth = 12, ldDay = 31\<rparr>" "[]"] by simp
qed

lemma NewShowtimeIdentity_values:
  assumes "NewShowtimeIdentity site date screen sequence = Inr i" "HasPrefix (TrimSpace date) ''0000'' = False"
  shows "ShowtimeIdentityValues (Some i) = (TrimSpace site, TrimSpace date, TrimSpace screen, TrimSpace sequence,
    providerSiteIdentifier (TrimSpace site) \<and> numericIdentifier (TrimSpace screen) \<and> numericIdentifier (TrimSpace sequence))"
proof -
  from assms(1) obtain v where v: "contractLocalDate date = Inr v"
    "i = \<lparr>csSiteNo = TrimSpace site, csScheduleDate = Some v, csScreenNo = TrimSpace screen, csSequence = TrimSpace sequence\<rparr>"
    by (auto simp: NewShowtimeIdentity_def result_simps)
  then obtain d where d: "parseDateOnly (TrimSpace date) = Some d" "v = \<lparr>ldYear = yr d, ldMonth = mo d, ldDay = dy d\<rparr>"
    by (auto simp: contractLocalDate_def split: option.splits)
  from parseDateOnly_inv[OF d(1)] have r: "ymdInRange d" "formatDateOnly d = TrimSpace date" by auto
  have "yr d \<noteq> 0"
  proof
    assume "yr d = 0"
    moreover have "zeroPad 4 (natStr 0) = ''0000''" by code_simp
    ultimately have "HasPrefix (TrimSpace date) ''0000''" unfolding r(2)[symmetric] formatDateOnly_def
      by (simp add: HasPrefix_def)
    with assms(2) show False by simp
  qed
  then have "1 \<le> ldYear v" using r(1) d(2) by (simp add: ymdInRange_def)
  then have ne: "localDateValue (Some v) \<noteq> []" using d r localDateValue_valid by (auto simp: ymdInRange_def)
  have "localDateValue (Some v) = TrimSpace date" using localDateValue_eq[OF ne] d r by simp
  then show ?thesis using ne v(2) by (simp add: ShowtimeIdentityValues_def Let_def)
qed

text \<open>
  C30. A showtime identity keeps what it was built from: the tuple read back from
  \<open>NewShowtimeIdentity\<close> is the trimmed tuple given to it, and it is accepted exactly when the site
  number has at most 64 characters and the screen and sequence are digits.
\<close>

theorem showtimeIdentity_roundtrip:
  assumes "NewShowtimeIdentity site date screen sequence = Inr i" "HasPrefix (TrimSpace date) ''0000'' = False"
  shows "ShowtimeIdentityValues (Some i) = (TrimSpace site, TrimSpace date, TrimSpace screen, TrimSpace sequence,
    providerSiteIdentifier (TrimSpace site) \<and> numericIdentifier (TrimSpace screen) \<and> numericIdentifier (TrimSpace sequence))"
  using NewShowtimeIdentity_values[OF assms] .

theorem showtimeIdentity_roundtrip_witness:
  "\<exists>i. NewShowtimeIdentity '' 0013 '' ''2025-01-02'' ''018'' ''7'' = Inr i
     \<and> fst (ShowtimeIdentityValues (Some i)) = TrimSpace '' 0013 ''"
proof -
  have "isOk (NewShowtimeIdentity '' 0013 '' ''2025-01-02'' ''018'' ''7'')"
    "HasPrefix (TrimSpace ''2025-01-02'') ''0000'' = False" by code_simp+
  then obtain i where i: "NewShowtimeIdentity '' 0013 '' ''2025-01-02'' ''018'' ''7'' = Inr i"
    "HasPrefix (TrimSpace ''2025-01-02'') ''0000'' = False" unfolding isOk_iff by blast
  from showtimeIdentity_roundtrip[OF i] i(1) show ?thesis by (metis fst_conv)
qed


section \<open>Clocks\<close>

lemma Atoi_two:
  assumes "n < 100" shows "Atoi (zeroPad 2 (natStr n)) = Some (int n)" "length (zeroPad 2 (natStr n)) = 2"
proof -
  let ?s = "zeroPad 2 (natStr n)"
  show len: "length ?s = 2" using assms by (intro zeroPad_length) auto
  have dig: "list_all isDigit ?s" using decVal_digits[OF decVal_zeroPad] by blast
  have ne: "?s \<noteq> []" using len by auto
  have "isDigit (hd ?s)" using dig ne by (simp add: list_all_iff)
  then have "hd ?s \<noteq> CHR ''-''" "hd ?s \<noteq> CHR ''+''" using isDigit_not_sign by blast+
  then show "Atoi ?s = Some (int n)" using ne assms by (simp add: Atoi_def ParseInt_def)
qed

lemma clock_of_label:
  assumes "0 \<le> h" "h \<le> 47" "0 \<le> m" "m \<le> 59"
  shows "parseProviderClock (fmt02d h @ '':'' @ fmt02d m) = Inr (h, m)"
proof -
  let ?h = "zeroPad 2 (natStr (nat h))" and ?m = "zeroPad 2 (natStr (nat m))"
  have f: "fmt02d h = ?h" "fmt02d m = ?m" using assms by (simp_all add: fmt02d_def)
  have n: "nat h < 100" "nat m < 100" using assms by auto
  note two = Atoi_two[OF n(1)] Atoi_two[OF n(2)]
  have dig: "list_all isDigit ?h" "list_all isDigit ?m" using decVal_digits[OF decVal_zeroPad] by blast+
  have trim: "TrimSpace (?h @ '':'' @ ?m) = ?h @ '':'' @ ?m"
    using dig by (intro TrimSpace_plain) (auto simp: list_all_iff isDigit_plain)
  have nth: "(?h @ '':'' @ ?m) ! 2 = CHR '':''" using two by (simp add: nth_append)
  show ?thesis unfolding f parseProviderClock_def trim Let_def using two nth assms
    by (simp add: maximumProviderClockHour_def)
qed

text \<open>
  The clock label the code looks for on the page denotes the clock it was made from, service-day
  hours after midnight included: for every clock that is not negative, the label reads back as the
  same hour (at most 47) and minute (at most 59).
\<close>

theorem providerClockLabel_roundtrip:
  assumes "parseProviderClock raw = Inr (h, m)" "0 \<le> h" "0 \<le> m"
  shows "h \<le> 47 \<and> m \<le> 59 \<and> (\<exists>label. providerClockLabel raw = Inr label \<and> length label = 5 \<and> parseProviderClock label = Inr (h, m))"
proof -
  have le: "h \<le> 47" "m \<le> 59" using assms(1)
    by (auto simp: parseProviderClock_def Let_def maximumProviderClockHour_def split: if_splits option.splits)
  have "nat h < 100" "nat m < 100" using assms le by auto
  then have "length (fmt02d h @ '':'' @ fmt02d m) = 5" using Atoi_two(2) assms(2,3) by (simp add: fmt02d_def)
  then show ?thesis using clock_of_label[of h m] assms le by (simp add: providerClockLabel_def)
qed

theorem providerClockLabel_roundtrip_witness:
  "\<exists>label. providerClockLabel ''2709'' = Inr label \<and> length label = 5 \<and> parseProviderClock label = Inr (27, 9)"
proof -
  have "isOk (parseProviderClock ''2709'')" "(case parseProviderClock ''2709'' of Inr x \<Rightarrow> x | Inl _ \<Rightarrow> (0, 0)) = (27, 9)" by code_simp+
  then have "parseProviderClock ''2709'' = Inr (27, 9)" by (auto simp: isOk_iff)
  from providerClockLabel_roundtrip[OF this] show ?thesis by simp
qed

text \<open>
  The bounds are upper bounds only: a sign passes \<open>strconv.Atoi\<close>, so a clock of negative hour and
  minute is accepted.
\<close>

lemma parseProviderClock_accepts_negative: "parseProviderClock ''-1-5'' = Inr (-1, -5)"
proof -
  have "isOk (parseProviderClock ''-1-5'')" "(case parseProviderClock ''-1-5'' of Inr x \<Rightarrow> x | Inl _ \<Rightarrow> (0, 0)) = (-1, -5)" by code_simp+
  then show ?thesis by (auto simp: isOk_iff)
qed

text \<open>
  A showtime that starts on its service day proper (before 24:00) ends after it starts and
  within 48 hours of its day's midnight; its start is exactly its clock after that midnight, and the
  end is the clock of the service day or, when that is not later, of the day after.
\<close>

theorem ParseShowtimeRange_ordered:
  assumes "ParseShowtimeRange date startClock endClock (Some midnight) = Inr (startsAt, endsAt)"
    "parseProviderClock startClock = Inr (sh, sm)" "parseProviderClock endClock = Inr (eh, em)"
    "0 \<le> sm" "0 \<le> eh" "0 \<le> em" "sh < 24"
  shows "\<exists>d. ymdInRange d \<and> canonicalProviderDate date = Inr (formatDateOnly d)
    \<and> startsAt = midnight d + (sh * 60 + sm) * minute
    \<and> (endsAt = midnight d + (eh * 60 + em) * minute \<or> endsAt = midnight d + ((eh + 24) * 60 + em) * minute)
    \<and> startsAt < endsAt \<and> endsAt < midnight d + 48 * hour"
proof -
  have upper: "sh \<le> 47" "sm \<le> 59" "eh \<le> 47" "em \<le> 59" using assms(2,3)
    by (auto simp: parseProviderClock_def Let_def maximumProviderClockHour_def split: if_splits option.splits)
  from assms(1) obtain c where c: "canonicalProviderDate date = Inr c"
    by (auto simp: ParseShowtimeRange_def result_simps)
  from canonicalProviderDate_form[OF c] obtain d where d: "ymdInRange d" "c = formatDateOnly d" by blast
  let ?s = "midnight d + (sh * 60 + sm) * minute" and ?e = "midnight d + (eh * 60 + em) * minute"
  have r: "startsAt = ?s" "endsAt = (if ?e \<le> ?s then ?e + 24 * hour else ?e)"
    using assms(1-3) c d by (auto simp: ParseShowtimeRange_def parse_formatDateOnly Let_def split: if_splits)
  have "startsAt < endsAt \<and> endsAt < midnight d + 48 * hour"
    using r upper assms(4-7) by (auto simp: duration_units)
  then show ?thesis using c d r by (auto simp: duration_units algebra_simps)
qed

definition seoul :: location where
  "seoul d = (epochDay d * 86400 - 32400) * second"

theorem ParseShowtimeRange_ordered_witness:
  "\<exists>s e. ParseShowtimeRange ''20250102'' ''2330'' ''0140'' (Some seoul) = Inr (s, e) \<and> s < e"
proof -
  have ok: "isOk (ParseShowtimeRange ''20250102'' ''2330'' ''0140'' (Some seoul))" by code_simp
  have "(case parseProviderClock ''2330'' of Inr x \<Rightarrow> x | Inl _ \<Rightarrow> (0, 0)) = (23, 30)"
    "(case parseProviderClock ''0140'' of Inr x \<Rightarrow> x | Inl _ \<Rightarrow> (0, 0)) = (1, 40)"
    "isOk (parseProviderClock ''2330'')" "isOk (parseProviderClock ''0140'')" by code_simp+
  then have c: "parseProviderClock ''2330'' = Inr (23, 30)" "parseProviderClock ''0140'' = Inr (1, 40)" by (auto simp: isOk_iff)
  from ok obtain s e where r: "ParseShowtimeRange ''20250102'' ''2330'' ''0140'' (Some seoul) = Inr (s, e)" by (auto simp: isOk_iff)
  from ParseShowtimeRange_ordered[OF r c] have "s < e" by auto
  then show ?thesis by (intro exI[of _ s] exI[of _ e] conjI r)
qed

text \<open>
  After 24:00 the single day added to the end does not suffice: a showtime from 2500 to 0030 is
  returned with its end half an hour before its start.
\<close>

lemma ParseShowtimeRange_late_start:
  "case ParseShowtimeRange ''20250102'' ''2500'' ''0030'' (Some seoul) of
     Inr (startsAt, endsAt) \<Rightarrow> endsAt = startsAt - 30 * minute | Inl _ \<Rightarrow> False"
  by code_simp


section \<open>Identifiers\<close>

lemma ToLower_trim_idem: "CatalogID p k s = CatalogID (TrimSpace p) k (TrimSpace s)"
  by (simp add: CatalogID_def)

lemma take_digest: "length (take 16 (Sum256 s)) = 16"
  by (simp add: Sum256_def sha256_length)




end
