(* ===== verification/CgvSchedule.thy ===== *)
theory CgvSchedule
  imports CgvIdentity GoJson GoUrl
begin

text \<open>
  Schedule collection (\<open>schedule_response.go\<close>, \<open>schedule_capture.go\<close>, \<open>schedule.go\<close> of
  \<open>internal/provider/cgv\<close>): reading the provider's schedule response, buffering the responses the
  browser observed, and turning them into one capture per date.

  The browser is the parameter: what evaluating an expression in the page returns, which provider
  responses arrive meanwhile, and how the later ticks of a wait turn out. A response body is its
  \<open>jsonBody\<close>; a \<open>json.RawMessage\<close> is the optional tree it holds, \<open>None\<close> when the field is absent.
  The clock read for the observation time of a showtime, and the log records, are left out.
\<close>

definition scheduleResponsePath :: string where
  "scheduleResponsePath = ''/api/v1/booking/searchMovScnInfo''"

definition theaterCatalogResponsePath :: string where
  "theaterCatalogResponsePath = ''/api/v1/content/site/searchAllRegionAndSite''"

definition seatMapResponsePath :: string where
  "seatMapResponsePath = ''/api/v1/booking/searchIfSeatData''"

definition maxScheduleResponseBytes :: nat where "maxScheduleResponseBytes = 8 * 2 ^ 20"
definition maxCapturedProviderResponses :: nat where "maxCapturedProviderResponses = 32"

record providerScheduleRow =
  rwSiteNo :: string
  rwSiteName :: string
  rwMovieNo :: string
  rwMovieFileNo :: string
  rwMovieTitle :: string
  rwAuditoriumNo :: string
  rwAuditoriumName :: string
  rwDate :: string
  rwSequence :: string
  rwProductNo :: string
  rwStartClock :: string
  rwEndClock :: string
  rwAvailable :: int
  rwCapacity :: int


section \<open>Provider fields\<close>

fun stringValue :: "json option \<Rightarrow> string \<Rightarrow> string result" where
  "stringValue (Some (JString text)) field =
     (if TrimSpace text = [] then Inl (errNew (''provider field '' @ quoteGo field @ '' is empty''))
      else Inr (TrimSpace text))"
| "stringValue (Some (JNumber lit)) field =
     (if TrimSpace lit \<noteq> [] then Inr (TrimSpace lit)
      else Inl (errNew (''provider field '' @ quoteGo field @ '' is not a string or number'')))"
| "stringValue None field = Inl (errNew (''provider field '' @ quoteGo field @ '' is empty''))"
| "stringValue (Some JNull) field = Inl (errNew (''provider field '' @ quoteGo field @ '' is empty''))"
| "stringValue _ field = Inl (errNew (''provider field '' @ quoteGo field @ '' is not a string or number''))"

type_synonym rawRow = "string \<Rightarrow> json option"

definition requiredString :: "rawRow \<Rightarrow> string \<Rightarrow> string result" where
  "requiredString raw field =
    (case raw field of
       None \<Rightarrow> Inl (errNew (''required provider field '' @ quoteGo field @ '' is missing''))
     | Some v \<Rightarrow> stringValue (Some v) field)"

definition optionalProviderString :: "rawRow \<Rightarrow> string \<Rightarrow> string" where
  "optionalProviderString raw field =
    (case raw field of None \<Rightarrow> []
     | Some v \<Rightarrow> (case stringValue (Some v) field of Inr s \<Rightarrow> s | Inl _ \<Rightarrow> []))"

definition requiredInteger :: "json option \<Rightarrow> string \<Rightarrow> int result" where
  "requiredInteger raw field =
    (if raw = None \<or> raw = Some JNull then
       Inl (errNew (''required provider field '' @ quoteGo field @ '' is missing''))
     else bindR (stringValue raw field) (\<lambda>value.
       case Atoi value of
         Some i \<Rightarrow> Inr i
       | None \<Rightarrow> Inl (wrapE (''provider field '' @ quoteGo field @ '' is not an integer'')
                    (errNew (''strconv.Atoi: parsing '' @ quoteGo value)))))"

definition optionalInteger :: "rawRow \<Rightarrow> string \<Rightarrow> int result" where
  "optionalInteger raw field =
    (case raw field of None \<Rightarrow> Inr 0 | Some JNull \<Rightarrow> Inr 0 | Some v \<Rightarrow> requiredInteger (Some v) field)"

definition parseScheduleRow :: "rawRow \<Rightarrow> providerScheduleRow result" where
  "parseScheduleRow raw =
    bindR (requiredString raw ''siteNo'') (\<lambda>siteNo.
    bindR (requiredString raw ''movNo'') (\<lambda>movieNo.
    bindR (requiredString raw ''scnsNo'') (\<lambda>auditoriumNo.
    bindR (requiredString raw ''scnYmd'') (\<lambda>dateRaw.
    bindR (canonicalProviderDate dateRaw) (\<lambda>date.
    bindR (requiredString raw ''scnSseq'') (\<lambda>sequence.
    bindR (requiredString raw ''scnsrtTm'') (\<lambda>startClock.
    bindR (requiredString raw ''scnendTm'') (\<lambda>endClock.
    bindR (mapErr (wrapE ''invalid scnsrtTm'') (parseProviderClock startClock)) (\<lambda>_.
    bindR (mapErr (wrapE ''invalid scnendTm'') (parseProviderClock endClock)) (\<lambda>_.
    bindR (optionalInteger raw ''frSeatCnt'') (\<lambda>available.
    bindR (optionalInteger raw ''stcnt'') (\<lambda>capacity.
    Inr \<lparr>rwSiteNo = siteNo, rwSiteName = optionalProviderString raw ''siteNm'',
         rwMovieNo = movieNo, rwMovieFileNo = optionalProviderString raw ''movfNo'',
         rwMovieTitle = optionalProviderString raw ''movNm'', rwAuditoriumNo = auditoriumNo,
         rwAuditoriumName = optionalProviderString raw ''scnsNm'', rwDate = date, rwSequence = sequence,
         rwProductNo = optionalProviderString raw ''prodNo'', rwStartClock = startClock,
         rwEndClock = endClock, rwAvailable = available, rwCapacity = capacity\<rparr>))))))))))))"

text \<open>The envelope: fields by name, the raw parts kept as trees.\<close>

record scheduleEnvelope =
  evStatusCode :: "json option"
  evStatusMessage :: string
  evData :: "json option"

definition decodeRaw :: "json option decoder" where
  "decodeRaw j v = (Some j, None)"

definition decodeEnvelope :: "scheduleEnvelope decoder" where
  "decodeEnvelope = decodeStruct (fieldTable
    [(''statusCode'', onField evStatusCode (\<lambda>x v. v\<lparr>evStatusCode := x\<rparr>) decodeRaw),
     (''statusMessage'', onField evStatusMessage (\<lambda>x v. v\<lparr>evStatusMessage := x\<rparr>) decodeString),
     (''data'', onField evData (\<lambda>x v. v\<lparr>evData := x\<rparr>) decodeRaw)])"

definition zeroEnvelope :: scheduleEnvelope where
  "zeroEnvelope = \<lparr>evStatusCode = None, evStatusMessage = [], evData = None\<rparr>"

text \<open>A \<open>map[string]json.RawMessage\<close>: keys as they are, the last pair of a key wins.\<close>

fun decodeRowMap :: "rawRow decoder" where
  "decodeRowMap (JObject kvs) v = (map_of (rev kvs), None)"
| "decodeRowMap JNull v = (v, None)"
| "decodeRowMap _ v = (v, Some (typeError ''map[string]json.RawMessage''))"

fun parseRowsFrom :: "nat \<Rightarrow> rawRow list \<Rightarrow> providerScheduleRow list result" where
  "parseRowsFrom i [] = Inr []"
| "parseRowsFrom i (raw # raws) =
     bindR (mapErr (wrapE (''CGV schedule row '' @ Itoa (int i))) (parseScheduleRow raw)) (\<lambda>row.
     bindR (parseRowsFrom (Suc i) raws) (\<lambda>rows. Inr (row # rows)))"

definition parseScheduleResponse :: "jsonBody \<Rightarrow> providerScheduleRow list result" where
  "parseScheduleResponse payload =
    (if bSize payload = 0 \<or> maxScheduleResponseBytes < bSize payload then
       Inl (errNew (''invalid CGV schedule response size '' @ Itoa (int (bSize payload))))
     else case Unmarshal decodeEnvelope payload zeroEnvelope of
         (_, Some e) \<Rightarrow> Inl (wrapE ''decode CGV schedule response'' e)
       | (envelope, None) \<Rightarrow>
           bindR (requiredInteger (evStatusCode envelope) ''statusCode'') (\<lambda>statusCode.
           if statusCode \<noteq> 0 then
             (let message = TrimSpace (evStatusMessage envelope) in
              Inl (errNew (''CGV schedule response status '' @ Itoa statusCode @ '': '' @
                (if message = [] then ''provider returned a non-zero status'' else message))))
           else case evData envelope of
               None \<Rightarrow> Inl (errNew ''CGV schedule response data is missing'')
             | Some JNull \<Rightarrow> Inl (errNew ''CGV schedule response data is missing'')
             | Some j \<Rightarrow>
                 (case decodeSlice decodeRowMap (\<lambda>_. None) j [] of
                    (_, Some e) \<Rightarrow> Inl (wrapE ''decode CGV schedule rows'' e)
                  | (rawRows, None) \<Rightarrow> parseRowsFrom 0 rawRows)))"

definition providerResponsePath :: "string \<Rightarrow> string option" where
  "providerResponsePath rawURL =
    (case urlParse rawURL of
       Inl _ \<Rightarrow> None
     | Inr parsed \<Rightarrow>
         (let host = ToLower (Hostname parsed) in
          if host \<noteq> ''cgv.co.kr'' \<and> host \<noteq> ''www.cgv.co.kr'' then None
          else if uPath parsed \<in> {scheduleResponsePath, theaterCatalogResponsePath, seatMapResponsePath}
            then Some (uPath parsed) else None))"

definition scheduleResponseURL :: "string \<Rightarrow> bool" where
  "scheduleResponseURL rawURL \<longleftrightarrow> providerResponsePath rawURL = Some scheduleResponsePath"


section \<open>The buffer of provider responses\<close>

record capturedProviderResponse =
  cpPath :: string
  cpRequestURL :: string
  cpStatus :: int
  cpBody :: jsonBody
  cpErr :: "goerr option"

definition noBody :: jsonBody where
  "noBody = \<lparr>bSize = 0, bFirst = None, bRest = None\<rparr>"

definition statusError :: "sentinel \<Rightarrow> int \<Rightarrow> goerr" where
  "statusError s status = wrapS s (''HTTP '' @ Itoa status)"

definition providerHTTPSentinel :: "int \<Rightarrow> sentinel" where
  "providerHTTPSentinel status =
    (if 300 \<le> status \<and> status \<le> 399 then ErrUIContractChanged
     else if status = 400 \<or> status = 422 then ErrProviderInvalidResult
     else if status = 401 then ErrAuthenticationRequired
     else if status = 403 then ErrProviderAccessBlocked
     else if status = 408 \<or> status = 504 then DeadlineExceeded
     else if status = 429 then ErrProviderThrottled
     else if 500 \<le> status \<and> status \<le> 599 then ErrProviderServerError
     else if 400 \<le> status \<and> status \<le> 499 then ErrUIContractChanged
     else ErrProviderTransport)"

definition providerHTTPError :: "int \<Rightarrow> goerr" where
  "providerHTTPError status = statusError (providerHTTPSentinel status) status"

text \<open>A response as the browser hands it over.\<close>

record browserResponse =
  brURL :: string
  brStatus :: int
  brBody :: "jsonBody result"

definition capturedOf :: "string \<Rightarrow> browserResponse \<Rightarrow> capturedProviderResponse" where
  "capturedOf path response =
    (let body = (case brBody response of Inr b \<Rightarrow> b | Inl _ \<Rightarrow> noBody);
         readErr = (case brBody response of Inl e \<Rightarrow> Some (wrapSE ErrProviderTransport ''read provider response body'' e) | Inr _ \<Rightarrow> None);
         err = (if brStatus response < 200 \<or> 299 < brStatus response
                then errorsJoin [Some (providerHTTPError (brStatus response)), readErr] else readErr)
     in if err = None \<and> maxScheduleResponseBytes < bSize body then
          \<lparr>cpPath = path, cpRequestURL = brURL response, cpStatus = brStatus response, cpBody = noBody,
           cpErr = Some (errNew (''CGV provider response exceeds '' @ Itoa (int maxScheduleResponseBytes) @ '' bytes''))\<rparr>
        else \<lparr>cpPath = path, cpRequestURL = brURL response, cpStatus = brStatus response, cpBody = body, cpErr = err\<rparr>)"

definition captureProviderResponse :: "browserResponse \<Rightarrow> capturedProviderResponse list \<Rightarrow> capturedProviderResponse list" where
  "captureProviderResponse response buffer =
    (case providerResponsePath (brURL response) of
       None \<Rightarrow> buffer
     | Some path \<Rightarrow>
         if maxCapturedProviderResponses \<le> length buffer then
           (if length buffer = maxCapturedProviderResponses then
              buffer @ [\<lparr>cpPath = path, cpRequestURL = [], cpStatus = 0, cpBody = noBody,
                         cpErr = Some (errNew ''CGV provider response capture limit exceeded'')\<rparr>]
            else buffer)
         else buffer @ [capturedOf path response])"

definition takeProviderResponses ::
  "string list \<Rightarrow> capturedProviderResponse list \<Rightarrow> capturedProviderResponse list \<times> capturedProviderResponse list" where
  "takeProviderResponses paths buffer = (filter (\<lambda>r. cpPath r \<in> set paths) buffer, [])"

text \<open>\<open>url.ParseQuery\<close>: pairs between ampersands, none with a semicolon or a bad escape.\<close>

fun unescapeQuery :: "string \<Rightarrow> string option" where
  "unescapeQuery [] = Some []"
| "unescapeQuery (c # s) =
     (if c = CHR ''%'' then
        (case s of
           a # b # r \<Rightarrow>
             (case (hexVal a, hexVal b) of
                (Some x, Some y) \<Rightarrow> map_option ((#) (char_of (16 * x + y))) (unescapeQuery r)
              | _ \<Rightarrow> None)
         | _ \<Rightarrow> None)
      else map_option ((#) (if c = CHR ''+'' then CHR 0x20 else c)) (unescapeQuery s))"

definition queryValueOf :: "string \<Rightarrow> string option" where
  "queryValueOf pair =
    (if pair = [] \<or> CHR '';'' \<in> set pair then None
     else case cutChar (CHR ''='') pair of
         (k, v) \<Rightarrow> (case (unescapeQuery k, unescapeQuery (case v of Some x \<Rightarrow> x | None \<Rightarrow> [])) of
             (Some _, Some x) \<Rightarrow> Some x | _ \<Rightarrow> None))"

definition queryValues :: "string \<Rightarrow> string list" where
  "queryValues q = List.map_filter queryValueOf (Split (CHR ''&'') q)"

definition compactDate :: "string \<Rightarrow> string" where
  "compactDate s = deleteChar (CHR ''-'') s"

definition scheduleResponseTargetsDate :: "capturedProviderResponse \<Rightarrow> string \<Rightarrow> bool" where
  "scheduleResponseTargetsDate response targetDate =
    (if cpPath response \<noteq> scheduleResponsePath then False
     else
       (let target = compactDate (TrimSpace targetDate) in
        (case urlParse (cpRequestURL response) of
           Inr parsed \<Rightarrow> (\<exists>v \<in> set (queryValues (uRawQuery parsed)). compactDate (TrimSpace v) = target)
         | Inl _ \<Rightarrow> False)
        \<or> (case parseScheduleResponse (cpBody response) of
             Inr rows \<Rightarrow> (\<exists>row \<in> set rows. compactDate (rwDate row) = target)
           | Inl _ \<Rightarrow> False)))"

text \<open>
  The wait: at each tick the buffer is looked at; the list gives the ticks in order, with the
  responses that arrive before the next one; when it ends, the deadline has passed.
\<close>

datatype tick = Tick "browserResponse list" | ContextDone goerr

fun waitTicks :: "string \<Rightarrow> tick list \<Rightarrow> capturedProviderResponse list \<Rightarrow> unit result \<times> capturedProviderResponse list" where
  "waitTicks target [] buffer =
     (if \<exists>r \<in> set buffer. scheduleResponseTargetsDate r target then (Inr (), buffer)
      else (Inl (Sentinel DeadlineExceeded), buffer))"
| "waitTicks target (t # ts) buffer =
     (if \<exists>r \<in> set buffer. scheduleResponseTargetsDate r target then (Inr (), buffer)
      else case t of
          ContextDone e \<Rightarrow> (Inl e, buffer)
        | Tick arrived \<Rightarrow> waitTicks target ts (fold captureProviderResponse arrived buffer))"

definition waitForScheduleResponseReady ::
  "string \<Rightarrow> duration \<Rightarrow> tick list \<Rightarrow> capturedProviderResponse list \<Rightarrow> unit result \<times> capturedProviderResponse list" where
  "waitForScheduleResponseReady target timeout ticks buffer =
    (if timeout \<le> 0 then (Inl (Sentinel DeadlineExceeded), buffer) else waitTicks target ticks buffer)"

text \<open>
  \<open>handleProviderFailure\<close>: the handler, when there is one, is told of the error; \<open>report\<close> is its
  answer. The error itself is always part of the result.
\<close>

definition handleProviderFailure :: "(goerr \<Rightarrow> unit result) option \<Rightarrow> goerr \<Rightarrow> goerr" where
  "handleProviderFailure handler e =
    (case handler of None \<Rightarrow> e
     | Some report \<Rightarrow> (case report e of
           Inr _ \<Rightarrow> e
         | Inl reportErr \<Rightarrow> Joined [e, wrapE ''report CGV provider failure'' reportErr]))"

definition rowKey :: "providerScheduleRow \<Rightarrow> string" where
  "rowKey row = showtimeSourceKey (rwSiteNo row) (rwDate row) (rwAuditoriumNo row) (rwSequence row)"

fun collectRows ::
  "(goerr \<Rightarrow> unit result) option \<Rightarrow> capturedProviderResponse list \<Rightarrow> string list \<Rightarrow> providerScheduleRow list result" where
  "collectRows handler [] seen = Inr []"
| "collectRows handler (c # cs) seen =
     (case cpErr c of
        Some e \<Rightarrow> Inl (handleProviderFailure handler e)
      | None \<Rightarrow>
          bindR (parseScheduleResponse (cpBody c)) (\<lambda>parsed.
          let kept = keepFirstFrom rowKey seen parsed in
          bindR (collectRows handler cs (map rowKey kept @ seen)) (\<lambda>rows. Inr (kept @ rows))))"

definition captureScheduleRows ::
  "(goerr \<Rightarrow> unit result) option \<Rightarrow> capturedProviderResponse list \<Rightarrow>
   providerScheduleRow list result \<times> capturedProviderResponse list" where
  "captureScheduleRows handler buffer =
    (let (captures, buffer') = takeProviderResponses [scheduleResponsePath] buffer in
     (if captures = [] then Inl (Sentinel ErrScheduleResponseMissing) else collectRows handler captures [], buffer'))"


section \<open>Schedules\<close>

record ScheduleTheater =
  stID :: string
  stProviderID :: string
  stSourceKey :: string
  stRegion :: string
  stName :: string

record ScheduleShowtime =
  shID :: string
  shProviderID :: string
  shSourceKey :: string
  shTheaterID :: string
  shMovieID :: string
  shMovieSourceKey :: string
  shMovieTitle :: string
  shPosterURL :: string
  shAuditoriumID :: string
  shAuditoriumSourceKey :: string
  shAuditoriumName :: string
  shScreenTypes :: "string list"
  shDate :: string
  shStartsAt :: string
  shEndsAt :: string
  shAvailableSeats :: int
  shCapacity :: int
  shSoldOut :: bool
  shObservedAt :: instant
  shSourceLabel :: string

record scheduleEntry =
  seShowtime :: ScheduleShowtime
  seAuditoriumName :: string
  seScreenTypes :: "string list"

record ScheduleCapture =
  scTargetDate :: string
  scComplete :: bool
  scError :: string
  scShowtimes :: "ScheduleShowtime list"

text \<open>\<open>normalize\<close>, here under a longer name.\<close>

definition normalizeText :: "string \<Rightarrow> string" where
  "normalizeText value = Join (Fields value) '' ''"

definition screenTypeTokens :: "string list" where
  "screenTypeTokens = [''ULTRA 4DX'', ''SCREENX'', ''IMAX'', ''4DX'', ''DOLBY ATMOS'', ''PREMIUM'',
     ''CINE DE CHEF'', ''CGV'' @ [CHR 0xEC, CHR 0x95, CHR 0x84, CHR 0xED, CHR 0x8A, CHR 0xB8, CHR 0xED, CHR 0x95, CHR 0x98, CHR 0xEC, CHR 0x9A, CHR 0xB0, CHR 0xEC, CHR 0x8A, CHR 0xA4], ''LASER'', ''2D'', ''3D'']"

definition detectScreenTypes :: "string \<Rightarrow> string list" where
  "detectScreenTypes value = filter (\<lambda>t. Contains (ToUpper value) (ToUpper t)) screenTypeTokens"

definition auditoriumSuffixes :: "string list" where
  "auditoriumSuffixes = [''SCREENX DOLBY ATMOS mix 2D'', ''IMAX LASER 2D'', ''ULTRA 4DX 2D'',
     ''SCREENX 2D'', ''4DX 2D'', ''DOLBY ATMOS 2D'', ''2D'', ''3D'']"

definition parseAuditorium :: "string \<Rightarrow> string \<Rightarrow> string \<times> string list" where
  "parseAuditorium group0 structured0 =
    (let group = normalizeText group0; structuredName = normalizeText structured0;
         types = detectScreenTypes (group @ '' '' @ structuredName)
     in if structuredName \<noteq> [] then (structuredName, types)
        else if group = [] \<or> group = ''2D'' \<or> group = ''3D'' then ([], types)
        else (fold (\<lambda>token name. TrimSpace (TrimSuffix name token)) auditoriumSuffixes group, types))"

text \<open>\<open>now\<close> is the reading of the clock while the row is converted.\<close>

definition scheduleEntryFromProviderRow :: "instant \<Rightarrow> providerScheduleRow \<Rightarrow> ScheduleTheater \<Rightarrow> scheduleEntry result" where
  "scheduleEntryFromProviderRow now row theater =
    (let siteNo = TrimSpace (stSourceKey theater) in
     if stProviderID theater \<noteq> ProviderCGV \<or> \<not> providerSiteIdentifier siteNo
        \<or> stID theater \<noteq> CatalogID ProviderCGV ''theater'' siteNo then
       Inl (wrapS ErrIdentityMismatch ''CGV theater identity is not canonical'')
     else if rwSiteNo row \<noteq> siteNo then
       Inl (wrapS ErrIdentityMismatch (''CGV schedule row siteNo '' @ quoteGo (rwSiteNo row) @ '' does not match theater identity''))
     else let (auditoriumName, screenTypes) = parseAuditorium [] (rwAuditoriumName row) in
       if auditoriumName = [] then
         Inl (errNew (''CGV schedule row '' @ quoteGo (rwSequence row) @ '' has no auditorium display name''))
       else
         (let movieSource = movieSourceKey (rwMovieNo row);
              auditoriumSource = auditoriumSourceKey (rwSiteNo row) (rwAuditoriumNo row);
              showtimeSource = rowKey row
          in Inr \<lparr>seShowtime = \<lparr>shID = providerCatalogID ''showtime'' showtimeSource, shProviderID = ProviderCGV,
                shSourceKey = showtimeSource, shTheaterID = stID theater,
                shMovieID = providerCatalogID ''movie'' movieSource, shMovieSourceKey = movieSource,
                shMovieTitle = rwMovieTitle row, shPosterURL = [],
                shAuditoriumID = providerCatalogID ''auditorium'' auditoriumSource,
                shAuditoriumSourceKey = auditoriumSource, shAuditoriumName = auditoriumName,
                shScreenTypes = screenTypes, shDate = rwDate row, shStartsAt = rwStartClock row,
                shEndsAt = rwEndClock row, shAvailableSeats = rwAvailable row, shCapacity = rwCapacity row,
                shSoldOut = (rwAvailable row = 0), shObservedAt = now,
                shSourceLabel = Join [rwStartClock row, rwEndClock row, rwMovieTitle row, auditoriumName] '' ''\<rparr>,
              seAuditoriumName = auditoriumName, seScreenTypes = screenTypes\<rparr>))"

text \<open>The loop of \<open>extractSchedules\<close>: the rows of the site and date, first of each identifier.\<close>

definition targetRow :: "ScheduleTheater \<Rightarrow> providerScheduleRow \<Rightarrow> bool" where
  "targetRow theater row \<longleftrightarrow> rwSiteNo row = TrimSpace (stSourceKey theater)"

text \<open>The clock gives for each row the moment it is converted.\<close>

fun extractLoop :: "(providerScheduleRow \<Rightarrow> instant) \<Rightarrow> ScheduleTheater \<Rightarrow> string \<Rightarrow> string list \<Rightarrow> providerScheduleRow list \<Rightarrow> scheduleEntry list result" where
  "extractLoop clock theater date seen [] = Inr []"
| "extractLoop clock theater date seen (row # rows) =
     (if \<not> targetRow theater row \<or> rwDate row \<noteq> date then extractLoop clock theater date seen rows
      else bindR (scheduleEntryFromProviderRow (clock row) row theater) (\<lambda>entry.
        let i = shID (seShowtime entry) in
        if i \<in> set seen then extractLoop clock theater date seen rows
        else bindR (extractLoop clock theater date (i # seen) rows) (\<lambda>es. Inr (entry # es))))"

definition extractFromRows :: "(providerScheduleRow \<Rightarrow> instant) \<Rightarrow> string \<Rightarrow> ScheduleTheater \<Rightarrow> providerScheduleRow list \<Rightarrow> scheduleEntry list result" where
  "extractFromRows clock date theater rows =
    bindR (canonicalProviderDate date) (\<lambda>canonicalDate.
    bindR (extractLoop clock theater canonicalDate [] rows) (\<lambda>entries.
    let target = filter (targetRow theater) rows in
    if rows \<noteq> [] \<and> target = [] then
      Inl (wrapS ErrIdentityMismatch (''CGV schedule response contained no rows for theater siteNo ''
        @ quoteGo (TrimSpace (stSourceKey theater))))
    else if target \<noteq> [] \<and> filter (\<lambda>r. rwDate r = canonicalDate) target = [] then
      Inl (wrapS ErrIdentityMismatch (''CGV schedule response contained no rows for date '' @ quoteGo canonicalDate
        @ '' at theater siteNo '' @ quoteGo (TrimSpace (stSourceKey theater))))
    else Inr entries))"

definition extractSchedules ::
  "(providerScheduleRow \<Rightarrow> instant) \<Rightarrow> (goerr \<Rightarrow> unit result) option \<Rightarrow> string \<Rightarrow> ScheduleTheater \<Rightarrow> capturedProviderResponse list \<Rightarrow>
   scheduleEntry list result \<times> capturedProviderResponse list" where
  "extractSchedules clock handler date theater buffer =
    (case captureScheduleRows handler buffer of
       (Inl e, buffer') \<Rightarrow>
         (Inl (if errorsIs e ErrScheduleResponseMissing
               then Errorf (sentinelText ErrUIContractChanged @ '': '' @ errorText e) [Sentinel ErrUIContractChanged, e]
               else e), buffer')
     | (Inr rows, buffer') \<Rightarrow> (extractFromRows clock date theater rows, buffer'))"


section \<open>Asking the page for a date\<close>

text \<open>\<open>url.QueryEscape\<close>.\<close>

definition queryEscapeByte :: "char \<Rightarrow> string" where
  "queryEscapeByte c =
    (if isAlnum c \<or> c \<in> {CHR ''-'', CHR ''_'', CHR ''.'', CHR ''~''} then [c]
     else if c = CHR 0x20 then ''+''
     else [CHR ''%'', upperHex (of_char c div 16), upperHex (of_char c mod 16)])"

definition QueryEscape :: "string \<Rightarrow> string" where
  "QueryEscape s = concat (map queryEscapeByte s)"

definition scheduleRequestPath :: "string \<Rightarrow> string \<Rightarrow> string result" where
  "scheduleRequestPath isoDate siteNo0 =
    bindR (canonicalProviderDate isoDate) (\<lambda>canonicalDate.
    let siteNo = TrimSpace siteNo0 in
    if \<not> providerSiteIdentifier siteNo then
      Inl (wrapS ErrIdentityMismatch (''invalid CGV theater siteNo '' @ quoteGo siteNo))
    else Inr (scheduleResponsePath @ ''?coCd=A420&rtctlScopCd=08&scnYmd='' @ QueryEscape (compactDate canonicalDate)
      @ ''&siteNo='' @ QueryEscape siteNo))"

text \<open>
  What the page does with a request: the status the evaluated fetch returns or its error, the
  responses seen while it ran, and the ticks of the wait after it.
\<close>

record pageReply =
  pgStatus :: "int result"
  pgArrived :: "browserResponse list"
  pgTicks :: "tick list"

record captureEnv =
  ceHandler :: "(goerr \<Rightarrow> unit result) option"
  ceRateLimit :: "string \<Rightarrow> goerr option"
  cePage :: "string \<Rightarrow> pageReply"
  ceClock :: "providerScheduleRow \<Rightarrow> instant"

definition requestScheduleDateFromPage ::
  "captureEnv \<Rightarrow> string \<Rightarrow> string \<Rightarrow> capturedProviderResponse list \<Rightarrow> unit result \<times> capturedProviderResponse list" where
  "requestScheduleDateFromPage env isoDate siteNo buffer =
    (case scheduleRequestPath isoDate siteNo of
       Inl e \<Rightarrow> (Inl e, buffer)
     | Inr path \<Rightarrow>
         (case ceRateLimit env (''https://cgv.co.kr'' @ path) of
            Some e \<Rightarrow> (Inl e, buffer)
          | None \<Rightarrow>
              (let reply = cePage env path; buffer1 = fold captureProviderResponse (pgArrived reply) [] in
               case pgStatus reply of
                 Inl e \<Rightarrow> (Inl (wrapE ''request CGV schedule from booking page'' e), buffer1)
               | Inr status \<Rightarrow>
                   if status < 200 \<or> 299 < status then
                     (Inl (handleProviderFailure (ceHandler env) (providerHTTPError status)), buffer1)
                   else (case waitForScheduleResponseReady isoDate (2 * second) (pgTicks reply) buffer1 of
                       (Inl e, buffer2) \<Rightarrow> (Inl (wrapE ''wait for CGV schedule response'' e), buffer2)
                     | (Inr u, buffer2) \<Rightarrow> (Inr u, buffer2)))))"

definition completeCapture :: "string \<Rightarrow> scheduleEntry list \<Rightarrow> ScheduleCapture" where
  "completeCapture date entries = \<lparr>scTargetDate = date, scComplete = True, scError = [],
     scShowtimes = map seShowtime entries\<rparr>"

definition failedCapture :: "string \<Rightarrow> goerr \<Rightarrow> ScheduleCapture" where
  "failedCapture date e = \<lparr>scTargetDate = date, scComplete = False, scError = errorText e, scShowtimes = []\<rparr>"

text \<open>
  One date of \<open>captureSelectedSchedules\<close>: \<open>Inl\<close> stops the scan. The whole returns the captures so
  far with the error that stopped it, if any.
\<close>

definition captureDate ::
  "captureEnv \<Rightarrow> ScheduleTheater \<Rightarrow> string \<Rightarrow> capturedProviderResponse list \<Rightarrow>
   (goerr + ScheduleCapture) \<times> capturedProviderResponse list" where
  "captureDate env theater targetDate buffer =
    (case canonicalProviderDate targetDate of
       Inl e \<Rightarrow> (Inr (failedCapture targetDate e), buffer)
     | Inr canonicalDate \<Rightarrow>
         (case requestScheduleDateFromPage env canonicalDate (stSourceKey theater) buffer of
            (Inl e, buffer1) \<Rightarrow>
              (if errorsIs e ErrProviderThrottled then (Inl e, buffer1)
               else (Inr (failedCapture canonicalDate e), buffer1))
          | (Inr _, buffer1) \<Rightarrow>
              (case extractSchedules (ceClock env) (ceHandler env) canonicalDate theater buffer1 of
                 (Inl e, buffer2) \<Rightarrow>
                   (if errorsIs e ErrProviderThrottled then (Inl e, buffer2)
                    else (Inr (failedCapture canonicalDate e), buffer2))
               | (Inr entries, buffer2) \<Rightarrow> (Inr (completeCapture canonicalDate entries), buffer2))))"

fun captureSelectedSchedules ::
  "captureEnv \<Rightarrow> ScheduleTheater \<Rightarrow> string list \<Rightarrow> capturedProviderResponse list \<Rightarrow>
   (ScheduleCapture list \<times> goerr option) \<times> capturedProviderResponse list" where
  "captureSelectedSchedules env theater [] buffer = (([], None), buffer)"
| "captureSelectedSchedules env theater (d # ds) buffer =
     (case captureDate env theater d buffer of
        (Inl e, buffer') \<Rightarrow> (([], Some e), buffer')
      | (Inr c, buffer') \<Rightarrow>
          (case captureSelectedSchedules env theater ds buffer' of
             ((cs, e), buffer'') \<Rightarrow> ((c # cs, e), buffer'')))"


section \<open>Which dates\<close>

definition canonicalWeekday :: "string \<Rightarrow> (string \<times> int) result" where
  "canonicalWeekday value =
    bindR (canonicalProviderDate value) (\<lambda>canonical.
      case parseDateOnly canonical of
        Some d \<Rightarrow> Inr (canonical, weekday d)
      | None \<Rightarrow> Inl (wrapE (''parse provider schedule date '' @ quoteGo value) (errNew ''parsing time'')))"

definition filterScheduleDatesByWeekdays :: "string list \<Rightarrow> int list \<Rightarrow> string list result" where
  "filterScheduleDatesByWeekdays dates weekdays =
    (case find (\<lambda>w. w < 0 \<or> 6 < w) weekdays of
       Some w \<Rightarrow> Inl (wrapS ErrIdentityMismatch (''invalid schedule weekday '' @ Itoa w))
     | None \<Rightarrow>
         if weekdays = [] then Inr dates
         else bindR (mapR canonicalWeekday dates) (\<lambda>cs. Inr (map fst (filter (\<lambda>(c, w). w \<in> set weekdays) cs))))"

definition koreanWeekdays :: "string list" where
  "koreanWeekdays = [[CHR 0xEC, CHR 0x9D, CHR 0xBC], [CHR 0xEC, CHR 0x9B, CHR 0x94], [CHR 0xED, CHR 0x99, CHR 0x94], [CHR 0xEC, CHR 0x88, CHR 0x98],
     [CHR 0xEB, CHR 0xAA, CHR 0xA9], [CHR 0xEA, CHR 0xB8, CHR 0x88], [CHR 0xED, CHR 0x86, CHR 0xA0]]"

definition koreanToday :: string where
  "koreanToday = [CHR 0xEC, CHR 0x98, CHR 0xA4, CHR 0xEB, CHR 0x8A, CHR 0x98]"

definition dayText :: "ymd \<Rightarrow> string" where
  "dayText d = zeroPad 2 (natStr (nat (dy d)))"

definition dateSelectionLabels :: "ymd \<Rightarrow> ymd \<Rightarrow> string list" where
  "dateSelectionLabels parsed now =
    (let d = dayText parsed; w = koreanWeekdays ! nat (weekday parsed);
         labels = [w @ '' '' @ d, w @ d, d @ '' '' @ w, d @ w]
     in if now = parsed then [koreanToday @ '' '' @ d, koreanToday @ d, d @ '' '' @ koreanToday, d @ koreanToday] @ labels
        else labels)"

text \<open>The scan of 400 days from today; \<open>remaining\<close> holds the labels not yet matched.\<close>

fun scanDates :: "ymd \<Rightarrow> nat \<Rightarrow> ymd \<Rightarrow> string list \<Rightarrow> ymd list" where
  "scanDates today 0 candidate remaining = []"
| "scanDates today (Suc n) candidate remaining =
     (if remaining = [] then []
      else let variants = map normalizeText (dateSelectionLabels candidate today) in
        if \<exists>v \<in> set variants. v \<in> set remaining then
          candidate # scanDates today n (nextDay candidate) (filter (\<lambda>l. l \<notin> set variants) remaining)
        else scanDates today n (nextDay candidate) remaining)"

definition availableScheduleDatesFromLabels :: "string list \<Rightarrow> ymd \<Rightarrow> string list result" where
  "availableScheduleDatesFromLabels labels today =
    (let dates = scanDates today 400 today (map normalizeText labels) in
     if dates = [] then Inl (wrapS ErrUIContractChanged ''no selectable schedule dates'')
     else Inr (map formatDateOnly dates))"


section \<open>Choosing the theater\<close>

text \<open>
  What the page answers to a click, a query, a navigation or a wait, each in its turn: the operations
  take and return the state of the page.
\<close>

record 'b pageOps =
  poNavigate :: "'b \<Rightarrow> unit result \<times> 'b"
  poWait :: "duration \<Rightarrow> 'b \<Rightarrow> unit result \<times> 'b"
  poClickExact :: "string \<Rightarrow> 'b \<Rightarrow> bool result \<times> 'b"
  poClickPrefix :: "string \<Rightarrow> 'b \<Rightarrow> bool result \<times> 'b"
  poExists :: "string \<Rightarrow> 'b \<Rightarrow> bool result \<times> 'b"

record 'b selection =
  slRegion :: string
  slTheater :: string
  slPage :: 'b

definition favoriteEditorLabel :: string where
  "favoriteEditorLabel = [CHR 0xEC, CHR 0x9E, CHR 0x90, CHR 0xEC, CHR 0xA3, CHR 0xBC, CHR 0xEA, CHR 0xB0, CHR 0x80, CHR 0xEB, CHR 0x8A, CHR 0x94] @ '' CGV '' @ [CHR 0xEB, CHR 0xAA, CHR 0xA9, CHR 0xEB, CHR 0xA1, CHR 0x9D] @ '' '' @ [CHR 0xEC, CHR 0x88, CHR 0x98, CHR 0xEC, CHR 0xA0, CHR 0x95]"

definition chooseTheaterLabel :: string where
  "chooseTheaterLabel = [CHR 0xEA, CHR 0xB7, CHR 0xB9, CHR 0xEC, CHR 0x9E, CHR 0xA5, CHR 0xEC, CHR 0x84, CHR 0xA0, CHR 0xED, CHR 0x83, CHR 0x9D]"

definition openFavoriteCinemaEditorAndSelectRegion :: "'b pageOps \<Rightarrow> string \<Rightarrow> 'b \<Rightarrow> bool result \<times> 'b" where
  "openFavoriteCinemaEditorAndSelectRegion ops region b =
    (case poClickExact ops favoriteEditorLabel b of
       (Inl e, b1) \<Rightarrow> (Inl e, b1)
     | (Inr False, b1) \<Rightarrow> (Inr False, b1)
     | (Inr True, b1) \<Rightarrow>
         (case poWait ops (200 * millisecond) b1 of
            (Inl e, b2) \<Rightarrow> (Inl e, b2)
          | (Inr _, b2) \<Rightarrow> poClickPrefix ops (region @ ''('') b2))"

definition selectCinemaRegion :: "'b pageOps \<Rightarrow> string \<Rightarrow> 'b \<Rightarrow> unit result \<times> 'b" where
  "selectCinemaRegion ops region b =
    (case poClickPrefix ops (region @ ''('') b of
       (Inl e, b1) \<Rightarrow> (Inl e, b1)
     | (Inr clicked, b1) \<Rightarrow>
         (case (if clicked then (Inr True, b1) else openFavoriteCinemaEditorAndSelectRegion ops region b1) of
            (Inl e, b2) \<Rightarrow> (Inl e, b2)
          | (Inr False, b2) \<Rightarrow> (Inl (wrapS ErrUIContractChanged (''region button '' @ quoteGo region @ '' not found'')), b2)
          | (Inr True, b2) \<Rightarrow> (Inr (), b2)))"

definition selectCinemaTheater :: "'b pageOps \<Rightarrow> string \<Rightarrow> string \<Rightarrow> 'b selection \<Rightarrow> unit result \<times> 'b selection" where
  "selectCinemaTheater ops region theaterName s =
    (if slRegion s = region \<and> slTheater s = theaterName then (Inr (), s)
     else case poNavigate ops (slPage s) of
       (Inl e, b1) \<Rightarrow> (Inl (wrapE ''open CGV cinema booking'' e), s\<lparr>slPage := b1\<rparr>)
     | (Inr _, b1) \<Rightarrow>
    (case selectCinemaRegion ops region b1 of
       (Inl e, b2) \<Rightarrow> (Inl e, s\<lparr>slPage := b2\<rparr>)
     | (Inr _, b2) \<Rightarrow>
    (case poWait ops (150 * millisecond) b2 of
       (Inl e, b3) \<Rightarrow> (Inl e, s\<lparr>slPage := b3\<rparr>)
     | (Inr _, b3) \<Rightarrow>
    (case poClickExact ops theaterName b3 of
       (Inl e, b4) \<Rightarrow> (Inl e, s\<lparr>slPage := b4\<rparr>)
     | (Inr False, b4) \<Rightarrow>
         (Inl (wrapS ErrUIContractChanged (''theater button '' @ quoteGo theaterName @ '' not found'')), s\<lparr>slPage := b4\<rparr>)
     | (Inr True, b4) \<Rightarrow>
    (case poWait ops (200 * millisecond) b4 of
       (Inl e, b5) \<Rightarrow> (Inl e, s\<lparr>slPage := b5\<rparr>)
     | (Inr _, b5) \<Rightarrow>
    (case poExists ops chooseTheaterLabel b5 of (found, b6) \<Rightarrow>
     let b7 = (if found = Inr True then snd (poClickExact ops chooseTheaterLabel b6) else b6) in
     case poWait ops (800 * millisecond) b7 of
       (Inl e, b8) \<Rightarrow> (Inl e, s\<lparr>slPage := b8\<rparr>)
     | (Inr _, b8) \<Rightarrow> (Inr (), s\<lparr>slPage := b8, slTheater := theaterName, slRegion := region\<rparr>)))))))"

text \<open>
  \<open>captureSchedules\<close> and the weekday shard. The context's error, the rate limit of the booking page,
  the selection and the labels of the date buttons are what the preceding steps returned.
\<close>

record scanStart =
  ssCtxErr :: "goerr option"
  ssRateLimitErr :: "goerr option"
  ssSelect :: "unit result"
  ssLabels :: "string list result"
  ssToday :: ymd

definition startScan :: "scanStart \<Rightarrow> unit result" where
  "startScan s =
    (case ssCtxErr s of Some e \<Rightarrow> Inl e | None \<Rightarrow>
     (case ssRateLimitErr s of Some e \<Rightarrow> Inl e | None \<Rightarrow> ssSelect s))"

definition availableScheduleDates :: "scanStart \<Rightarrow> string list result" where
  "availableScheduleDates s =
    bindR (mapErr (wrapE ''read CGV schedule dates'') (ssLabels s)) (\<lambda>labels.
      availableScheduleDatesFromLabels labels (ssToday s))"

definition chooseDates :: "scanStart \<Rightarrow> string list \<Rightarrow> int list \<Rightarrow> string list result" where
  "chooseDates s requestedDates weekdays =
    (if requestedDates \<noteq> [] then Inr requestedDates
     else bindR (availableScheduleDates s) (\<lambda>dates.
       if weekdays \<noteq> [] then filterScheduleDatesByWeekdays dates weekdays else Inr dates))"

definition captureSchedules ::
  "captureEnv \<Rightarrow> scanStart \<Rightarrow> ScheduleTheater \<Rightarrow> string list \<Rightarrow> int list \<Rightarrow> capturedProviderResponse list \<Rightarrow>
   (ScheduleCapture list \<times> goerr option) \<times> capturedProviderResponse list" where
  "captureSchedules env s theater requestedDates weekdays buffer =
    (case bindR (startScan s) (\<lambda>_. chooseDates s requestedDates weekdays) of
       Inl e \<Rightarrow> (([], Some e), buffer)
     | Inr dates \<Rightarrow> captureSelectedSchedules env theater dates buffer)"

definition CaptureScheduleWeekdayShard ::
  "captureEnv \<Rightarrow> scanStart \<Rightarrow> ScheduleTheater \<Rightarrow> int list \<Rightarrow> int \<Rightarrow> capturedProviderResponse list \<Rightarrow>
   (ScheduleCapture list \<times> goerr option) \<times> capturedProviderResponse list" where
  "CaptureScheduleWeekdayShard env s theater weekdays shard buffer =
    (case bindR (startScan s) (\<lambda>_. bindR (availableScheduleDates s) (\<lambda>dates. filterScheduleDatesByWeekdays dates weekdays)) of
       Inl e \<Rightarrow> (([], Some e), buffer)
     | Inr dates \<Rightarrow>
         if dates = [] then (([], None), buffer)
         else captureSelectedSchedules env theater [dates ! nat (max shard 0 mod int (length dates))] buffer)"


section \<open>Extraction\<close>

lemma scheduleEntry_fields:
  assumes "scheduleEntryFromProviderRow now row theater = Inr e"
  shows "shID (seShowtime e) = providerCatalogID ''showtime'' (rowKey row) \<and> shSourceKey (seShowtime e) = rowKey row
    \<and> shTheaterID (seShowtime e) = stID theater \<and> shDate (seShowtime e) = rwDate row
    \<and> shAuditoriumName (seShowtime e) \<noteq> [] \<and> stID theater = CatalogID ProviderCGV ''theater'' (TrimSpace (stSourceKey theater))"
  using assms by (auto simp: scheduleEntryFromProviderRow_def Let_def split: if_splits prod.splits)

definition wantedRow :: "ScheduleTheater \<Rightarrow> string \<Rightarrow> providerScheduleRow \<Rightarrow> bool" where
  "wantedRow theater date row \<longleftrightarrow> targetRow theater row \<and> rwDate row = date"

lemma extractLoop_sound:
  assumes "extractLoop clock theater date seen rows = Inr es" "e \<in> set es"
  shows "\<exists>row \<in> set rows. wantedRow theater date row \<and> scheduleEntryFromProviderRow (clock row) row theater = Inr e"
  using assms
proof (induction rows arbitrary: seen es)
  case Nil
  then show ?case by simp
next
  case (Cons row rows)
  then show ?case by (force simp: result_simps Let_def wantedRow_def split: if_splits)
qed

lemma extractLoop_ids:
  assumes "extractLoop clock theater date seen rows = Inr es"
  shows "distinct (map (shID \<circ> seShowtime) es) \<and>
    set (map (shID \<circ> seShowtime) es)
      = (\<lambda>row. providerCatalogID ''showtime'' (rowKey row)) ` set (filter (wantedRow theater date) rows) - set seen"
  using assms
proof (induction rows arbitrary: seen es)
  case Nil
  then show ?case by simp
next
  case (Cons row rows)
  show ?case
  proof (cases "wantedRow theater date row")
    case False
    then show ?thesis using Cons by (auto simp: wantedRow_def split: if_splits)
  next
    case True
    then obtain e where e: "scheduleEntryFromProviderRow (clock row) row theater = Inr e"
      using Cons.prems by (auto simp: wantedRow_def result_simps split: if_splits)
    note i = scheduleEntry_fields[OF e]
    show ?thesis
    proof (cases "shID (seShowtime e) \<in> set seen")
      case True
      then have "extractLoop clock theater date seen rows = Inr es"
        using Cons.prems e \<open>wantedRow theater date row\<close> by (simp add: wantedRow_def Let_def)
      from Cons.IH[OF this] show ?thesis using i True \<open>wantedRow theater date row\<close> by auto
    next
      case False
      then obtain es' where es': "extractLoop clock theater date (shID (seShowtime e) # seen) rows = Inr es'" "es = e # es'"
        using Cons.prems e \<open>wantedRow theater date row\<close> by (auto simp: wantedRow_def Let_def result_simps)
      from Cons.IH[OF this(1)] show ?thesis using i es'(2) False \<open>wantedRow theater date row\<close> by auto
    qed
  qed
qed

lemma extractFromRows_Inr:
  "extractFromRows clock date theater rows = Inr es \<Longrightarrow> \<exists>c. canonicalProviderDate date = Inr c \<and> extractLoop clock theater c [] rows = Inr es
     \<and> (rows \<noteq> [] \<longrightarrow> filter (wantedRow theater c) rows \<noteq> [])"
  by (auto simp: extractFromRows_def result_simps Let_def wantedRow_def filter_empty_conv split: if_splits)

text \<open>
  C22. Extraction is sound and complete: when \<open>extractSchedules\<close> accepts a set of provider rows, its
  showtimes are exactly those of the rows of the assigned site on the requested date, one for
  each catalog identifier, all of them under the assigned theater and date; rows of linked venues
  and other dates never enter, and a response with rows but none for the assignment is an error, so
  an accepted response that is not empty never yields an empty schedule.
\<close>

theorem extractFromRows_exact:
  assumes "extractFromRows clock date theater rows = Inr es"
  shows "\<exists>c. canonicalProviderDate date = Inr c
    \<and> distinct (map (shID \<circ> seShowtime) es)
    \<and> set (map (shID \<circ> seShowtime) es)
        = (\<lambda>row. providerCatalogID ''showtime'' (rowKey row)) ` {row \<in> set rows. rwSiteNo row = TrimSpace (stSourceKey theater) \<and> rwDate row = c}
    \<and> (\<forall>e \<in> set es. shTheaterID (seShowtime e) = stID theater \<and> shDate (seShowtime e) = c)
    \<and> (rows \<noteq> [] \<longrightarrow> es \<noteq> [])"
proof -
  from extractFromRows_Inr[OF assms] obtain c where c: "canonicalProviderDate date = Inr c"
    "extractLoop clock theater c [] rows = Inr es" "rows \<noteq> [] \<longrightarrow> filter (wantedRow theater c) rows \<noteq> []" by blast
  note ids = extractLoop_ids[OF c(2)]
  have set: "set (filter (wantedRow theater c) rows) = {row \<in> set rows. rwSiteNo row = TrimSpace (stSourceKey theater) \<and> rwDate row = c}"
    by (auto simp: wantedRow_def targetRow_def)
  have "\<forall>e \<in> set es. shTheaterID (seShowtime e) = stID theater \<and> shDate (seShowtime e) = c"
  proof
    fix e assume "e \<in> set es"
    from extractLoop_sound[OF c(2) this] obtain row where "wantedRow theater c row" "scheduleEntryFromProviderRow (clock row) row theater = Inr e" by blast
    then show "shTheaterID (seShowtime e) = stID theater \<and> shDate (seShowtime e) = c"
      using scheduleEntry_fields by (auto simp: wantedRow_def)
  qed
  moreover have "rows \<noteq> [] \<longrightarrow> es \<noteq> []" using ids c(3) by fastforce
  ultimately show ?thesis using c(1) ids set by (intro exI[of _ c]) simp
qed


definition sampleTheater :: ScheduleTheater where
  "sampleTheater = \<lparr>stID = CatalogID ProviderCGV ''theater'' ''0013'', stProviderID = ProviderCGV, stSourceKey = ''0013'',
     stRegion = ''R'', stName = ''T''\<rparr>"

definition sampleRow :: "string \<Rightarrow> providerScheduleRow" where
  "sampleRow site = \<lparr>rwSiteNo = site, rwSiteName = ''S'', rwMovieNo = ''1'', rwMovieFileNo = [], rwMovieTitle = ''M'',
     rwAuditoriumNo = ''2'', rwAuditoriumName = ''IMAX 1'', rwDate = ''2025-01-02'', rwSequence = ''3'', rwProductNo = [],
     rwStartClock = ''0900'', rwEndClock = ''1100'', rwAvailable = 5, rwCapacity = 10\<rparr>"

lemma sampleRow_entry: "\<exists>e. scheduleEntryFromProviderRow now (sampleRow ''0013'') sampleTheater = Inr e"
proof -
  have a: "TrimSpace ''0013'' = ''0013''" "providerSiteIdentifier ''0013''"
    "fst (parseAuditorium [] ''IMAX 1'') = ''IMAX 1''" by code_simp+
  obtain types where "parseAuditorium [] ''IMAX 1'' = (''IMAX 1'', types)" using a(3) by (metis prod.collapse)
  then show ?thesis using a by (simp add: scheduleEntryFromProviderRow_def sampleRow_def sampleTheater_def Let_def)
qed

theorem extractFromRows_exact_witness:
  "\<exists>es. extractFromRows (\<lambda>_. 0) ''20250102'' sampleTheater [sampleRow ''P013'', sampleRow ''0013''] = Inr es
     \<and> distinct (map (shID \<circ> seShowtime) es) \<and> es \<noteq> []"
proof -
  obtain e where e: "scheduleEntryFromProviderRow 0 (sampleRow ''0013'') sampleTheater = Inr e" using sampleRow_entry by blast
  have a: "TrimSpace ''0013'' = ''0013''" by code_simp
  have "isOk (canonicalProviderDate ''20250102'')"
    "(case canonicalProviderDate ''20250102'' of Inr d \<Rightarrow> d | Inl _ \<Rightarrow> []) = ''2025-01-02''" by code_simp+
  then have d: "canonicalProviderDate ''20250102'' = Inr ''2025-01-02''" by (auto simp: isOk_iff)
  have r: "extractFromRows (\<lambda>_. 0) ''20250102'' sampleTheater [sampleRow ''P013'', sampleRow ''0013''] = Inr [e]"
    using e d a by (simp add: extractFromRows_def targetRow_def sampleTheater_def sampleRow_def Let_def)
  from extractFromRows_exact[OF this] r show ?thesis by (intro exI[of _ "[e]"]) auto
qed


section \<open>One capture per date\<close>

lemma failedCapture_error [simp]:
  "scTargetDate (failedCapture d e) = d" "scComplete (failedCapture d e) = False" "scShowtimes (failedCapture d e) = []"
  "scError (failedCapture d e) = errorText e"
  by (simp_all add: failedCapture_def)

definition honestCapture :: "ScheduleTheater \<Rightarrow> string \<Rightarrow> ScheduleCapture \<Rightarrow> bool" where
  "honestCapture theater requested c \<longleftrightarrow>
     (if scComplete c then canonicalProviderDate requested = Inr (scTargetDate c) \<and> scError c = []
        \<and> distinct (map shID (scShowtimes c))
        \<and> (\<forall>x \<in> set (scShowtimes c). shTheaterID x = stID theater \<and> shDate x = scTargetDate c)
      else scShowtimes c = [] \<and> (canonicalProviderDate requested = Inr (scTargetDate c) \<or> scTargetDate c = requested))"

lemma extractSchedules_Inr:
  "extractSchedules clock handler date theater buffer = (Inr es, buffer') \<Longrightarrow> \<exists>rows. extractFromRows clock date theater rows = Inr es"
  by (auto simp: extractSchedules_def split: prod.splits sum.splits)

lemma completeCapture_honest:
  assumes "canonicalProviderDate d = Inr c" "extractFromRows clock c theater rows = Inr es"
  shows "honestCapture theater d (completeCapture c es)"
proof -
  have cc: "canonicalProviderDate c = Inr c"
    using canonicalProviderDate_form[OF assms(1)] canonical_of_date by auto
  from extractFromRows_Inr[OF assms(2)] cc have loop: "extractLoop clock theater c [] rows = Inr es" by auto
  have "\<forall>e \<in> set es. shTheaterID (seShowtime e) = stID theater \<and> shDate (seShowtime e) = c"
    using extractLoop_sound[OF loop] scheduleEntry_fields by (fastforce simp: wantedRow_def)
  then show ?thesis using assms(1) extractLoop_ids[OF loop]
    by (simp add: honestCapture_def completeCapture_def)
qed

lemma captureDate_honest:
  assumes "captureDate env theater d buffer = (Inr c, buffer')" shows "honestCapture theater d c"
proof (cases "canonicalProviderDate d")
  case (Inl e)
  then show ?thesis using assms by (auto simp: captureDate_def honestCapture_def)
next
  case (Inr cd)
  obtain r1 b1 where r1: "requestScheduleDateFromPage env cd (stSourceKey theater) buffer = (r1, b1)" by fastforce
  obtain r2 b2 where r2: "extractSchedules (ceClock env) (ceHandler env) cd theater b1 = (r2, b2)" by fastforce
  show ?thesis
  proof (cases r1)
    case (Inl e)
    then show ?thesis using assms Inr r1 by (auto simp: captureDate_def honestCapture_def split: if_splits)
  next
    case (Inr u)
    show ?thesis
    proof (cases r2)
      case (Inl e)
      then show ?thesis using assms \<open>canonicalProviderDate d = Inr cd\<close> r1 Inr r2
        by (auto simp: captureDate_def honestCapture_def split: if_splits)
    next
      case (Inr es)
      then have "c = completeCapture cd es" using assms \<open>canonicalProviderDate d = Inr cd\<close> r1 \<open>r1 = Inr u\<close> r2
        by (simp add: captureDate_def)
      moreover obtain rows where "extractFromRows (ceClock env) cd theater rows = Inr es" using extractSchedules_Inr r2 Inr by blast
      ultimately show ?thesis using completeCapture_honest[OF \<open>canonicalProviderDate d = Inr cd\<close>] by simp
    qed
  qed
qed

lemma captureDate_stop: "captureDate env theater d buffer = (Inl e, buffer') \<Longrightarrow> errorsIs e ErrProviderThrottled"
  by (auto simp: captureDate_def split: sum.splits prod.splits if_splits)

text \<open>
  C21. A scan reports one capture per requested date, in order, and no capture can be mistaken for
  evidence it is not: a complete capture has no error text, distinct showtimes, all of the assigned
  theater and of that date; an incomplete one carries no showtime. Only a rate limit of the provider
  stops the scan, and then the captures made so far, a prefix, are returned with that error.
\<close>

theorem captureSelectedSchedules_honest:
  "case captureSelectedSchedules env theater dates buffer of ((cs, stop), buffer') \<Rightarrow>
     list_all2 (honestCapture theater) (take (length cs) dates) cs
     \<and> (case stop of None \<Rightarrow> length cs = length dates
        | Some e \<Rightarrow> length cs < length dates \<and> errorsIs e ErrProviderThrottled)"
proof (induction dates arbitrary: buffer)
  case Nil
  then show ?case by simp
next
  case (Cons d ds)
  obtain r b1 where r: "captureDate env theater d buffer = (r, b1)" by fastforce
  show ?case
  proof (cases r)
    case (Inl e)
    then show ?thesis using r captureDate_stop by auto
  next
    case (Inr c)
    obtain cs stop b2 where rest: "captureSelectedSchedules env theater ds b1 = ((cs, stop), b2)" by (metis prod_cases3 surj_pair)
    from Cons[of b1] rest have "list_all2 (honestCapture theater) (take (length cs) ds) cs
       \<and> (case stop of None \<Rightarrow> length cs = length ds | Some e \<Rightarrow> length cs < length ds \<and> errorsIs e ErrProviderThrottled)" by simp
    then show ?thesis using r Inr rest captureDate_honest[of env theater d buffer c b1] by (auto split: option.splits)
  qed
qed


section \<open>The buffer and the provider's statuses\<close>

lemma captureProviderResponse_length:
  "length buffer \<le> 33 \<Longrightarrow> length (captureProviderResponse r buffer) \<le> 33"
  by (auto simp: captureProviderResponse_def maxCapturedProviderResponses_def split: option.splits)

lemma fold_capture_length: "length buffer \<le> 33 \<Longrightarrow> length (fold captureProviderResponse rs buffer) \<le> 33"
  by (induction rs arbitrary: buffer) (simp_all add: captureProviderResponse_length)

lemma capture_keeps: "\<exists>later. captureProviderResponse r buffer = buffer @ later"
  by (auto simp: captureProviderResponse_def split: option.splits)

lemma fold_capture_keeps: "\<exists>later. fold captureProviderResponse rs buffer = buffer @ later"
proof (induction rs arbitrary: buffer)
  case Nil
  then show ?case by simp
next
  case (Cons r rs)
  obtain a where "captureProviderResponse r buffer = buffer @ a" using capture_keeps by blast
  with Cons[of "buffer @ a"] show ?case by auto
qed

lemma collectRows_Inr: "collectRows handler cs seen = Inr rows \<Longrightarrow> c \<in> set cs \<Longrightarrow> cpErr c = None"
proof (induction cs arbitrary: seen rows)
  case Nil
  then show ?case by simp
next
  case (Cons x cs)
  then show ?case by (auto simp: result_simps Let_def split: option.splits)
qed

lemma collectRows_error: "c \<in> set cs \<Longrightarrow> cpErr c \<noteq> None \<Longrightarrow> \<not> isOk (collectRows handler cs seen)"
  using collectRows_Inr by (fastforce simp: isOk_iff)

text \<open>
  The buffer of provider responses is bounded and never loses a response silently: it holds at
  most 33 entries whatever the page receives, and if a schedule response arrives when 32 are
  held, the next read of the rows fails instead of returning a truncated schedule; so does one
  response with an error among them.
\<close>

theorem response_buffer_bounded:
  "length (fold captureProviderResponse rs []) \<le> 33
   \<and> (length buffer = 32 \<and> providerResponsePath (brURL r) = Some scheduleResponsePath \<longrightarrow>
      \<not> isOk (fst (captureScheduleRows handler (fold captureProviderResponse later (captureProviderResponse r buffer)))))
   \<and> (c \<in> set buffer \<and> cpPath c = scheduleResponsePath \<and> cpErr c \<noteq> None \<longrightarrow> \<not> isOk (fst (captureScheduleRows handler buffer)))"
proof (intro conjI impI)
  have bad: "\<not> isOk (fst (captureScheduleRows handler b))" if "x \<in> set b" "cpPath x = scheduleResponsePath" "cpErr x \<noteq> None" for b x
    using collectRows_error[of x "filter (\<lambda>r. cpPath r \<in> set [scheduleResponsePath]) b"] that
    by (auto simp: captureScheduleRows_def takeProviderResponses_def isOk_def split: sum.splits)
  show "length (fold captureProviderResponse rs []) \<le> 33" by (rule fold_capture_length) simp
  show "\<not> isOk (fst (captureScheduleRows handler buffer))"
    if "c \<in> set buffer \<and> cpPath c = scheduleResponsePath \<and> cpErr c \<noteq> None" using bad that by blast
  assume h: "length buffer = 32 \<and> providerResponsePath (brURL r) = Some scheduleResponsePath"
  obtain x where x: "captureProviderResponse r buffer = buffer @ [x]" "cpPath x = scheduleResponsePath" "cpErr x \<noteq> None"
    using h by (auto simp: captureProviderResponse_def maxCapturedProviderResponses_def)
  obtain later' where "fold captureProviderResponse later (buffer @ [x]) = (buffer @ [x]) @ later'" using fold_capture_keeps by blast
  then show "\<not> isOk (fst (captureScheduleRows handler (fold captureProviderResponse later (captureProviderResponse r buffer))))"
    using bad[of x] x by auto
qed

theorem response_buffer_bounded_witness:
  "let bad = \<lparr>cpPath = scheduleResponsePath, cpRequestURL = [], cpStatus = 500, cpBody = noBody, cpErr = Some (providerHTTPError 500)\<rparr>
   in \<not> isOk (fst (captureScheduleRows None [bad]))"
  using response_buffer_bounded[of "[]" "[\<lparr>cpPath = scheduleResponsePath, cpRequestURL = [], cpStatus = 500, cpBody = noBody,
      cpErr = Some (providerHTTPError 500)\<rparr>]" _ None _ "\<lparr>cpPath = scheduleResponsePath, cpRequestURL = [], cpStatus = 500,
      cpBody = noBody, cpErr = Some (providerHTTPError 500)\<rparr>"]
  by (simp add: Let_def)

text \<open>
  The classification of a provider status is total and unambiguous: every error wraps exactly
  one sentinel, the throttling one for 429 only, access blocked for 403 only, authentication for
  401 only, a timeout for 408 and 504 only, a server error for the other 5xx.
\<close>

theorem providerHTTPError_classes:
  "(\<exists>!s. errorsIs (providerHTTPError status) s)
   \<and> (errorsIs (providerHTTPError status) ErrProviderThrottled \<longleftrightarrow> status = 429)
   \<and> (errorsIs (providerHTTPError status) ErrProviderAccessBlocked \<longleftrightarrow> status = 403)
   \<and> (errorsIs (providerHTTPError status) ErrAuthenticationRequired \<longleftrightarrow> status = 401)
   \<and> (errorsIs (providerHTTPError status) DeadlineExceeded \<longleftrightarrow> status = 408 \<or> status = 504)
   \<and> (errorsIs (providerHTTPError status) ErrProviderInvalidResult \<longleftrightarrow> status = 400 \<or> status = 422)
   \<and> (errorsIs (providerHTTPError status) ErrProviderServerError \<longleftrightarrow> 500 \<le> status \<and> status \<le> 599 \<and> status \<noteq> 504)
   \<and> (errorsIs (providerHTTPError status) ErrProviderTransport \<longleftrightarrow> status < 300 \<or> 599 < status)"
proof -
  have is_class: "errorsIs (providerHTTPError status) t \<longleftrightarrow> providerHTTPSentinel status = t" for t
    by (simp add: providerHTTPError_def statusError_def)
  show ?thesis unfolding is_class by (auto simp: providerHTTPSentinel_def)
qed

text \<open>
  Restricting a scan to weekdays keeps exactly the dates of those weekdays, in order and in
  canonical form, and refuses a number that is no weekday.
\<close>

theorem filterScheduleDates_exact:
  assumes "list_all ymdInRange ds"
  shows "filterScheduleDatesByWeekdays (map formatDateOnly ds) weekdays =
    (case find (\<lambda>w. w < 0 \<or> 6 < w) weekdays of
       Some w \<Rightarrow> Inl (wrapS ErrIdentityMismatch (''invalid schedule weekday '' @ Itoa w))
     | None \<Rightarrow> Inr (map formatDateOnly (filter (\<lambda>d. weekdays = [] \<or> weekday d \<in> set weekdays) ds)))"
proof -
  have "mapR canonicalWeekday (map formatDateOnly ds) = Inr (map (\<lambda>d. (formatDateOnly d, weekday d)) ds)"
    using assms by (induction ds) (simp_all add: canonicalWeekday_def canonical_of_date parse_formatDateOnly)
  moreover have "map fst (filter (\<lambda>(c, w). w \<in> set weekdays) (map (\<lambda>d. (formatDateOnly d, weekday d)) ds))
      = map formatDateOnly (filter (\<lambda>d. weekday d \<in> set weekdays) ds)"
    by (induction ds) auto
  ultimately show ?thesis by (auto simp: filterScheduleDatesByWeekdays_def split: option.splits)
qed

theorem filterScheduleDates_exact_witness:
  "filterScheduleDatesByWeekdays (map formatDateOnly [\<lparr>yr = 2025, mo = 1, dy = 4\<rparr>, \<lparr>yr = 2025, mo = 1, dy = 5\<rparr>]) [0]
    = Inr [formatDateOnly \<lparr>yr = 2025, mo = 1, dy = 5\<rparr>]"
proof -
  have w: "weekday \<lparr>yr = 2025, mo = 1, dy = 4\<rparr> = 6" "weekday \<lparr>yr = 2025, mo = 1, dy = 5\<rparr> = 0" by code_simp+
  have "list_all ymdInRange [\<lparr>yr = 2025, mo = 1, dy = 4\<rparr>, \<lparr>yr = 2025, mo = 1, dy = 5\<rparr>]"
    by (simp add: ymdInRange_def validYmd_def daysIn_def)
  from filterScheduleDates_exact[OF this, of "[0]"] w show ?thesis by simp
qed

text \<open>
  The theater the adapter believes selected is the one the page was driven to: the selection
  changes only when every step succeeded, and then to the theater asked for; choosing the
  selected theater again touches the page not at all; after an error the old selection stands.
\<close>

theorem selectCinemaTheater_state:
  assumes "selectCinemaTheater ops region name s = (r, s')"
  shows "(isOk r \<longrightarrow> slRegion s' = region \<and> slTheater s' = name)
    \<and> (\<not> isOk r \<longrightarrow> slRegion s' = slRegion s \<and> slTheater s' = slTheater s)
    \<and> (slRegion s = region \<and> slTheater s = name \<longrightarrow> r = Inr () \<and> s' = s)"
  using assms unfolding selectCinemaTheater_def
  by (auto simp: Let_def split: if_splits prod.splits sum.splits bool.splits)

theorem selectCinemaTheater_state_witness:
  "snd (selectCinemaTheater \<lparr>poNavigate = \<lambda>b. (Inr (), b), poWait = \<lambda>_ b. (Inr (), b), poClickExact = \<lambda>_ b. (Inr True, b),
      poClickPrefix = \<lambda>_ b. (Inr True, b), poExists = \<lambda>_ b. (Inr False, b)\<rparr> ''R'' ''T'' \<lparr>slRegion = [], slTheater = [], slPage = ()\<rparr>)
    = \<lparr>slRegion = ''R'', slTheater = ''T'', slPage = ()\<rparr>"
proof -
  let ?ops = "\<lparr>poNavigate = \<lambda>b. (Inr (), b), poWait = \<lambda>_ b. (Inr (), b), poClickExact = \<lambda>_ b. (Inr True, b),
      poClickPrefix = \<lambda>_ b. (Inr True, b), poExists = \<lambda>_ b. (Inr False, b)\<rparr> :: unit pageOps"
  let ?s = "\<lparr>slRegion = [], slTheater = [], slPage = ()\<rparr>"
  obtain r s' where r: "selectCinemaTheater ?ops ''R'' ''T'' ?s = (r, s')" by fastforce
  then have "isOk r" by (auto simp: selectCinemaTheater_def selectCinemaRegion_def Let_def)
  with selectCinemaTheater_state[OF r] r show ?thesis by (cases s') simp
qed

end
