(* ===== verification/SeatLayout.thy ===== *)
theory SeatLayout
  imports CgvIdentity GoJson GoFloat "HOL-Library.List_Lexorder" "HOL-Library.Char_ord" "HOL-Library.Multiset"
begin

text \<open>
  Seat layouts and live availability (\<open>seat_map_snapshot.go\<close> and \<open>seat_availability.go\<close> of
  \<open>internal/provider/cgv\<close>). The layout messages of the contracts repository are records of the
  fields the code sets. Strings are compared as Go does, byte by byte. \<open>sort.Slice\<close> leaves open
  the order of zones, or of blocks, whose code and name are both equal; here they keep the
  order of the response.
\<close>


section \<open>The provider's seat response\<close>

record seatDataBoard =
  bdXStart :: string
  bdYStart :: string
  bdXEnd :: string
  bdYEnd :: string
  bdCount :: int

definition decodeBoard :: "seatDataBoard decoder" where
  "decodeBoard = decodeStruct (fieldTable
    [(''xcoordStartVal'', onField bdXStart (\<lambda>x v. v\<lparr>bdXStart := x\<rparr>) decodeString),
     (''ycoordStartVal'', onField bdYStart (\<lambda>x v. v\<lparr>bdYStart := x\<rparr>) decodeString),
     (''xcoordEndVal'', onField bdXEnd (\<lambda>x v. v\<lparr>bdXEnd := x\<rparr>) decodeString),
     (''ycoordEndVal'', onField bdYEnd (\<lambda>x v. v\<lparr>bdYEnd := x\<rparr>) decodeString),
     (''stcnt'', onField bdCount (\<lambda>x v. v\<lparr>bdCount := x\<rparr>) decodeInt)])"

definition zeroBoard :: seatDataBoard where
  "zeroBoard = \<lparr>bdXStart = [], bdYStart = [], bdXEnd = [], bdYEnd = [], bdCount = 0\<rparr>"

record seatDataSaleForm =
  sfCode :: string
  sfName :: string

definition decodeSaleForm :: "seatDataSaleForm decoder" where
  "decodeSaleForm = decodeStruct (fieldTable
    [(''seatSalfrmCd'', onField sfCode (\<lambda>x v. v\<lparr>sfCode := x\<rparr>) decodeString),
     (''seatSalfrmNm'', onField sfName (\<lambda>x v. v\<lparr>sfName := x\<rparr>) decodeString)])"

definition zeroSaleForm :: seatDataSaleForm where
  "zeroSaleForm = \<lparr>sfCode = [], sfName = []\<rparr>"

record seatDataZone =
  zoCode :: string
  zoName :: string
  zoKindCode :: string
  zoKindName :: string
  zoXStart :: string
  zoYStart :: string
  zoXEnd :: string
  zoYEnd :: string
  zoCapacity :: string

definition decodeZone :: "seatDataZone decoder" where
  "decodeZone = decodeStruct (fieldTable
    [(''szoneNo'', onField zoCode (\<lambda>x v. v\<lparr>zoCode := x\<rparr>) decodeString),
     (''szoneNm'', onField zoName (\<lambda>x v. v\<lparr>zoName := x\<rparr>) decodeString),
     (''szoneKindCd'', onField zoKindCode (\<lambda>x v. v\<lparr>zoKindCode := x\<rparr>) decodeString),
     (''szoneKindNm'', onField zoKindName (\<lambda>x v. v\<lparr>zoKindName := x\<rparr>) decodeString),
     (''xcoordStartVal'', onField zoXStart (\<lambda>x v. v\<lparr>zoXStart := x\<rparr>) decodeString),
     (''ycoordStartVal'', onField zoYStart (\<lambda>x v. v\<lparr>zoYStart := x\<rparr>) decodeString),
     (''xcoordEndVal'', onField zoXEnd (\<lambda>x v. v\<lparr>zoXEnd := x\<rparr>) decodeString),
     (''ycoordEndVal'', onField zoYEnd (\<lambda>x v. v\<lparr>zoYEnd := x\<rparr>) decodeString),
     (''maxNopsn'', onField zoCapacity (\<lambda>x v. v\<lparr>zoCapacity := x\<rparr>) decodeString)])"

definition zeroZone :: seatDataZone where
  "zeroZone = \<lparr>zoCode = [], zoName = [], zoKindCode = [], zoKindName = [], zoXStart = [], zoYStart = [], zoXEnd = [], zoYEnd = [], zoCapacity = []\<rparr>"

record seatDataBlock =
  bkCode :: string
  bkName :: string
  bkKindCode :: string
  bkKindName :: string
  bkXStart :: string
  bkYStart :: string
  bkXEnd :: string
  bkYEnd :: string

definition decodeBlock :: "seatDataBlock decoder" where
  "decodeBlock = decodeStruct (fieldTable
    [(''sblckNo'', onField bkCode (\<lambda>x v. v\<lparr>bkCode := x\<rparr>) decodeString),
     (''sblckNm'', onField bkName (\<lambda>x v. v\<lparr>bkName := x\<rparr>) decodeString),
     (''sblckKindCd'', onField bkKindCode (\<lambda>x v. v\<lparr>bkKindCode := x\<rparr>) decodeString),
     (''sblckKindNm'', onField bkKindName (\<lambda>x v. v\<lparr>bkKindName := x\<rparr>) decodeString),
     (''xcoordStartVal'', onField bkXStart (\<lambda>x v. v\<lparr>bkXStart := x\<rparr>) decodeString),
     (''ycoordStartVal'', onField bkYStart (\<lambda>x v. v\<lparr>bkYStart := x\<rparr>) decodeString),
     (''xcoordEndVal'', onField bkXEnd (\<lambda>x v. v\<lparr>bkXEnd := x\<rparr>) decodeString),
     (''ycoordEndVal'', onField bkYEnd (\<lambda>x v. v\<lparr>bkYEnd := x\<rparr>) decodeString)])"

definition zeroBlock :: seatDataBlock where
  "zeroBlock = \<lparr>bkCode = [], bkName = [], bkKindCode = [], bkKindName = [], bkXStart = [], bkYStart = [], bkXEnd = [], bkYEnd = []\<rparr>"

record seatDataSeat =
  sdLocationID :: string
  sdRow :: string
  sdNumber :: string
  sdKindCode :: string
  sdKindName :: string
  sdZoneName :: string
  sdZoneKind :: string
  sdSaleForm :: string
  sdStatusCode :: string
  sdStatusName :: string
  sdSaleYN :: string
  sdXStart :: string
  sdYStart :: string
  sdXEnd :: string
  sdYEnd :: string
  sdLeftAisle :: string
  sdRightAisle :: string

definition decodeSeat :: "seatDataSeat decoder" where
  "decodeSeat = decodeStruct (fieldTable
    [(''seatLocNo'', onField sdLocationID (\<lambda>x v. v\<lparr>sdLocationID := x\<rparr>) decodeString),
     (''seatRowNm'', onField sdRow (\<lambda>x v. v\<lparr>sdRow := x\<rparr>) decodeString),
     (''seatNo'', onField sdNumber (\<lambda>x v. v\<lparr>sdNumber := x\<rparr>) decodeString),
     (''stkndCd'', onField sdKindCode (\<lambda>x v. v\<lparr>sdKindCode := x\<rparr>) decodeString),
     (''stkndNm'', onField sdKindName (\<lambda>x v. v\<lparr>sdKindName := x\<rparr>) decodeString),
     (''szoneNm'', onField sdZoneName (\<lambda>x v. v\<lparr>sdZoneName := x\<rparr>) decodeString),
     (''szoneKindNm'', onField sdZoneKind (\<lambda>x v. v\<lparr>sdZoneKind := x\<rparr>) decodeString),
     (''seatSalfrmCd'', onField sdSaleForm (\<lambda>x v. v\<lparr>sdSaleForm := x\<rparr>) decodeString),
     (''seatStusCd'', onField sdStatusCode (\<lambda>x v. v\<lparr>sdStatusCode := x\<rparr>) decodeString),
     (''seatStusNm'', onField sdStatusName (\<lambda>x v. v\<lparr>sdStatusName := x\<rparr>) decodeString),
     (''seatSaleYn'', onField sdSaleYN (\<lambda>x v. v\<lparr>sdSaleYN := x\<rparr>) decodeString),
     (''xcoordStartVal'', onField sdXStart (\<lambda>x v. v\<lparr>sdXStart := x\<rparr>) decodeString),
     (''ycoordStartVal'', onField sdYStart (\<lambda>x v. v\<lparr>sdYStart := x\<rparr>) decodeString),
     (''xcoordEndVal'', onField sdXEnd (\<lambda>x v. v\<lparr>sdXEnd := x\<rparr>) decodeString),
     (''ycoordEndVal'', onField sdYEnd (\<lambda>x v. v\<lparr>sdYEnd := x\<rparr>) decodeString),
     (''leftPwayYn'', onField sdLeftAisle (\<lambda>x v. v\<lparr>sdLeftAisle := x\<rparr>) decodeString),
     (''rghtPwayYn'', onField sdRightAisle (\<lambda>x v. v\<lparr>sdRightAisle := x\<rparr>) decodeString)])"

definition zeroSeat :: seatDataSeat where
  "zeroSeat = \<lparr>sdLocationID = [], sdRow = [], sdNumber = [], sdKindCode = [], sdKindName = [], sdZoneName = [], sdZoneKind = [], sdSaleForm = [], sdStatusCode = [], sdStatusName = [], sdSaleYN = [], sdXStart = [], sdYStart = [], sdXEnd = [], sdYEnd = [], sdLeftAisle = [], sdRightAisle = []\<rparr>"

record seatDataItem =
  itBoard :: seatDataBoard
  itSaleForms :: "seatDataSaleForm list"
  itZones :: "seatDataZone list"
  itBlocks :: "seatDataBlock list"
  itSeats :: "seatDataSeat list"

definition decodeItem :: "seatDataItem decoder" where
  "decodeItem = decodeStruct (fieldTable
    [(''sbord'', onField itBoard (\<lambda>x v. v\<lparr>itBoard := x\<rparr>) decodeBoard),
     (''salfrms'', onField itSaleForms (\<lambda>x v. v\<lparr>itSaleForms := x\<rparr>) (decodeSlice decodeSaleForm zeroSaleForm)),
     (''szones'', onField itZones (\<lambda>x v. v\<lparr>itZones := x\<rparr>) (decodeSlice decodeZone zeroZone)),
     (''sblcks'', onField itBlocks (\<lambda>x v. v\<lparr>itBlocks := x\<rparr>) (decodeSlice decodeBlock zeroBlock)),
     (''seats'', onField itSeats (\<lambda>x v. v\<lparr>itSeats := x\<rparr>) (decodeSlice decodeSeat zeroSeat))])"

definition zeroItem :: seatDataItem where
  "zeroItem = \<lparr>itBoard = zeroBoard, itSaleForms = [], itZones = [], itBlocks = [], itSeats = []\<rparr>"

text \<open>The envelope; its only nested field, \<open>data.items\<close>, stands for the struct that holds it.\<close>

record seatDataEnvelope =
  sevStatusCode :: int
  sevResultMsg :: string
  sevItems :: "seatDataItem list"

definition decodeItems :: "seatDataItem list decoder" where
  "decodeItems = decodeStruct (fieldTable [(''items'', decodeSlice decodeItem zeroItem)])"

definition decodeSeatEnvelope :: "seatDataEnvelope decoder" where
  "decodeSeatEnvelope = decodeStruct (fieldTable
    [(''statusCode'', onField sevStatusCode (\<lambda>x v. v\<lparr>sevStatusCode := x\<rparr>) decodeInt),
     (''resultMsg'', onField sevResultMsg (\<lambda>x v. v\<lparr>sevResultMsg := x\<rparr>) decodeString),
     (''data'', onField sevItems (\<lambda>x v. v\<lparr>sevItems := x\<rparr>) decodeItems)])"

definition zeroSeatEnvelope :: seatDataEnvelope where
  "zeroSeatEnvelope = \<lparr>sevStatusCode = 0, sevResultMsg = [], sevItems = []\<rparr>"


section \<open>Coordinates\<close>

record seatCoordinateBoard =
  cbMinX :: float64
  cbMaxX :: float64
  cbMinY :: float64
  cbMaxY :: float64

definition seatCoordinate :: "string \<Rightarrow> float64 result" where
  "seatCoordinate value =
    (case ParseFloat (TrimSpace value) of
       None \<Rightarrow> Inl (errNew ''coordinate is not finite'')
     | Some parsed \<Rightarrow>
         if isNaN parsed \<or> isInf parsed then Inl (errNew ''coordinate is not finite'') else Inr parsed)"

definition normalizeSeatAxis :: "float64 \<Rightarrow> float64 \<Rightarrow> float64 \<Rightarrow> float64 result" where
  "normalizeSeatAxis value minimum maximum =
    (let normalized = fdiv (fsub value minimum) (fsub maximum minimum) in
     if fless normalized (Fin 0) \<or> fless (Fin 1) normalized \<or> isNaN normalized \<or> isInf normalized
     then Inl (errNew ''coordinate is outside board bounds'')
     else Inr normalized)"

definition newSeatCoordinateBoard :: "seatDataBoard \<Rightarrow> seatCoordinateBoard result" where
  "newSeatCoordinateBoard source =
    bindR (mapErr (wrapE ''parse CGV board x start'') (seatCoordinate (bdXStart source))) (\<lambda>minX.
    bindR (mapErr (wrapE ''parse CGV board x end'') (seatCoordinate (bdXEnd source))) (\<lambda>maxX.
    bindR (mapErr (wrapE ''parse CGV board y start'') (seatCoordinate (bdYStart source))) (\<lambda>minY.
    bindR (mapErr (wrapE ''parse CGV board y end'') (seatCoordinate (bdYEnd source))) (\<lambda>maxY.
    if fleq maxX minX \<or> fleq maxY minY then Inl (errNew ''CGV seat map has invalid board bounds'')
    else Inr \<lparr>cbMinX = minX, cbMaxX = maxX, cbMinY = minY, cbMaxY = maxY\<rparr>))))"

definition boardX :: "seatCoordinateBoard \<Rightarrow> string \<Rightarrow> float64 result" where
  "boardX board value = bindR (seatCoordinate value) (\<lambda>parsed. normalizeSeatAxis parsed (cbMinX board) (cbMaxX board))"

definition boardY :: "seatCoordinateBoard \<Rightarrow> string \<Rightarrow> float64 result" where
  "boardY board value = bindR (seatCoordinate value) (\<lambda>parsed. normalizeSeatAxis parsed (cbMinY board) (cbMaxY board))"

definition boardCenter :: "string \<Rightarrow> string \<Rightarrow> float64 \<Rightarrow> float64 \<Rightarrow> float64 result" where
  "boardCenter startText endText minimum maximum =
    bindR (seatCoordinate startText) (\<lambda>startValue.
    bindR (seatCoordinate endText) (\<lambda>endValue.
    if fless endValue startValue then Inl (errNew ''coordinate end precedes start'')
    else normalizeSeatAxis (fdiv (fadd startValue endValue) (Fin 2)) minimum maximum))"

definition centerX :: "seatCoordinateBoard \<Rightarrow> string \<Rightarrow> string \<Rightarrow> float64 result" where
  "centerX board startText endText = boardCenter startText endText (cbMinX board) (cbMaxX board)"

definition centerY :: "seatCoordinateBoard \<Rightarrow> string \<Rightarrow> string \<Rightarrow> float64 result" where
  "centerY board startText endText = boardCenter startText endText (cbMinY board) (cbMaxY board)"

record boundsBox =
  bxMinX :: float64
  bxMaxX :: float64
  bxMinY :: float64
  bxMaxY :: float64

definition boardBounds :: "seatCoordinateBoard \<Rightarrow> string \<Rightarrow> string \<Rightarrow> string \<Rightarrow> string \<Rightarrow> boundsBox result" where
  "boardBounds board xStart xEnd yStart yEnd =
    bindR (boardX board xStart) (\<lambda>minX.
    bindR (boardX board xEnd) (\<lambda>maxX.
    bindR (boardY board yStart) (\<lambda>minY.
    bindR (boardY board yEnd) (\<lambda>maxY.
    if fless maxX minX \<or> fless maxY minY then Inl (errNew ''coordinate end precedes start'')
    else Inr \<lparr>bxMinX = minX, bxMaxX = maxX, bxMinY = minY, bxMaxY = maxY\<rparr>))))"


section \<open>The layout\<close>

record Seat =
  setId :: string
  setAuditoriumId :: string
  setLabel :: string
  setRow :: string
  setNumber :: int
  setX :: float64
  setY :: float64
  setType :: string
  setZoneName :: string
  setZoneKind :: string
  setSaleFormCode :: string
  setSaleFormName :: string
  setLeftAisle :: bool
  setRightAisle :: bool
  setFeatures :: "string list"
  setSourceLabel :: string
  setSourceSeatKindCode :: string
  setSourceSeatKindName :: string
  setSourceClasses :: "string list"

record LayoutArea =
  arCode :: string
  arName :: string
  arKindCode :: string
  arKindName :: string
  arBounds :: boundsBox
  arCapacity :: int

record Layout =
  lySeats :: "Seat list"
  lyZones :: "LayoutArea list"
  lyBlocks :: "LayoutArea list"

definition seatNumberAsInt32 :: "int \<Rightarrow> int result" where
  "seatNumberAsInt32 value =
    (if value < 1 \<or> maxInt32 < value then Inl (errNew ''seat number is outside int32 range'') else Inr value)"

definition normalizedSeatLabel :: "seatDataSeat \<Rightarrow> (string \<times> string \<times> int) result" where
  "normalizedSeatLabel source =
    (case ParseInt 32 (TrimSpace (sdNumber source)) of
       None \<Rightarrow> Inl (errNew (''parse seat '' @ sdRow source @ sdNumber source @ '' number''))
     | Some number \<Rightarrow>
         if number < 1 then Inl (errNew (''parse seat '' @ sdRow source @ sdNumber source @ '' number''))
         else let row = ToUpper (TrimSpace (sdRow source)) in
           if row = [] then Inl (errNew ''CGV seat map contains an empty seat row'')
           else Inr (row @ Itoa number, row, number))"

definition parseOptionalCapacity :: "string \<Rightarrow> int result" where
  "parseOptionalCapacity value0 =
    (let value = TrimSpace value0 in
     if value = [] then Inr 0
     else case ParseInt 32 value of
         None \<Rightarrow> Inl (errNew ''capacity is invalid'')
       | Some capacity \<Rightarrow> if capacity < 0 then Inl (errNew ''capacity is invalid'') else Inr capacity)"

definition seatTypeKeywords :: "(string list \<times> string) list" where
  "seatTypeKeywords =
    [([''wheel'', [CHR 0xED, CHR 0x9C, CHR 0xA0, CHR 0xEC, CHR 0xB2, CHR 0xB4, CHR 0xEC, CHR 0x96, CHR 0xB4], [CHR 0xEC, CHR 0x9D, CHR 0xB4, CHR 0xEB, CHR 0x8F, CHR 0x99, CHR 0xEC, CHR 0x8B, CHR 0x9D]], ''wheelchair''),
     ([''companion'', [CHR 0xEB, CHR 0xB3, CHR 0xB4, CHR 0xED, CHR 0x98, CHR 0xB8, CHR 0xEC, CHR 0x9E, CHR 0x90]], ''companion''),
     ([''couple'', ''sweetbox'', [CHR 0xEC, CHR 0xBB, CHR 0xA4, CHR 0xED, CHR 0x94, CHR 0x8C]], ''couple''),
     ([''tempur'', ''bed'', [CHR 0xED, CHR 0x85, CHR 0x9C, CHR 0xED, CHR 0x8D, CHR 0xBC]], ''bed''),
     ([''recliner'', ''stressless'', [CHR 0xEB, CHR 0xA6, CHR 0xAC, CHR 0xED, CHR 0x81, CHR 0xB4, CHR 0xEB, CHR 0x9D, CHR 0xBC, CHR 0xEC, CHR 0x9D, CHR 0xB4, CHR 0xEB, CHR 0x84, CHR 0x88]], ''recliner''),
     ([''premium'', ''primium'', [CHR 0xED, CHR 0x94, CHR 0x84, CHR 0xEB, CHR 0xA6, CHR 0xAC, CHR 0xEB, CHR 0xAF, CHR 0xB8, CHR 0xEC, CHR 0x97, CHR 0x84]], ''premium''),
     ([''prime'', [CHR 0xED, CHR 0x94, CHR 0x84, CHR 0xEB, CHR 0x9D, CHR 0xBC, CHR 0xEC, CHR 0x9E, CHR 0x84]], ''prime''),
     ([''4dx'', ''motion'', [CHR 0xEB, CHR 0xAA, CHR 0xA8, CHR 0xEC, CHR 0x85, CHR 0x98]], ''motion'')]"

definition seatMapSeatType :: "string \<Rightarrow> string \<Rightarrow> string" where
  "seatMapSeatType kindName saleFormName =
    (let haystack = ToLower (kindName @ '' '' @ saleFormName) in
     case find (\<lambda>(keywords, _). \<exists>keyword \<in> set keywords. Contains haystack keyword) seatTypeKeywords of
       Some (_, value) \<Rightarrow> value
     | None \<Rightarrow> ''standard'')"

definition removableMark :: string where
  "removableMark = [CHR 0xEC, CHR 0x9D, CHR 0xB4, CHR 0xEB, CHR 0x8F, CHR 0x99, CHR 0xEC, CHR 0x8B, CHR 0x9D]"

definition seatMapFeatures :: "seatDataSeat \<Rightarrow> string \<Rightarrow> string list" where
  "seatMapFeatures source saleFormName0 =
    (let zoneName = TrimSpace (sdZoneName source); saleFormName = TrimSpace saleFormName0 in
     (if zoneName \<noteq> [] then [''zone:'' @ zoneName] else []) @
     (if saleFormName \<noteq> [] then [''sale-form:'' @ saleFormName] else []) @
     (if sdLeftAisle source = ''Y'' then [''left-aisle''] else []) @
     (if sdRightAisle source = ''Y'' then [''right-aisle''] else []) @
     (if Contains saleFormName removableMark then [''wheelchair-area'', ''removable''] else []))"

definition saleFormNames :: "seatDataSaleForm list \<Rightarrow> string \<Rightarrow> string" where
  "saleFormNames forms code =
    (case lastOf (map (\<lambda>f. (sfCode f, sfName f)) forms) code of Some name \<Rightarrow> name | None \<Rightarrow> [])"

text \<open>One turn of the loop of \<open>appendSeatMapSeats\<close>, after the label is known to be new.\<close>

definition newSeat ::
  "string \<Rightarrow> seatCoordinateBoard \<Rightarrow> (string \<Rightarrow> string) \<Rightarrow> seatDataSeat \<Rightarrow> string \<times> string \<times> int \<Rightarrow> Seat result" where
  "newSeat auditoriumID board saleForms source ident =
    (let (label, row, number) = ident; saleFormName = saleForms (sdSaleForm source) in
     bindR (mapErr (wrapE (''parse CGV seat '' @ label @ '' x coordinate'')) (centerX board (sdXStart source) (sdXEnd source))) (\<lambda>x.
     bindR (mapErr (wrapE (''parse CGV seat '' @ label @ '' y coordinate'')) (centerY board (sdYStart source) (sdYEnd source))) (\<lambda>y.
     bindR (mapErr (wrapE (''parse CGV seat '' @ label @ '' number'')) (seatNumberAsInt32 number)) (\<lambda>seatNumber.
     Inr \<lparr>setId = SeatID auditoriumID label, setAuditoriumId = auditoriumID, setLabel = label, setRow = row,
          setNumber = seatNumber, setX = x, setY = y, setType = seatMapSeatType (sdKindName source) saleFormName,
          setZoneName = sdZoneName source, setZoneKind = sdZoneKind source, setSaleFormCode = sdSaleForm source,
          setSaleFormName = saleFormName, setLeftAisle = (sdLeftAisle source = ''Y''),
          setRightAisle = (sdRightAisle source = ''Y''), setFeatures = seatMapFeatures source saleFormName,
          setSourceLabel = label, setSourceSeatKindCode = sdKindCode source,
          setSourceSeatKindName = sdKindName source, setSourceClasses = []\<rparr>))))"

text \<open>The state of the loops: the layout so far and the labels seen in every area so far.\<close>

type_synonym layoutState = "Layout \<times> string list"

definition appendSeat ::
  "string \<Rightarrow> seatCoordinateBoard \<Rightarrow> (string \<Rightarrow> string) \<Rightarrow> layoutState \<Rightarrow> seatDataSeat \<Rightarrow> layoutState result" where
  "appendSeat auditoriumID board saleForms st source =
    (let (layout, labels) = st in
     bindR (normalizedSeatLabel source) (\<lambda>ident.
     if fst ident \<in> set labels then Inl (errNew (''duplicate CGV seat label '' @ fst ident))
     else bindR (newSeat auditoriumID board saleForms source ident) (\<lambda>seat.
       Inr (layout\<lparr>lySeats := lySeats layout @ [seat]\<rparr>, fst ident # labels))))"

definition appendSeatMapSeats ::
  "string \<Rightarrow> seatCoordinateBoard \<Rightarrow> (string \<Rightarrow> string) \<Rightarrow> seatDataSeat list \<Rightarrow> layoutState \<Rightarrow> layoutState result" where
  "appendSeatMapSeats auditoriumID board saleForms seats st = foldR (appendSeat auditoriumID board saleForms) st seats"

definition newZone :: "seatCoordinateBoard \<Rightarrow> seatDataZone \<Rightarrow> LayoutArea result" where
  "newZone board source =
    bindR (mapErr (wrapE (''parse CGV zone '' @ zoCode source @ '' capacity'')) (parseOptionalCapacity (zoCapacity source))) (\<lambda>capacity.
    bindR (mapErr (wrapE (''parse CGV zone '' @ zoCode source @ '' bounds''))
      (boardBounds board (zoXStart source) (zoXEnd source) (zoYStart source) (zoYEnd source))) (\<lambda>b.
    Inr \<lparr>arCode = zoCode source, arName = zoName source, arKindCode = zoKindCode source,
         arKindName = zoKindName source, arBounds = b, arCapacity = capacity\<rparr>))"

definition appendSeatMapZones :: "seatCoordinateBoard \<Rightarrow> seatDataZone list \<Rightarrow> Layout \<Rightarrow> Layout result" where
  "appendSeatMapZones board sources layout =
    bindR (mapR (newZone board) sources) (\<lambda>zones. Inr (layout\<lparr>lyZones := lyZones layout @ zones\<rparr>))"

text \<open>A block has no capacity; its record carries zero.\<close>

definition newBlock :: "seatCoordinateBoard \<Rightarrow> seatDataBlock \<Rightarrow> LayoutArea result" where
  "newBlock board source =
    bindR (mapErr (wrapE (''parse CGV block '' @ bkCode source @ '' bounds''))
      (boardBounds board (bkXStart source) (bkXEnd source) (bkYStart source) (bkYEnd source))) (\<lambda>b.
    Inr \<lparr>arCode = bkCode source, arName = bkName source, arKindCode = bkKindCode source,
         arKindName = bkKindName source, arBounds = b, arCapacity = 0\<rparr>)"

definition appendSeatMapBlocks :: "seatCoordinateBoard \<Rightarrow> seatDataBlock list \<Rightarrow> Layout \<Rightarrow> Layout result" where
  "appendSeatMapBlocks board sources layout =
    bindR (mapR (newBlock board) sources) (\<lambda>blocks. Inr (layout\<lparr>lyBlocks := lyBlocks layout @ blocks\<rparr>))"

definition appendSeatMapItem :: "string \<Rightarrow> layoutState \<Rightarrow> seatDataItem \<Rightarrow> layoutState result" where
  "appendSeatMapItem auditoriumID st item =
    bindR (newSeatCoordinateBoard (itBoard item)) (\<lambda>board.
    bindR (appendSeatMapSeats auditoriumID board (saleFormNames (itSaleForms item)) (itSeats item) st) (\<lambda>(layout, labels).
    bindR (appendSeatMapZones board (itZones item) layout) (\<lambda>layout1.
    bindR (appendSeatMapBlocks board (itBlocks item) layout1) (\<lambda>layout2. Inr (layout2, labels)))))"

definition canonicalSeatMapStrings :: "string list \<Rightarrow> string list" where
  "canonicalSeatMapStrings values = sort (keepFirst id (filter (\<lambda>v. v \<noteq> []) (map TrimSpace values)))"

definition canonicalSeat :: "Seat \<Rightarrow> Seat" where
  "canonicalSeat seat = seat\<lparr>
     setAuditoriumId := TrimSpace (setAuditoriumId seat), setLabel := TrimSpace (setLabel seat),
     setRow := TrimSpace (setRow seat), setType := TrimSpace (setType seat),
     setZoneName := TrimSpace (setZoneName seat), setZoneKind := TrimSpace (setZoneKind seat),
     setSaleFormCode := TrimSpace (setSaleFormCode seat), setSaleFormName := TrimSpace (setSaleFormName seat),
     setFeatures := canonicalSeatMapStrings (setFeatures seat), setSourceLabel := TrimSpace (setSourceLabel seat),
     setSourceSeatKindCode := TrimSpace (setSourceSeatKindCode seat),
     setSourceSeatKindName := TrimSpace (setSourceSeatKindName seat),
     setSourceClasses := canonicalSeatMapStrings (setSourceClasses seat)\<rparr>"

definition canonicalArea :: "LayoutArea \<Rightarrow> LayoutArea" where
  "canonicalArea area = area\<lparr>arCode := TrimSpace (arCode area), arName := TrimSpace (arName area),
     arKindCode := TrimSpace (arKindCode area), arKindName := TrimSpace (arKindName area)\<rparr>"

definition canonicalizeSeatMapLayout :: "Layout \<Rightarrow> Layout" where
  "canonicalizeSeatMapLayout layout =
    \<lparr>lySeats = map canonicalSeat (lySeats layout), lyZones = map canonicalArea (lyZones layout),
     lyBlocks = map canonicalArea (lyBlocks layout)\<rparr>"

text \<open>By code, then by name: two stable sorts, the less significant key first.\<close>

definition sortAreas :: "LayoutArea list \<Rightarrow> LayoutArea list" where
  "sortAreas areas = sort_key arCode (sort_key arName areas)"

definition emptyLayout :: Layout where
  "emptyLayout = \<lparr>lySeats = [], lyZones = [], lyBlocks = []\<rparr>"

definition layoutFromItems :: "string \<Rightarrow> seatDataItem list \<Rightarrow> Layout result" where
  "layoutFromItems auditoriumID items =
    bindR (foldR (appendSeatMapItem auditoriumID) (emptyLayout, []) items) (\<lambda>(raw, _).
    let layout = canonicalizeSeatMapLayout raw;
        result = \<lparr>lySeats = sort_key setLabel (lySeats layout), lyZones = sortAreas (lyZones layout),
                  lyBlocks = sortAreas (lyBlocks layout)\<rparr>
    in if lySeats result = [] then Inl (errNew ''CGV seat map contained no seats'') else Inr result)"

definition parseSeatMapLayout :: "jsonBody \<Rightarrow> string \<Rightarrow> Layout result" where
  "parseSeatMapLayout body auditoriumID =
    (case Unmarshal decodeSeatEnvelope body zeroSeatEnvelope of
       (_, Some e) \<Rightarrow> Inl (wrapE ''decode CGV seat map'' e)
     | (envelope, None) \<Rightarrow>
         if sevStatusCode envelope \<noteq> 0 then Inl (errNew (''CGV seat map failed: '' @ sevResultMsg envelope))
         else if sevItems envelope = [] then Inl (errNew ''CGV seat map contained no layout'')
         else layoutFromItems auditoriumID (sevItems envelope))"


section \<open>Live availability\<close>

definition validSeatStatusCode :: "string \<Rightarrow> bool" where
  "validSeatStatusCode value \<longleftrightarrow> value \<in> {''00'', ''01'', ''03'', ''04''}"

definition seatAvailabilityLayoutIndex :: "Layout \<Rightarrow> string list result" where
  "seatAvailabilityLayoutIndex layout =
    (if list_all (\<lambda>seat. TrimSpace (setId seat) \<noteq> []) (lySeats layout)
     then Inr (keepFirst id (map setId (lySeats layout)))
     else Inl (wrapS ErrSeatAvailabilityIncomplete ''static layout contains an invalid seat''))"

text \<open>\<open>fmt.Errorf("%w: %w", a, b)\<close>.\<close>

definition wrapTwo :: "sentinel \<Rightarrow> goerr \<Rightarrow> goerr" where
  "wrapTwo s e = Errorf (sentinelText s @ '': '' @ errorText e) [Sentinel s, e]"

definition saleFlag :: "seatDataSeat \<Rightarrow> string" where
  "saleFlag source = ToUpper (TrimSpace (sdSaleYN source))"

definition seatStatus :: "seatDataSeat \<Rightarrow> string" where
  "seatStatus source = TrimSpace (sdStatusCode source)"

definition statusKnown :: "seatDataSeat \<Rightarrow> bool" where
  "statusKnown source \<longleftrightarrow> (saleFlag source = ''Y'' \<or> saleFlag source = ''N'') \<and> validSeatStatusCode (seatStatus source)"

definition seatOpen :: "seatDataSeat \<Rightarrow> bool" where
  "seatOpen source \<longleftrightarrow> saleFlag source = ''Y'' \<and> seatStatus source = ''00''"

text \<open>The state of the loop: the seats seen and, in the order found, the available ones.\<close>

definition availabilityTurn ::
  "string \<Rightarrow> string list \<Rightarrow> string list \<times> string list \<Rightarrow> seatDataSeat \<Rightarrow> (string list \<times> string list) result" where
  "availabilityTurn auditoriumID layoutSeats st source =
    (let (seen, available) = st in
     case normalizedSeatLabel source of
       Inl e \<Rightarrow> Inl (wrapTwo ErrSeatAvailabilityIncomplete e)
     | Inr (label, _, _) \<Rightarrow>
         let seatID = SeatID auditoriumID label in
         if seatID \<notin> set layoutSeats then
           Inl (wrapS ErrSeatAvailabilityIncomplete (''provider seat '' @ label @ '' is not in the static layout''))
         else if seatID \<in> set seen then
           Inl (wrapS ErrSeatAvailabilityIncomplete (''duplicate provider seat '' @ label))
         else if \<not> statusKnown source then
           Inl (wrapS ErrSeatAvailabilityIncomplete (''provider status is missing for seat '' @ label))
         else Inr (seatID # seen, if seatOpen source then available @ [seatID] else available))"

definition providerAvailableSeats :: "seatDataItem list \<Rightarrow> string \<Rightarrow> string list \<Rightarrow> string list result" where
  "providerAvailableSeats items auditoriumID layoutSeats =
    bindR (foldR (availabilityTurn auditoriumID layoutSeats) ([], []) (concat (map itSeats items))) (\<lambda>(seen, available).
    if length seen \<noteq> length layoutSeats then
      Inl (wrapS ErrSeatAvailabilityIncomplete (''provider returned '' @ Itoa (int (length seen)) @ '' of ''
        @ Itoa (int (length layoutSeats)) @ '' layout seats''))
    else Inr (sort available))"

definition parseSeatAvailability :: "jsonBody \<Rightarrow> string \<Rightarrow> Layout option \<Rightarrow> string list result" where
  "parseSeatAvailability body auditoriumID layout =
    (case layout of
       None \<Rightarrow> Inl (wrapS ErrSeatAvailabilityIncomplete ''layout identity is missing'')
     | Some ly \<Rightarrow>
         if TrimSpace auditoriumID = [] then Inl (wrapS ErrSeatAvailabilityIncomplete ''layout identity is missing'')
         else case Unmarshal decodeSeatEnvelope body zeroSeatEnvelope of
             (_, Some e) \<Rightarrow> Inl (wrapE ''decode CGV seat availability'' e)
           | (envelope, None) \<Rightarrow>
               if sevStatusCode envelope \<noteq> 0 then
                 Inl (errNew (''CGV seat availability failed: '' @ sevResultMsg envelope))
               else if sevItems envelope = [] then
                 Inl (wrapS ErrSeatAvailabilityIncomplete ''provider returned no seat areas'')
               else bindR (seatAvailabilityLayoutIndex ly) (providerAvailableSeats (sevItems envelope) auditoriumID))"

section \<open>Labels\<close>

lemma asciiUpper_high: "128 \<le> (of_char h :: nat) \<Longrightarrow> asciiUpper c = h \<longleftrightarrow> c = h"
  by (auto simp: asciiUpper_def)

lemma wideSpaces_high: "w \<in> set wideSpaces \<Longrightarrow> h \<in> set w \<Longrightarrow> 128 \<le> (of_char h :: nat)"
  unfolding wideSpaces_def by (auto simp del: of_char_of)

lemma map_upper_high: "(\<And>h. h \<in> set w \<Longrightarrow> 128 \<le> (of_char h :: nat)) \<Longrightarrow> map asciiUpper u = w \<longleftrightarrow> u = w"
proof (induction u arbitrary: w)
  case (Cons c u)
  show ?case
  proof (cases w)
    case (Cons h v)
    then show ?thesis using Cons.IH[of v] Cons.prems asciiUpper_high[of h c] by auto
  qed simp
qed simp

lemma startsSpace_ToUpper:
  assumes "\<And>w h. w \<in> set ws \<Longrightarrow> h \<in> set w \<Longrightarrow> 128 \<le> (of_char h :: nat)"
  shows "startsSpace ws (ToUpper s) = startsSpace ws s"
proof (cases s)
  case (Cons c r)
  have "take (length w) (ToUpper s) = w \<longleftrightarrow> take (length w) s = w" if "w \<in> set ws" for w
    using map_upper_high[of w "take (length w) s"] assms[OF that] by (auto simp: ToUpper_def take_map)
  then show ?thesis by (auto simp: startsSpace_def Cons ToUpper_def)
qed (simp add: startsSpace_def)

lemma ToUpper_trimmed: "trimmed s \<Longrightarrow> trimmed (ToUpper s)"
proof -
  assume t: "trimmed s"
  have "startsSpace wideSpaces (ToUpper s) = startsSpace wideSpaces s"
    using wideSpaces_high by (rule startsSpace_ToUpper)
  moreover have "startsSpace (map rev wideSpaces) (ToUpper (rev s)) = startsSpace (map rev wideSpaces) (rev s)"
    by (rule startsSpace_ToUpper) (use wideSpaces_high in auto)
  moreover have "rev (ToUpper s) = ToUpper (rev s)" by (simp add: ToUpper_def rev_map)
  ultimately show ?thesis using t by (simp add: trimmed_def)
qed

lemma front_append:
  assumes "\<not> startsSpace wideSpaces row" "row \<noteq> []" "\<And>c. c \<in> set ds \<Longrightarrow> (of_char c :: nat) < 128"
  shows "\<not> startsSpace wideSpaces (row @ ds)"
proof
  assume "startsSpace wideSpaces (row @ ds)"
  then obtain w where w: "w \<in> set wideSpaces" "take (length w) (row @ ds) = w"
    using assms(1,2) by (auto simp: startsSpace_def)
  show False
  proof (cases "length w \<le> length row")
    case True
    then show ?thesis using w assms(1,2) by (auto simp: startsSpace_def)
  next
    case False
    then have "w = row @ take (length w - length row) ds" using w(2) by simp
    moreover have "length w = min (length w) (length (row @ ds))" using w(2) by (metis length_take min.commute)
    then have ne: "take (length w - length row) ds \<noteq> []" using False by auto
    ultimately have "hd (take (length w - length row) ds) \<in> set w \<inter> set ds"
      by (metis IntI Un_iff hd_in_set in_set_takeD set_append)
    then show False using wideSpaces_high[OF w(1)] assms(3) by force
  qed
qed

lemma natStr_plain: "c \<in> set (natStr n) \<Longrightarrow> plainChar c"
  using natStr_digits[of n] by (auto simp: list_all_iff isDigit_plain)

text \<open>A label never has surrounding white space: its row is trimmed and it ends in a digit.\<close>

lemma label_form:
  assumes "normalizedSeatLabel source = Inr (label, row, number)"
  shows "TrimSpace label = label" "TrimSpace row = row" "row \<noteq> []" "label = row @ Itoa number" "1 \<le> number"
proof -
  from assms show n: "1 \<le> number" and ne: "row \<noteq> []" and l: "label = row @ Itoa number"
    by (auto simp: normalizedSeatLabel_def Let_def split: option.splits if_splits)
  from assms have r: "row = ToUpper (TrimSpace (sdRow source))"
    by (auto simp: normalizedSeatLabel_def Let_def split: option.splits if_splits)
  have t: "trimmed row" unfolding r by (rule ToUpper_trimmed[OF TrimSpace_trimmed])
  then show "TrimSpace row = row" by (rule TrimSpace_id)
  have i: "Itoa number = natStr (nat number)" using n by (simp add: Itoa_def)
  have low: "(of_char c :: nat) < 128" if "c \<in> set (natStr m)" for c m
    using natStr_plain[OF that] by (simp add: plainChar_def)
  have "\<not> startsSpace wideSpaces label" unfolding l i
    using t ne low by (intro front_append) (simp_all add: trimmed_def)
  moreover have "\<not> startsSpace (map rev wideSpaces) (rev label)"
    using natStr_plain[OF last_in_set[OF natStr_ne[of "nat number"]]]
    by (intro plain_not_starts) (simp add: l i hd_append hd_rev)
  ultimately show "TrimSpace label = label" by (intro TrimSpace_id) (simp add: trimmed_def)
qed

section \<open>Layouts are well formed\<close>

definition inUnit :: "float64 \<Rightarrow> bool" where
  "inUnit x \<longleftrightarrow> isFinite x \<and> 0 \<le> ratOf x \<and> ratOf x \<le> 1"

definition boxOk :: "boundsBox \<Rightarrow> bool" where
  "boxOk b \<longleftrightarrow> inUnit (bxMinX b) \<and> inUnit (bxMaxX b) \<and> inUnit (bxMinY b) \<and> inUnit (bxMaxY b)
    \<and> ratOf (bxMinX b) \<le> ratOf (bxMaxX b) \<and> ratOf (bxMinY b) \<le> ratOf (bxMaxY b)"

definition seatOk :: "string \<Rightarrow> Seat \<Rightarrow> bool" where
  "seatOk auditoriumID s \<longleftrightarrow> setId s = SeatID auditoriumID (setLabel s) \<and> setAuditoriumId s = TrimSpace auditoriumID
    \<and> setLabel s = setRow s @ Itoa (setNumber s) \<and> setRow s \<noteq> [] \<and> 1 \<le> setNumber s \<and> setNumber s \<le> maxInt32
    \<and> inUnit (setX s) \<and> inUnit (setY s)"

definition areaOk :: "LayoutArea \<Rightarrow> bool" where
  "areaOk a \<longleftrightarrow> boxOk (arBounds a) \<and> 0 \<le> arCapacity a"

lemma normalizeSeatAxis_unit: "normalizeSeatAxis v lo hi = Inr x \<Longrightarrow> inUnit x"
  by (cases x) (auto simp: normalizeSeatAxis_def Let_def inUnit_def isFinite_def isNaN_def isInf_def fless_def
      split: if_splits)

lemma center_unit: "boardCenter a b lo hi = Inr x \<Longrightarrow> inUnit x"
  by (auto simp: boardCenter_def result_simps split: if_splits dest: normalizeSeatAxis_unit)

lemma bounds_ok:
  assumes "boardBounds board a b c d = Inr bx"
  shows "boxOk bx"
proof -
  from assms obtain x1 x2 y1 y2 where u: "inUnit x1" "inUnit x2" "inUnit y1" "inUnit y2"
    and le: "\<not> fless x2 x1" "\<not> fless y2 y1" and bx: "bx = \<lparr>bxMinX = x1, bxMaxX = x2, bxMinY = y1, bxMaxY = y2\<rparr>"
    by (auto simp: boardBounds_def boardX_def boardY_def result_simps split: if_splits dest!: normalizeSeatAxis_unit)
  have "\<not> fless y x \<Longrightarrow> inUnit x \<Longrightarrow> inUnit y \<Longrightarrow> ratOf x \<le> ratOf y" for x y
    by (cases x; cases y) (auto simp: fless_def inUnit_def isFinite_def)
  then show ?thesis using u le by (simp add: boxOk_def bx)
qed

lemma newZone_ok: "newZone board z = Inr a \<Longrightarrow> areaOk a"
  by (auto simp: newZone_def areaOk_def result_simps bounds_ok parseOptionalCapacity_def Let_def
      split: if_splits option.splits)

lemma newBlock_ok: "newBlock board z = Inr a \<Longrightarrow> areaOk a"
  by (auto simp: newBlock_def areaOk_def result_simps bounds_ok)

text \<open>The seat a provider row stands for, whatever the labels seen before it.\<close>

definition seatFrom :: "string \<Rightarrow> seatCoordinateBoard \<Rightarrow> (string \<Rightarrow> string) \<Rightarrow> seatDataSeat \<Rightarrow> Seat result" where
  "seatFrom auditoriumID board saleForms source =
    bindR (normalizedSeatLabel source) (newSeat auditoriumID board saleForms source)"

lemma seatFrom_label:
  "seatFrom aud board forms src = Inr s \<Longrightarrow> \<exists>r n. normalizedSeatLabel src = Inr (setLabel s, r, n)"
  by (auto simp: seatFrom_def newSeat_def Let_def result_simps split: prod.splits)

lemma newSeat_fields:
  "newSeat aud board forms src (label, row, number) = Inr s \<Longrightarrow>
    setId s = SeatID aud label \<and> setAuditoriumId s = aud \<and> setLabel s = label \<and> setRow s = row \<and> setNumber s = number
    \<and> number \<le> maxInt32 \<and> inUnit (setX s) \<and> inUnit (setY s)"
  by (auto simp: newSeat_def Let_def result_simps centerX_def centerY_def center_unit seatNumberAsInt32_def
      split: if_splits)

lemma canonicalSeat_label: "setLabel (canonicalSeat s) = TrimSpace (setLabel s)"
  by (simp add: canonicalSeat_def)

lemma seatFrom_ok:
  assumes "seatFrom aud board forms src = Inr s"
  shows "seatOk aud (canonicalSeat s)" "setLabel (canonicalSeat s) = setLabel s"
proof -
  from assms obtain label row number where l: "normalizedSeatLabel src = Inr (label, row, number)"
    and s: "newSeat aud board forms src (label, row, number) = Inr s"
    by (auto simp: seatFrom_def result_simps)
  note f = newSeat_fields[OF s] and t = label_form[OF l]
  show "setLabel (canonicalSeat s) = setLabel s" using f t by (simp add: canonicalSeat_label)
  show "seatOk aud (canonicalSeat s)" using f t by (simp add: seatOk_def canonicalSeat_def)
qed

lemma appendSeat_Inr:
  "appendSeat aud board forms (ly, lb) src = Inr st \<longleftrightarrow>
    (\<exists>s. seatFrom aud board forms src = Inr s \<and> setLabel s \<notin> set lb
      \<and> st = (ly\<lparr>lySeats := lySeats ly @ [s]\<rparr>, setLabel s # lb))"
proof -
  have "newSeat aud board forms src i = Inr s \<Longrightarrow> setLabel s = fst i" for i s
    by (cases i) (auto dest: newSeat_fields)
  then show ?thesis by (fastforce simp: appendSeat_def seatFrom_def result_simps split: if_splits)
qed

lemma appendSeats_Inr:
  "appendSeatMapSeats aud board forms srcs (ly, lb) = Inr st \<longleftrightarrow>
    (\<exists>ss. mapR (seatFrom aud board forms) srcs = Inr ss \<and> distinct (map setLabel ss)
      \<and> set (map setLabel ss) \<inter> set lb = {}
      \<and> st = (ly\<lparr>lySeats := lySeats ly @ ss\<rparr>, rev (map setLabel ss) @ lb))"
proof (induction srcs arbitrary: ly lb)
  case Nil
  then show ?case by (auto simp: appendSeatMapSeats_def)
next
  case (Cons src srcs)
  have "appendSeatMapSeats aud board forms (src # srcs) (ly, lb) = Inr st \<longleftrightarrow>
    (\<exists>s. seatFrom aud board forms src = Inr s \<and> setLabel s \<notin> set lb \<and>
      appendSeatMapSeats aud board forms srcs (ly\<lparr>lySeats := lySeats ly @ [s]\<rparr>, setLabel s # lb) = Inr st)"
    by (auto simp: appendSeatMapSeats_def result_simps appendSeat_Inr)
  then show ?case unfolding Cons.IH by (fastforce simp: result_simps)
qed

definition sourceLabel :: "seatDataSeat \<Rightarrow> string" where
  "sourceLabel src = (case normalizedSeatLabel src of Inr (label, _, _) \<Rightarrow> label | Inl _ \<Rightarrow> [])"

definition responseSeats :: "seatDataItem list \<Rightarrow> seatDataSeat list" where
  "responseSeats items = concat (map itSeats items)"

lemma seatFrom_sourceLabel: "seatFrom aud board forms src = Inr s \<Longrightarrow> sourceLabel src = setLabel s"
  using seatFrom_label by (fastforce simp: sourceLabel_def)

lemma mapR_labels: "mapR (seatFrom aud board forms) srcs = Inr ss \<Longrightarrow> map setLabel ss = map sourceLabel srcs"
  by (auto simp: mapR_Inr list_all2_conv_all_nth seatFrom_sourceLabel intro!: nth_equalityI)

lemma appendItem_Inr:
  "appendSeatMapItem aud (ly, lb) item = Inr st \<longleftrightarrow>
    (\<exists>board ss zs bs. newSeatCoordinateBoard (itBoard item) = Inr board
      \<and> mapR (seatFrom aud board (saleFormNames (itSaleForms item))) (itSeats item) = Inr ss
      \<and> distinct (map setLabel ss) \<and> set (map setLabel ss) \<inter> set lb = {}
      \<and> mapR (newZone board) (itZones item) = Inr zs \<and> mapR (newBlock board) (itBlocks item) = Inr bs
      \<and> st = (\<lparr>lySeats = lySeats ly @ ss, lyZones = lyZones ly @ zs, lyBlocks = lyBlocks ly @ bs\<rparr>,
              rev (map setLabel ss) @ lb))"
  unfolding appendSeatMapItem_def
  by (fastforce simp: result_simps appendSeats_Inr appendSeatMapZones_def appendSeatMapBlocks_def)

definition layoutInv :: "string \<Rightarrow> layoutState \<Rightarrow> bool" where
  "layoutInv aud st = (case st of (ly, lb) \<Rightarrow>
    distinct (map setLabel (lySeats ly)) \<and> set lb = setLabel ` set (lySeats ly)
    \<and> (\<forall>s \<in> set (lySeats ly). seatOk aud (canonicalSeat s) \<and> setLabel (canonicalSeat s) = setLabel s)
    \<and> (\<forall>a \<in> set (lyZones ly) \<union> set (lyBlocks ly). areaOk a))"

lemma appendItem_inv:
  assumes "layoutInv aud (ly, lb)" "appendSeatMapItem aud (ly, lb) item = Inr st"
  shows "layoutInv aud st \<and> map setLabel (lySeats (fst st)) = map setLabel (lySeats ly) @ map sourceLabel (itSeats item)"
proof -
  from assms(2) obtain board ss zs bs where ss: "mapR (seatFrom aud board (saleFormNames (itSaleForms item))) (itSeats item) = Inr ss"
    "distinct (map setLabel ss)" "set (map setLabel ss) \<inter> set lb = {}"
    and zs: "mapR (newZone board) (itZones item) = Inr zs" and bs: "mapR (newBlock board) (itBlocks item) = Inr bs"
    and st: "st = (\<lparr>lySeats = lySeats ly @ ss, lyZones = lyZones ly @ zs, lyBlocks = lyBlocks ly @ bs\<rparr>, rev (map setLabel ss) @ lb)"
    unfolding appendItem_Inr by blast
  have "\<forall>s \<in> set ss. seatOk aud (canonicalSeat s) \<and> setLabel (canonicalSeat s) = setLabel s"
    using mapR_Inr_mem[OF ss(1)] seatFrom_ok by blast
  moreover have "\<forall>a \<in> set zs \<union> set bs. areaOk a"
    using mapR_Inr_mem[OF zs] mapR_Inr_mem[OF bs] newZone_ok newBlock_ok by blast
  ultimately have "layoutInv aud st"
    using assms(1) ss(2,3) unfolding layoutInv_def st by (auto simp: image_Un)
  then show ?thesis using mapR_labels[OF ss(1)] by (simp add: st)
qed

lemma appendItems_inv:
  assumes "layoutInv aud (ly, lb)" "foldR (appendSeatMapItem aud) (ly, lb) items = Inr st"
  shows "layoutInv aud st \<and> map setLabel (lySeats (fst st)) = map setLabel (lySeats ly) @ map sourceLabel (responseSeats items)"
  using assms
proof (induction items arbitrary: ly lb)
  case Nil
  then show ?case by (auto simp: responseSeats_def)
next
  case (Cons item items)
  then obtain ly1 lb1 where 1: "appendSeatMapItem aud (ly, lb) item = Inr (ly1, lb1)"
    "foldR (appendSeatMapItem aud) (ly1, lb1) items = Inr st" by (auto simp: result_simps)
  from appendItem_inv[OF Cons.prems(1) 1(1)] Cons.IH[OF _ 1(2)] show ?case by (simp add: responseSeats_def)
qed

lemma layoutInv_empty: "layoutInv aud (emptyLayout, [])"
  by (simp add: layoutInv_def emptyLayout_def)

lemma canonicalArea_ok [simp]: "areaOk (canonicalArea a) = areaOk a"
  by (simp add: areaOk_def canonicalArea_def)

lemma sort_strict: "distinct xs \<Longrightarrow> sorted_wrt (<) (sort (xs :: string list))"
  by (simp add: strict_sorted_iff)

lemma canonical_labels:
  "\<forall>s \<in> set ss. setLabel (canonicalSeat s) = setLabel s \<Longrightarrow> map setLabel (map canonicalSeat ss) = map setLabel ss"
  by simp

definition layoutOk :: "string \<Rightarrow> Layout \<Rightarrow> bool" where
  "layoutOk aud L \<longleftrightarrow> lySeats L \<noteq> [] \<and> sorted_wrt (<) (map setLabel (lySeats L))
    \<and> (\<forall>s \<in> set (lySeats L). seatOk aud s) \<and> (\<forall>a \<in> set (lyZones L) \<union> set (lyBlocks L). areaOk a)"

lemma layoutFromItems_ok:
  assumes "layoutFromItems aud items = Inr L"
  shows "layoutOk aud L \<and> map setLabel (lySeats L) = sort (map sourceLabel (responseSeats items))"
proof -
  from assms obtain raw lb where f: "foldR (appendSeatMapItem aud) (emptyLayout, []) items = Inr (raw, lb)"
    and ne: "lySeats L \<noteq> []"
    and s: "lySeats L = sort_key setLabel (map canonicalSeat (lySeats raw))"
    and z: "lyZones L = sortAreas (map canonicalArea (lyZones raw))" "lyBlocks L = sortAreas (map canonicalArea (lyBlocks raw))"
    by (auto simp: layoutFromItems_def result_simps Let_def canonicalizeSeatMapLayout_def split: if_splits)
  from appendItems_inv[OF layoutInv_empty f]
  have inv: "layoutInv aud (raw, lb)" and lab: "map setLabel (lySeats raw) = map sourceLabel (responseSeats items)"
    by (simp_all add: emptyLayout_def)
  have can: "map setLabel (map canonicalSeat (lySeats raw)) = map setLabel (lySeats raw)"
    using inv by (intro canonical_labels) (simp add: layoutInv_def)
  have "map setLabel (lySeats L) = sort (map setLabel (map canonicalSeat (lySeats raw)))"
    unfolding s by (rule properties_for_sort[symmetric]) (simp_all add: multiset.map_comp)
  then have sorted: "map setLabel (lySeats L) = sort (map setLabel (lySeats raw))" unfolding can .
  moreover have "\<forall>x \<in> set (lySeats L). seatOk aud x" using inv by (auto simp: s layoutInv_def)
  moreover have "\<forall>a \<in> set (lyZones L) \<union> set (lyBlocks L). areaOk a"
    using inv by (auto simp: z sortAreas_def layoutInv_def)
  moreover have "distinct (map setLabel (lySeats raw))" using inv by (simp add: layoutInv_def)
  ultimately show ?thesis using ne lab sort_strict unfolding layoutOk_def by metis
qed

definition responseItems :: "jsonBody \<Rightarrow> seatDataItem list" where
  "responseItems body = sevItems (fst (Unmarshal decodeSeatEnvelope body zeroSeatEnvelope))"

lemma parseSeatMapLayout_items:
  "parseSeatMapLayout body aud = Inr L \<Longrightarrow> layoutFromItems aud (responseItems body) = Inr L"
  by (auto simp: parseSeatMapLayout_def responseItems_def split: prod.splits option.splits if_splits)

text \<open>A response with two seats, as a witness for the theorems.\<close>

definition sampleSeat :: "string \<Rightarrow> string \<Rightarrow> string \<Rightarrow> json" where
  "sampleSeat number left status = JObject
    [(''seatRowNm'', JString ''a''), (''seatNo'', JString number), (''seatSaleYn'', JString ''Y''), (''seatStusCd'', JString status),
     (''xcoordStartVal'', JString left), (''xcoordEndVal'', JString left), (''ycoordStartVal'', JString ''1''), (''ycoordEndVal'', JString ''3'')]"

definition sampleSeatBody :: jsonBody where
  "sampleSeatBody = \<lparr>bSize = 600, bFirst = Some (JObject
    [(''statusCode'', JNumber ''0''), (''data'', JObject [(''items'', JArray [JObject
      [(''sbord'', JObject [(''xcoordStartVal'', JString ''0''), (''xcoordEndVal'', JString ''4''),
         (''ycoordStartVal'', JString ''0''), (''ycoordEndVal'', JString ''4'')]),
       (''seats'', JArray [sampleSeat ''2'' ''3'' ''00'', sampleSeat ''1'' ''1'' ''01''])]])])], 600), bRest = None\<rparr>"

lemma seatFrom_isOk:
  "isOk (seatFrom aud board forms src) \<longleftrightarrow>
    (case normalizedSeatLabel src of
       Inl _ \<Rightarrow> False
     | Inr (label, row, number) \<Rightarrow> isOk (centerX board (sdXStart src) (sdXEnd src)) \<and> isOk (centerY board (sdYStart src) (sdYEnd src))
         \<and> isOk (seatNumberAsInt32 number))"
  by (auto simp: seatFrom_def newSeat_def Let_def isOk_iff result_simps split: sum.splits prod.splits)

lemma sort_key_Nil: "sort_key f xs = [] \<longleftrightarrow> xs = []"
  by (metis length_0_conv length_sort)

text \<open>When one area is accepted.\<close>

lemma layout_single_ok:
  assumes "newSeatCoordinateBoard (itBoard item) = Inr board" "itSeats item \<noteq> []"
    "\<forall>src \<in> set (itSeats item). isOk (seatFrom aud board (saleFormNames (itSaleForms item)) src)"
    "distinct (map sourceLabel (itSeats item))"
    "\<forall>z \<in> set (itZones item). isOk (newZone board z)" "\<forall>b \<in> set (itBlocks item). isOk (newBlock board b)"
  shows "isOk (layoutFromItems aud [item])"
proof -
  from assms obtain ss zs bs where ss: "mapR (seatFrom aud board (saleFormNames (itSaleForms item))) (itSeats item) = Inr ss"
    and "mapR (newZone board) (itZones item) = Inr zs" "mapR (newBlock board) (itBlocks item) = Inr bs"
    by (meson isOk_iff mapR_isOk)
  moreover have "distinct (map setLabel ss)" using assms(4) mapR_labels[OF ss] by simp
  ultimately obtain ly lb where "appendSeatMapItem aud (emptyLayout, []) item = Inr (ly, lb)" "lySeats ly = ss"
    using appendItem_Inr[of aud emptyLayout "[]" item] assms(1) by (fastforce simp: emptyLayout_def)
  moreover have "ss \<noteq> []" using mapR_length[OF ss] assms(2) by auto
  ultimately show ?thesis by (simp add: layoutFromItems_def Let_def canonicalizeSeatMapLayout_def sort_key_Nil)
qed

definition sampleItem :: seatDataItem where
  "sampleItem = zeroItem\<lparr>
    itBoard := zeroBoard\<lparr>bdXStart := ''0'', bdXEnd := ''4'', bdYStart := ''0'', bdYEnd := ''4''\<rparr>,
    itSeats := [zeroSeat\<lparr>sdRow := ''a'', sdNumber := ''2'', sdSaleYN := ''Y'', sdStatusCode := ''00'', sdXStart := ''3'', sdXEnd := ''3'', sdYStart := ''1'', sdYEnd := ''3''\<rparr>,
      zeroSeat\<lparr>sdRow := ''a'', sdNumber := ''1'', sdSaleYN := ''Y'', sdStatusCode := ''01'', sdXStart := ''1'', sdXEnd := ''1'', sdYStart := ''1'', sdYEnd := ''3''\<rparr>]\<rparr>"

abbreviation sampleBoard :: seatCoordinateBoard where
  "sampleBoard \<equiv> \<lparr>cbMinX = Fin 0, cbMaxX = Fin 4, cbMinY = Fin 0, cbMaxY = Fin 4\<rparr>"

lemma sampleItem_board: "newSeatCoordinateBoard (itBoard sampleItem) = Inr sampleBoard"
proof -
  have "case newSeatCoordinateBoard (itBoard sampleItem) of Inr b \<Rightarrow> b = sampleBoard | Inl _ \<Rightarrow> False" by code_simp
  then show ?thesis by (auto split: sum.splits)
qed

lemma sampleItem_seats: "\<forall>src \<in> set (itSeats sampleItem). isOk (seatFrom aud sampleBoard forms src)"
proof -
  have "\<forall>src \<in> set (itSeats sampleItem). case normalizedSeatLabel src of
       Inl _ \<Rightarrow> False
     | Inr (label, row, number) \<Rightarrow> isOk (centerX sampleBoard (sdXStart src) (sdXEnd src))
         \<and> isOk (centerY sampleBoard (sdYStart src) (sdYEnd src)) \<and> isOk (seatNumberAsInt32 number)"
    by code_simp
  then show ?thesis by (simp only: seatFrom_isOk)
qed

lemma sampleItem_labels: "map sourceLabel (itSeats sampleItem) = [''A2'', ''A1'']"
  by code_simp

lemma sampleItem_ok: "isOk (layoutFromItems aud [sampleItem])"
proof (rule layout_single_ok[OF sampleItem_board])
  show "distinct (map sourceLabel (itSeats sampleItem))" by (simp add: sampleItem_labels)
  show "\<forall>src \<in> set (itSeats sampleItem). isOk (seatFrom aud sampleBoard (saleFormNames (itSaleForms sampleItem)) src)"
    by (rule sampleItem_seats)
qed (simp_all add: sampleItem_def zeroItem_def)

lemma sampleSeatBody_decoded:
  "Unmarshal decodeSeatEnvelope sampleSeatBody zeroSeatEnvelope = (zeroSeatEnvelope\<lparr>sevItems := [sampleItem]\<rparr>, None)"
  by code_simp

lemma sampleSeatBody_items: "responseItems sampleSeatBody = [sampleItem]"
  by (simp add: responseItems_def sampleSeatBody_decoded)

lemma sampleSeatBody_ok: "isOk (parseSeatMapLayout sampleSeatBody aud)"
  using sampleItem_ok[of aud] unfolding parseSeatMapLayout_def sampleSeatBody_decoded by (simp add: zeroSeatEnvelope_def)

text \<open>
  C17. A layout that is accepted is well formed and complete: its seats are those of the response,
  one for each, in strictly ascending order of their labels, so no label occurs twice even across
  seating areas; a label is its row and number, the identifier is the one derived from the label,
  numbers are positive 32-bit values; every coordinate of a seat, zone or block lies in the unit
  square with the bounds in order, and capacities are not negative.
\<close>

theorem parseSeatMapLayout_wellformed:
  assumes "parseSeatMapLayout body auditoriumID = Inr layout"
  shows "layoutOk auditoriumID layout
    \<and> map setLabel (lySeats layout) = sort (map sourceLabel (responseSeats (responseItems body)))"
  by (rule layoutFromItems_ok[OF parseSeatMapLayout_items[OF assms]])

theorem parseSeatMapLayout_wellformed_witness:
  "\<exists>layout. parseSeatMapLayout sampleSeatBody ''aud'' = Inr layout \<and> layoutOk ''aud'' layout
    \<and> map setLabel (lySeats layout) = [''A1'', ''A2'']"
proof -
  obtain layout where l: "parseSeatMapLayout sampleSeatBody ''aud'' = Inr layout"
    using sampleSeatBody_ok[of "''aud''"] unfolding isOk_iff by blast
  have "sort (map sourceLabel (responseSeats (responseItems sampleSeatBody))) = [''A1'', ''A2'']"
    by (simp add: sampleSeatBody_items responseSeats_def sampleItem_labels)
  with parseSeatMapLayout_wellformed[OF l] show ?thesis by (intro exI[of _ layout]) (simp only: l simp_thms)
qed

section \<open>The order of the response does not matter\<close>

text \<open>Two responses whose areas agree up to the order of the seats in each.\<close>

definition sameArea :: "seatDataItem \<Rightarrow> seatDataItem \<Rightarrow> bool" where
  "sameArea i j \<longleftrightarrow> itBoard i = itBoard j \<and> itSaleForms i = itSaleForms j \<and> itZones i = itZones j
    \<and> itBlocks i = itBlocks j \<and> mset (itSeats i) = mset (itSeats j)"

definition sameState :: "layoutState \<Rightarrow> layoutState \<Rightarrow> bool" where
  "sameState s t \<longleftrightarrow> mset (lySeats (fst s)) = mset (lySeats (fst t)) \<and> lyZones (fst s) = lyZones (fst t)
    \<and> lyBlocks (fst s) = lyBlocks (fst t) \<and> set (snd s) = set (snd t)"

lemma mapR_perm:
  assumes "mapR f xs = Inr us" "mset xs = mset ys"
  shows "\<exists>vs. mapR f ys = Inr vs \<and> mset vs = mset us"
proof -
  define g where "g x = (case f x of Inr v \<Rightarrow> v | Inl _ \<Rightarrow> undefined)" for x
  have all: "f x = Inr (g x)" if "x \<in> set xs" for x
    using mapR_fold_mem[OF assms(1) that] by (auto simp: g_def)
  have set: "set xs = set ys" using assms(2) by (rule mset_eq_setD)
  have "mapR f zs = Inr (map g zs)" if "set zs \<subseteq> set xs" for zs
    using that all by (induction zs) auto
  then show ?thesis using assms set by (metis mset_map order_refl sum.inject(2))
qed

lemma appendItem_same:
  assumes "sameArea i j" "sameState (ly, lb) (ly', lb')" "appendSeatMapItem aud (ly, lb) i = Inr st"
  shows "\<exists>st'. appendSeatMapItem aud (ly', lb') j = Inr st' \<and> sameState st st'"
proof -
  from assms(3) obtain board ss zs bs where b: "newSeatCoordinateBoard (itBoard i) = Inr board"
    and ss: "mapR (seatFrom aud board (saleFormNames (itSaleForms i))) (itSeats i) = Inr ss"
    and d: "distinct (map setLabel ss)" "set (map setLabel ss) \<inter> set lb = {}"
    and zb: "mapR (newZone board) (itZones i) = Inr zs" "mapR (newBlock board) (itBlocks i) = Inr bs"
    and st: "st = (\<lparr>lySeats = lySeats ly @ ss, lyZones = lyZones ly @ zs, lyBlocks = lyBlocks ly @ bs\<rparr>, rev (map setLabel ss) @ lb)"
    unfolding appendItem_Inr by blast
  have "mset (itSeats i) = mset (itSeats j)" using assms(1) by (simp add: sameArea_def)
  from mapR_perm[OF ss this] obtain ts where
    ts: "mapR (seatFrom aud board (saleFormNames (itSaleForms i))) (itSeats j) = Inr ts" "mset ts = mset ss" by blast
  have m: "mset (map setLabel ts) = mset (map setLabel ss)" using ts(2) by simp
  have set: "set (map setLabel ts) = set (map setLabel ss)" using m by (rule mset_eq_setD)
  have dt: "distinct (map setLabel ts)" using d(1) m by (metis mset_eq_imp_distinct_iff)
  have lb: "set lb' = set lb" using assms(2) by (simp add: sameState_def)
  let ?st = "(\<lparr>lySeats = lySeats ly' @ ts, lyZones = lyZones ly' @ zs, lyBlocks = lyBlocks ly' @ bs\<rparr>, rev (map setLabel ts) @ lb')"
  have "appendSeatMapItem aud (ly', lb') j = Inr ?st"
    unfolding appendItem_Inr using assms(1) b ts(1) dt d(2) zb set lb
    by (intro exI[of _ board] exI[of _ ts] exI[of _ zs] exI[of _ bs]) (simp add: sameArea_def)
  moreover have "sameState st ?st" using assms(2) ts(2) set by (simp add: sameState_def st)
  ultimately show ?thesis by blast
qed

lemma appendItems_same:
  assumes "list_all2 sameArea is js" "sameState s t" "foldR (appendSeatMapItem aud) s is = Inr st"
  shows "\<exists>st'. foldR (appendSeatMapItem aud) t js = Inr st' \<and> sameState st st'"
  using assms
proof (induction arbitrary: s t rule: list_all2_induct)
  case Nil
  then show ?case by simp
next
  case (Cons i "is" j js)
  from Cons.prems(2) obtain s1 where s1: "appendSeatMapItem aud s i = Inr s1" "foldR (appendSeatMapItem aud) s1 is = Inr st"
    by (auto simp: result_simps)
  from appendItem_same[OF Cons.hyps(1), of "fst s" "snd s" "fst t" "snd t" aud s1] Cons.prems(1) s1(1)
  obtain t1 where "appendSeatMapItem aud t j = Inr t1" "sameState s1 t1" by auto
  with Cons.IH[of s1 t1] s1(2) show ?case by simp
qed

lemma sort_seats_same:
  assumes "mset xs = mset ys" "distinct (map setLabel xs)"
  shows "sort_key setLabel xs = sort_key setLabel ys"
proof (rule sort_key_inj_key_eq)
  show "mset xs = mset (sort_key setLabel ys)" using assms(1) by simp
  show "inj_on setLabel (set xs)" using assms(2) by (simp add: distinct_map)
qed simp

lemma layoutFromItems_same:
  assumes "list_all2 sameArea is js" "layoutFromItems aud is = Inr L"
  shows "layoutFromItems aud js = Inr L"
proof -
  from assms(2) obtain raw lb where f: "foldR (appendSeatMapItem aud) (emptyLayout, []) is = Inr (raw, lb)"
    by (auto simp: layoutFromItems_def result_simps)
  have "sameState (emptyLayout, []) (emptyLayout, [])" by (simp add: sameState_def)
  from appendItems_same[OF assms(1) this f] obtain raw' lb' where
    f': "foldR (appendSeatMapItem aud) (emptyLayout, []) js = Inr (raw', lb')" and same: "sameState (raw, lb) (raw', lb')"
    by (metis surj_pair)
  have inv: "layoutInv aud (raw, lb)" using appendItems_inv[OF layoutInv_empty f] by simp
  then have "map setLabel (map canonicalSeat (lySeats raw)) = map setLabel (lySeats raw)"
    by (intro canonical_labels) (simp add: layoutInv_def)
  then have "distinct (map setLabel (map canonicalSeat (lySeats raw)))" using inv by (simp only: layoutInv_def prod.case)
  moreover have "mset (map canonicalSeat (lySeats raw)) = mset (map canonicalSeat (lySeats raw'))"
    using same by (simp add: sameState_def)
  ultimately have "sort_key setLabel (map canonicalSeat (lySeats raw)) = sort_key setLabel (map canonicalSeat (lySeats raw'))"
    by (intro sort_seats_same)
  then show ?thesis using assms(2) same f f'
    by (auto simp: layoutFromItems_def Let_def canonicalizeSeatMapLayout_def sameState_def split: if_splits)
qed

text \<open>
  C31. The layout, and with it the hash that versions it, does not depend on the order in which the
  provider lists the seats of an area: a response that differs only in that order is accepted with
  the very same layout.
\<close>

theorem layout_order_independent:
  assumes "layoutFromItems auditoriumID items = Inr layout" "list_all2 sameArea items items'"
  shows "layoutFromItems auditoriumID items' = Inr layout"
  using layoutFromItems_same[OF assms(2,1)] .

theorem layout_order_independent_witness:
  "\<exists>layout. layoutFromItems ''aud'' [sampleItem\<lparr>itSeats := rev (itSeats sampleItem)\<rparr>] = Inr layout"
proof -
  obtain layout where "layoutFromItems ''aud'' [sampleItem] = Inr layout"
    using sampleItem_ok[of "''aud''"] unfolding isOk_iff by blast
  from layout_order_independent[OF this, of "[sampleItem\<lparr>itSeats := rev (itSeats sampleItem)\<rparr>]"]
  show ?thesis by (auto simp: sameArea_def)
qed

section \<open>Availability is complete or an error\<close>

lemma wrapTwo_is [simp]: "errorsIs (wrapTwo s e) s"
  by (simp add: wrapTwo_def)

text \<open>What the loop demands of one row, and what it does with it.\<close>

definition rowFits :: "string \<Rightarrow> string list \<Rightarrow> seatDataSeat \<Rightarrow> bool" where
  "rowFits aud layoutSeats src \<longleftrightarrow> isOk (normalizedSeatLabel src) \<and> SeatID aud (sourceLabel src) \<in> set layoutSeats \<and> statusKnown src"

abbreviation rowId :: "string \<Rightarrow> seatDataSeat \<Rightarrow> string" where
  "rowId aud src \<equiv> SeatID aud (sourceLabel src)"

lemma availabilityTurn_Inr:
  "availabilityTurn aud ids (seen, av) src = Inr st \<longleftrightarrow>
    rowFits aud ids src \<and> rowId aud src \<notin> set seen
      \<and> st = (rowId aud src # seen, av @ (if seatOpen src then [rowId aud src] else []))"
  by (cases "normalizedSeatLabel src")
    (auto simp: availabilityTurn_def rowFits_def sourceLabel_def Let_def split: if_splits)

lemma availabilityTurn_Inl:
  "availabilityTurn aud ids st src = Inl e \<Longrightarrow> errorsIs e ErrSeatAvailabilityIncomplete"
  by (auto simp: availabilityTurn_def Let_def split: sum.splits prod.splits if_splits)

lemma foldR_Inl:
  assumes "foldR f s xs = Inl e" "\<And>s x e. f s x = Inl e \<Longrightarrow> P e" shows "P e"
  using assms by (induction xs arbitrary: s) (auto simp: result_simps)

lemma availabilityLoop_Inr:
  "foldR (availabilityTurn aud ids) (seen, av) srcs = Inr st \<longleftrightarrow>
    (\<forall>src \<in> set srcs. rowFits aud ids src) \<and> distinct (map (rowId aud) srcs)
      \<and> rowId aud ` set srcs \<inter> set seen = {}
      \<and> st = (rev (map (rowId aud) srcs) @ seen, av @ map (rowId aud) (filter seatOpen srcs))"
proof (induction srcs arbitrary: seen av)
  case Nil
  then show ?case by auto
next
  case (Cons src srcs)
  have "foldR (availabilityTurn aud ids) (seen, av) (src # srcs) = Inr st \<longleftrightarrow>
     rowFits aud ids src \<and> rowId aud src \<notin> set seen \<and>
     foldR (availabilityTurn aud ids) (rowId aud src # seen, av @ (if seatOpen src then [rowId aud src] else [])) srcs = Inr st"
    by (auto simp: result_simps availabilityTurn_Inr)
  then show ?case unfolding Cons.IH by auto
qed

lemma providerAvailableSeats_Inr:
  assumes "distinct ids"
  shows "providerAvailableSeats items aud ids = Inr av \<longleftrightarrow>
    (\<forall>src \<in> set (responseSeats items). isOk (normalizedSeatLabel src) \<and> statusKnown src)
    \<and> distinct (map (rowId aud) (responseSeats items)) \<and> rowId aud ` set (responseSeats items) = set ids
    \<and> av = sort (map (rowId aud) (filter seatOpen (responseSeats items)))" (is "?l \<longleftrightarrow> ?r")
proof -
  let ?srcs = "responseSeats items"
  have "?l \<longleftrightarrow> (\<forall>src \<in> set ?srcs. rowFits aud ids src) \<and> distinct (map (rowId aud) ?srcs) \<and> length ?srcs = length ids
      \<and> av = sort (map (rowId aud) (filter seatOpen ?srcs))"
    unfolding providerAvailableSeats_def responseSeats_def[symmetric]
    by (auto simp: result_simps availabilityLoop_Inr split: if_splits)
  moreover have "length ?srcs = length ids \<longleftrightarrow> rowId aud ` set ?srcs = set ids"
    if "distinct (map (rowId aud) ?srcs)" "rowId aud ` set ?srcs \<subseteq> set ids"
  proof -
    have "card (rowId aud ` set ?srcs) = length ?srcs" using distinct_card[OF that(1)] by simp
    moreover have "card (set ids) = length ids" using assms by (rule distinct_card)
    ultimately show ?thesis using that(2) by (metis card_subset_eq finite_set)
  qed
  ultimately show ?thesis unfolding rowFits_def by auto
qed

lemma providerAvailableSeats_Inl:
  "providerAvailableSeats items aud ids = Inl e \<Longrightarrow> errorsIs e ErrSeatAvailabilityIncomplete"
  by (auto simp: providerAvailableSeats_def result_simps split: if_splits
      intro: foldR_Inl[where P = "\<lambda>e. errorsIs e ErrSeatAvailabilityIncomplete", OF _ availabilityTurn_Inl])

text \<open>
  C18. Live availability is complete or it is an error: on a decoded response of status zero,
  \<open>parseSeatAvailability\<close> answers exactly when every row has a label and a known status and the
  rows name every seat of the layout once and nothing else; the answer is then, in order, the seats
  on sale with status 00. Every other outcome wraps \<open>ErrSeatAvailabilityIncomplete\<close>, so missing rows
  are never read as sold-out seats.
\<close>

theorem parseSeatAvailability_complete:
  assumes "Unmarshal decodeSeatEnvelope body zeroSeatEnvelope = (envelope, None)" "sevStatusCode envelope = 0"
    "TrimSpace auditoriumID \<noteq> []"
  shows "(parseSeatAvailability body auditoriumID (Some layout) = Inr available \<longleftrightarrow>
      sevItems envelope \<noteq> [] \<and> (\<forall>s \<in> set (lySeats layout). TrimSpace (setId s) \<noteq> [])
      \<and> (\<forall>src \<in> set (responseSeats (sevItems envelope)). isOk (normalizedSeatLabel src) \<and> statusKnown src)
      \<and> distinct (map (\<lambda>src. SeatID auditoriumID (sourceLabel src)) (responseSeats (sevItems envelope)))
      \<and> (\<lambda>src. SeatID auditoriumID (sourceLabel src)) ` set (responseSeats (sevItems envelope)) = setId ` set (lySeats layout)
      \<and> available = sort (map (\<lambda>src. SeatID auditoriumID (sourceLabel src)) (filter seatOpen (responseSeats (sevItems envelope)))))
    \<and> (\<forall>e. parseSeatAvailability body auditoriumID (Some layout) = Inl e \<longrightarrow> errorsIs e ErrSeatAvailabilityIncomplete)"
proof -
  let ?ids = "keepFirst id (map setId (lySeats layout))"
  have d: "distinct ?ids" using keepFirst_distinct[of id "map setId (lySeats layout)"] by simp
  have s: "set ?ids = setId ` set (lySeats layout)" using keepFirst_keys[of id "map setId (lySeats layout)"] by simp
  have r: "parseSeatAvailability body auditoriumID (Some layout) =
    (if sevItems envelope = [] then Inl (wrapS ErrSeatAvailabilityIncomplete ''provider returned no seat areas'')
     else if \<exists>s \<in> set (lySeats layout). TrimSpace (setId s) = [] then
       Inl (wrapS ErrSeatAvailabilityIncomplete ''static layout contains an invalid seat'')
     else providerAvailableSeats (sevItems envelope) auditoriumID ?ids)"
    using assms by (auto simp: parseSeatAvailability_def seatAvailabilityLayoutIndex_def list_all_iff)
  show ?thesis unfolding r
    using providerAvailableSeats_Inr[OF d, of "sevItems envelope" auditoriumID available] s
      providerAvailableSeats_Inl[of "sevItems envelope" auditoriumID ?ids]
    by (auto split: if_splits)
qed

lemma SeatID_trim: "TrimSpace (SeatID aud label) \<noteq> []"
proof -
  obtain h where h: "SeatID aud label = ''seat_'' @ h" "list_all lowerHexDigit h"
    using digest_hex by (auto simp: SeatID_def CatalogID_def Let_def TrimSpace_plain plainChar_def)
  have "list_all plainChar (SeatID aud label)"
    using h by (auto simp: list_all_iff lowerHexDigit_def plainChar_def isDigit_def)
  then show ?thesis using h(1) by (simp add: TrimSpace_plain)
qed

definition oneSeatBody :: jsonBody where
  "oneSeatBody = \<lparr>bSize = 200, bFirst = Some (JObject
    [(''data'', JObject [(''items'', JArray [JObject [(''seats'', JArray [JObject
      [(''seatRowNm'', JString ''a''), (''seatNo'', JString ''1''), (''seatSaleYn'', JString ''y''), (''seatStusCd'', JString ''00'')]])]])])], 200),
    bRest = None\<rparr>"

definition oneSeat :: seatDataSeat where
  "oneSeat = zeroSeat\<lparr>sdRow := ''a'', sdNumber := ''1'', sdSaleYN := ''y'', sdStatusCode := ''00''\<rparr>"

theorem parseSeatAvailability_complete_witness:
  "\<exists>layout. parseSeatAvailability oneSeatBody ''aud'' (Some layout) = Inr [SeatID ''aud'' ''A1'']"
proof -
  have dec: "Unmarshal decodeSeatEnvelope oneSeatBody zeroSeatEnvelope = (zeroSeatEnvelope\<lparr>sevItems := [zeroItem\<lparr>itSeats := [oneSeat]\<rparr>]\<rparr>, None)"
    by code_simp
  have one: "sourceLabel oneSeat = ''A1''" "isOk (normalizedSeatLabel oneSeat)" "statusKnown oneSeat" "seatOpen oneSeat"
    "TrimSpace ''aud'' \<noteq> []" by code_simp+
  obtain base :: Seat where True by simp
  let ?layout = "emptyLayout\<lparr>lySeats := [base\<lparr>setId := SeatID ''aud'' ''A1''\<rparr>]\<rparr>"
  have "sevStatusCode (zeroSeatEnvelope\<lparr>sevItems := [zeroItem\<lparr>itSeats := [oneSeat]\<rparr>]\<rparr>) = 0" by (simp add: zeroSeatEnvelope_def)
  from parseSeatAvailability_complete[OF dec this one(5), of ?layout "[SeatID ''aud'' ''A1'']"]
  have "parseSeatAvailability oneSeatBody ''aud'' (Some ?layout) = Inr [SeatID ''aud'' ''A1'']"
    by (simp add: responseSeats_def one(1-4) SeatID_trim)
  then show ?thesis by blast
qed

end
