(* ===== verification/SeatCapture.thy ===== *)
theory SeatCapture
  imports CgvSchedule SeatLayout
begin

text \<open>
  Seat capture (\<open>internal/provider/cgv/seat_map.go\<close>, with \<open>selectDate\<close> of \<open>schedule.go\<close>):
  checking an assignment, finding its showtime, driving the page and assembling the snapshot or
  the live observation. A message pointer is an option; a timestamp is what its \<open>CheckValid\<close> and
  \<open>AsTime\<close> answer. The page and the deterministic protobuf encoding are parameters.
\<close>


section \<open>Assignments\<close>

record Timestamp =
  tsValid :: bool
  tsTime :: instant

record Theater =
  thId :: string
  thProviderId :: string
  thRegion :: string
  thName :: string
  thIdentity :: "CgvTheaterIdentity option"

record Auditorium =
  auId :: string
  auTheaterId :: string
  auName :: string
  auIdentity :: "CgvAuditoriumIdentity option"
  auScreenTypes :: "string list"
  auCapacity :: int

record Movie =
  moId :: string
  moProviderId :: string
  moTitle :: string
  moIdentity :: "CgvMovieIdentity option"

record Showtime =
  smId :: string
  smProviderId :: string
  smTheaterId :: string
  smMovie :: "Movie option"
  smAuditorium :: "Auditorium option"
  smStartsAt :: "Timestamp option"
  smEndsAt :: "Timestamp option"
  smIdentity :: "CgvShowtimeIdentity option"
  smAvailableSeats :: int
  smCapacity :: int
  smSoldOut :: bool

record SeatMapTask =
  skTheater :: "Theater option"
  skAuditorium :: "Auditorium option"
  skLocale :: string
  skTimeZone :: string

record SeatAvailabilityTask =
  saTheater :: "Theater option"
  saAuditorium :: "Auditorium option"
  saShowtime :: "Showtime option"
  saLocale :: string
  saTimeZone :: string

definition theaterValues :: "Theater option \<Rightarrow> string \<times> bool" where
  "theaterValues theater = TheaterSiteNo (Option.bind theater thIdentity)"

definition auditoriumValues :: "Auditorium option \<Rightarrow> string \<times> string \<times> bool" where
  "auditoriumValues auditorium = AuditoriumIdentityValues (Option.bind auditorium auIdentity)"

definition showtimeValues :: "Showtime option \<Rightarrow> string \<times> string \<times> string \<times> string \<times> bool" where
  "showtimeValues showtime = ShowtimeIdentityValues (Option.bind showtime smIdentity)"

definition siteNoForTheater :: "Theater option \<Rightarrow> string" where
  "siteNoForTheater theater = fst (theaterValues theater)"

definition validateSeatMapTheater :: "Theater option \<Rightarrow> unit result" where
  "validateSeatMapTheater theater =
    (let (siteNo, validIdentity) = theaterValues theater in
     case theater of
       None \<Rightarrow> Inl (wrapS ErrIdentityMismatch ''seat-map theater identity is not canonical'')
     | Some t \<Rightarrow>
         if thProviderId t \<noteq> ProviderCGV \<or> \<not> validIdentity \<or> TrimSpace (thRegion t) = [] \<or> TrimSpace (thName t) = []
            \<or> thId t \<noteq> CatalogID ProviderCGV ''theater'' siteNo
         then Inl (wrapS ErrIdentityMismatch ''seat-map theater identity is not canonical'')
         else Inr ())"

definition validateSeatMapAuditoriumIdentity :: "Theater option \<Rightarrow> Auditorium option \<Rightarrow> unit result" where
  "validateSeatMapAuditoriumIdentity theater auditorium =
    (let (siteNo, validTheater) = theaterValues theater;
         (auditoriumSite, screenNo, validAuditorium) = auditoriumValues auditorium;
         refused = Inl (wrapS ErrIdentityMismatch ''seat-map auditorium identity is not canonical'')
     in case (theater, auditorium) of
          (Some t, Some a) \<Rightarrow>
            if \<not> validTheater \<or> \<not> validAuditorium \<or> auTheaterId a \<noteq> thId t \<or> auditoriumSite \<noteq> siteNo
               \<or> auId a \<noteq> CatalogID ProviderCGV ''auditorium'' (auditoriumSite @ ''/'' @ screenNo) \<or> TrimSpace (auName a) = []
            then refused else Inr ()
        | _ \<Rightarrow> refused)"

definition validSeatMapAuditoriumIdentity :: "SeatMapTask option \<Rightarrow> bool" where
  "validSeatMapAuditoriumIdentity task =
    (case task of None \<Rightarrow> False | Some t \<Rightarrow> isOk (validateSeatMapAuditoriumIdentity (skTheater t) (skAuditorium t)))"

definition validateSeatMapAuditorium :: "SeatMapTask option \<Rightarrow> unit result" where
  "validateSeatMapAuditorium task =
    guardR (validSeatMapAuditoriumIdentity task) (wrapS ErrIdentityMismatch ''seat-map auditorium identity is not canonical'')"

definition validateSeatMapTask :: "SeatMapTask option \<Rightarrow> unit result" where
  "validateSeatMapTask task =
    (case task of
       None \<Rightarrow> Inl (wrapS ErrIdentityMismatch ''seat-map assignment target is incomplete'')
     | Some t \<Rightarrow>
         if skAuditorium t = None \<or> skTheater t = None then
           Inl (wrapS ErrIdentityMismatch ''seat-map assignment target is incomplete'')
         else bindR (validateSeatMapTheater (skTheater t)) (\<lambda>_.
           bindR (validateSeatMapAuditorium task) (\<lambda>_.
           guardR (TrimSpace (skTimeZone t) \<noteq> []) (wrapS ErrIdentityMismatch ''seat-map assignment time zone is required''))))"

definition seatMapTargetDateValue :: "string \<Rightarrow> string result" where
  "seatMapTargetDateValue value =
    (if TrimSpace value = [] then Inl (errNew ''seat-map target date is missing'') else canonicalProviderDate value)"

definition validSeatMapShowtimeIdentity :: "Showtime option \<Rightarrow> bool" where
  "validSeatMapShowtimeIdentity showtime =
    (let (siteNo, date, screenNo, sequence, validIdentity) = showtimeValues showtime in
     case showtime of None \<Rightarrow> False
     | Some s \<Rightarrow> smProviderId s = ProviderCGV \<and> validIdentity
         \<and> smId s = CatalogID ProviderCGV ''showtime'' (showtimeSourceKey siteNo date screenNo sequence)
         \<and> smTheaterId s = CatalogID ProviderCGV ''theater'' siteNo)"

definition validSeatMapMovieIdentity :: "Movie option \<Rightarrow> bool" where
  "validSeatMapMovieIdentity movie =
    (case movie of None \<Rightarrow> False
     | Some m \<Rightarrow> moProviderId m = ProviderCGV \<and>
         (case moIdentity m of None \<Rightarrow> False
          | Some i \<Rightarrow> numericIdentifier (TrimSpace (cmMovieNo i)) \<and> TrimSpace (moTitle m) \<noteq> []
              \<and> moId m = CatalogID ProviderCGV ''movie'' (cmMovieNo i)))"

text \<open>The getters of a nil message return zero values.\<close>

definition getAuditorium :: "Showtime option \<Rightarrow> Auditorium option" where
  "getAuditorium showtime = Option.bind showtime smAuditorium"

definition getMovie :: "Showtime option \<Rightarrow> Movie option" where
  "getMovie showtime = Option.bind showtime smMovie"

definition getTheaterId :: "Showtime option \<Rightarrow> string" where
  "getTheaterId showtime = (case showtime of None \<Rightarrow> [] | Some s \<Rightarrow> smTheaterId s)"

definition validSeatMapShowtimeAuditorium :: "Showtime option \<Rightarrow> bool" where
  "validSeatMapShowtimeAuditorium showtime =
    (let (auditoriumSite, auditoriumScreen, validAuditorium) = auditoriumValues (getAuditorium showtime);
         (showtimeSite, _, showtimeScreen, _, validShowtime) = showtimeValues showtime
     in case getAuditorium showtime of None \<Rightarrow> False
        | Some a \<Rightarrow> validAuditorium \<and> validShowtime \<and> auditoriumSite = showtimeSite \<and> auditoriumScreen = showtimeScreen
            \<and> TrimSpace (auName a) \<noteq> []
            \<and> auId a = CatalogID ProviderCGV ''auditorium'' (auditoriumSite @ ''/'' @ auditoriumScreen)
            \<and> auTheaterId a = getTheaterId showtime)"

definition validSeatMapShowtimeWindow :: "Showtime option \<Rightarrow> bool" where
  "validSeatMapShowtimeWindow showtime =
    (let (_, _, _, _, validIdentity) = showtimeValues showtime in
     validIdentity \<and>
     (case (Option.bind showtime smStartsAt, Option.bind showtime smEndsAt) of
        (Some startsAt, Some endsAt) \<Rightarrow> tsValid startsAt \<and> tsValid endsAt \<and> tsTime startsAt < tsTime endsAt
      | _ \<Rightarrow> False))"

definition validateSeatMapShowtime :: "Showtime option \<Rightarrow> unit result" where
  "validateSeatMapShowtime showtime =
    (if \<not> validSeatMapShowtimeIdentity showtime \<or> \<not> validSeatMapMovieIdentity (getMovie showtime)
        \<or> \<not> validSeatMapShowtimeAuditorium showtime \<or> \<not> validSeatMapShowtimeWindow showtime
     then Inl (wrapS ErrIdentityMismatch ''seat-map showtime identity is not canonical'')
     else let (_, date, _, _, validIdentity) = showtimeValues showtime in
       if \<not> validIdentity then Inl (wrapS ErrIdentityMismatch ''showtime identity is not canonical'')
       else bindR (mapErr (wrapE ''seat-map showtime schedule date'') (seatMapTargetDateValue date)) (\<lambda>_. Inr ()))"

definition validateSeatAvailabilityTarget :: "SeatAvailabilityTask \<Rightarrow> unit result" where
  "validateSeatAvailabilityTarget task =
    (let refused = Inl (wrapS ErrIdentityMismatch ''seat-availability showtime identity does not match target'');
         theaterId = (case saTheater task of None \<Rightarrow> [] | Some t \<Rightarrow> thId t);
         auditoriumId = (case saAuditorium task of None \<Rightarrow> [] | Some a \<Rightarrow> auId a)
     in if getTheaterId (saShowtime task) \<noteq> theaterId then refused
        else case getAuditorium (saShowtime task) of
            None \<Rightarrow> refused
          | Some a \<Rightarrow>
              if auId a \<noteq> auditoriumId \<or> auTheaterId a \<noteq> theaterId then refused
              else guardR (TrimSpace (saLocale task) \<noteq> [] \<and> TrimSpace (saTimeZone task) \<noteq> [])
                (wrapS ErrIdentityMismatch ''seat-availability locale and time zone are required''))"

definition validateSeatAvailabilityTask :: "SeatAvailabilityTask option \<Rightarrow> unit result" where
  "validateSeatAvailabilityTask task =
    (case task of
       None \<Rightarrow> Inl (wrapS ErrIdentityMismatch ''seat-availability assignment target is incomplete'')
     | Some t \<Rightarrow>
         if saTheater t = None \<or> saAuditorium t = None \<or> saShowtime t = None then
           Inl (wrapS ErrIdentityMismatch ''seat-availability assignment target is incomplete'')
         else
           bindR (validateSeatMapTheater (saTheater t)) (\<lambda>_.
           bindR (validateSeatMapAuditoriumIdentity (saTheater t) (saAuditorium t)) (\<lambda>_.
           bindR (validateSeatMapShowtime (saShowtime t)) (\<lambda>_.
           bindR (validateSeatAvailabilityTarget t) (\<lambda>_.
           let (_, date, _, _, validIdentity) = showtimeValues (saShowtime t) in
           if \<not> validIdentity then Inl (wrapS ErrIdentityMismatch ''showtime identity is not canonical'')
           else bindR (mapErr (wrapE ''seat-availability showtime schedule date'') (seatMapTargetDateValue date)) (\<lambda>_. Inr ()))))))"


section \<open>Finding the showtime\<close>

definition firstSeatMapShowtimeAt :: "scheduleEntry list \<Rightarrow> string \<Rightarrow> instant \<Rightarrow> location \<Rightarrow> ScheduleShowtime option" where
  "firstSeatMapShowtimeAt entries auditoriumID now loc =
    find (\<lambda>showtime.
        \<not> (shAuditoriumID showtime \<noteq> auditoriumID \<or> shSoldOut showtime \<or> shAvailableSeats showtime \<le> 0) \<and>
        (case ParseShowtimeRange (shDate showtime) (shStartsAt showtime) (shEndsAt showtime) (Some loc) of
           Inr (startsAt, _) \<Rightarrow> now + 5 * minute < startsAt
         | Inl _ \<Rightarrow> False))
      (map seShowtime entries)"

definition firstSeatMapShowtime :: "instant \<Rightarrow> scheduleEntry list \<Rightarrow> string \<Rightarrow> ScheduleShowtime option" where
  "firstSeatMapShowtime now entries auditoriumID = firstSeatMapShowtimeAt entries auditoriumID now seoul"

definition showtimeProviderKey :: "Showtime option \<Rightarrow> string \<times> bool" where
  "showtimeProviderKey showtime =
    (let (siteNo, date, screenNo, sequence, validIdentity) = showtimeValues showtime in
     if \<not> validIdentity then ([], False) else (showtimeSourceKey siteNo date screenNo sequence, True))"

definition exactSeatMapShowtime :: "scheduleEntry list \<Rightarrow> Showtime option \<Rightarrow> ScheduleShowtime result" where
  "exactSeatMapShowtime entries command =
    (case (command, getMovie command, getAuditorium command) of
       (Some c, Some movie, Some auditorium) \<Rightarrow>
         (let (commandKey, validIdentity) = showtimeProviderKey command in
          if \<not> validIdentity then Inl (wrapS ErrIdentityMismatch ''exact showtime identity is incomplete'')
          else case filter (\<lambda>s. shSourceKey s = commandKey) (map seShowtime entries) of
              [match] \<Rightarrow>
                if shProviderID match \<noteq> ProviderCGV \<or> shID match \<noteq> smId c \<or> shTheaterID match \<noteq> smTheaterId c
                   \<or> shMovieID match \<noteq> moId movie \<or> shAuditoriumID match \<noteq> auId auditorium
                then Inl (wrapS ErrUIContractChanged ''provider showtime tuple changed'')
                else Inr match
            | matches \<Rightarrow> Inl (wrapS ErrUIContractChanged (''expected one provider row for '' @ commandKey @ '', got ''
                @ Itoa (int (length matches)))))
     | _ \<Rightarrow> Inl (wrapS ErrIdentityMismatch ''exact showtime command is missing''))"


section \<open>The page\<close>

text \<open>
  What the page does beyond \<open>pageOps\<close>, each operation with the provider responses that arrive
  while it runs: whether a button is marked selected, a click, the click on a showtime with the
  number of candidates, the refresh, a search for a text, a request from the page, the ticks of a
  wait, the labels of the date buttons, and what arrived while the theater was being chosen.
\<close>

record 'b seatOps =
  soPage :: "'b pageOps"
  soSelected :: "string \<Rightarrow> 'b \<Rightarrow> bool result \<times> 'b"
  soClick :: "string \<Rightarrow> 'b \<Rightarrow> (bool result \<times> browserResponse list) \<times> 'b"
  soShowtime :: "string \<Rightarrow> string \<Rightarrow> 'b \<Rightarrow> (int \<times> bool) result \<times> 'b"
  soRefresh :: "'b \<Rightarrow> (bool result \<times> browserResponse list) \<times> 'b"
  soContains :: "string \<Rightarrow> 'b \<Rightarrow> bool result \<times> 'b"
  soFetch :: "string \<Rightarrow> 'b \<Rightarrow> (int \<times> jsonBody) result \<times> 'b"
  soTicks :: "'b \<Rightarrow> tick list \<times> 'b"
  soDateLabels :: "'b \<Rightarrow> string list result \<times> 'b"
  soArrived :: "'b \<Rightarrow> browserResponse list \<times> 'b"

record seatEnv =
  snHandler :: "(goerr \<Rightarrow> unit result) option"
  snCtxErr :: "goerr option"
  snNow :: instant
  snClock :: "providerScheduleRow \<Rightarrow> instant"
  snToday :: ymd
  snMarshal :: "Layout \<Rightarrow> string result"

type_synonym 'b adapter = "'b selection \<times> capturedProviderResponse list"

fun anySelected :: "'b seatOps \<Rightarrow> string list \<Rightarrow> 'b \<Rightarrow> bool result \<times> 'b" where
  "anySelected ops [] b = (Inr False, b)"
| "anySelected ops (label # labels) b =
     (case soSelected ops label b of
        (Inl e, b1) \<Rightarrow> (Inl e, b1)
      | (Inr True, b1) \<Rightarrow> (Inr True, b1)
      | (Inr False, b1) \<Rightarrow> anySelected ops labels b1)"

fun clickFirst ::
  "'b seatOps \<Rightarrow> string list \<Rightarrow> 'b \<Rightarrow> capturedProviderResponse list \<Rightarrow> bool result \<times> 'b \<times> capturedProviderResponse list" where
  "clickFirst ops [] b buffer = (Inr False, b, buffer)"
| "clickFirst ops (label # labels) b buffer =
     (case soClick ops label b of
        ((Inl e, arrived), b1) \<Rightarrow> (Inl e, b1, fold captureProviderResponse arrived buffer)
      | ((Inr True, arrived), b1) \<Rightarrow> (Inr True, b1, fold captureProviderResponse arrived buffer)
      | ((Inr False, arrived), b1) \<Rightarrow> clickFirst ops labels b1 (fold captureProviderResponse arrived buffer))"

definition selectDate ::
  "'b seatOps \<Rightarrow> ymd \<Rightarrow> string \<Rightarrow> 'b \<Rightarrow> capturedProviderResponse list \<Rightarrow> unit result \<times> 'b \<times> capturedProviderResponse list" where
  "selectDate ops today isoDate b buffer =
    (case parseDateOnly isoDate of
       None \<Rightarrow> (Inl (errNew (''parsing time '' @ quoteGo isoDate)), b, buffer)
     | Some parsed \<Rightarrow>
         (let labels = dateSelectionLabels parsed today in
          case anySelected ops labels b of
            (Inl e, b1) \<Rightarrow> (Inl e, b1, buffer)
          | (Inr True, b1) \<Rightarrow> (Inr (), b1, buffer)
          | (Inr False, b1) \<Rightarrow>
              (case clickFirst ops labels b1 [] of
                 (Inl e, b2, buffer2) \<Rightarrow> (Inl e, b2, buffer2)
               | (Inr False, b2, buffer2) \<Rightarrow> (Inl (wrapS ErrTargetDateUnavailable (''target date '' @ isoDate)), b2, buffer2)
               | (Inr True, b2, buffer2) \<Rightarrow>
                   (let (ticks, b3) = soTicks ops b2;
                        (ready, buffer3) = waitForScheduleResponseReady isoDate (2 * second) ticks buffer2
                    in (mapErr (wrapE ''wait for CGV schedule response'') ready, b3, buffer3)))))"

text \<open>The loop of \<open>resolveSeatMapShowtime\<close>; the count is of the dates that could be selected.\<close>

fun resolveDates ::
  "'b seatOps \<Rightarrow> seatEnv \<Rightarrow> string \<Rightarrow> ScheduleTheater \<Rightarrow> nat \<Rightarrow> string list \<Rightarrow> 'b \<Rightarrow> capturedProviderResponse list \<Rightarrow>
   ScheduleShowtime result \<times> 'b \<times> capturedProviderResponse list" where
  "resolveDates ops env auditoriumID theater selectable [] b buffer =
     (Inl (if selectable = 0 then wrapS ErrTargetDateUnavailable ''no CGV seat-map date was selectable''
           else Sentinel ErrNoBookableShowtime), b, buffer)"
| "resolveDates ops env auditoriumID theater selectable (date # dates) b buffer =
     (case selectDate ops (snToday env) date b buffer of
        (Inl e, b1, buffer1) \<Rightarrow>
          if errorsIs e ErrTargetDateUnavailable then resolveDates ops env auditoriumID theater selectable dates b1 buffer1
          else (Inl e, b1, buffer1)
      | (Inr _, b1, buffer1) \<Rightarrow>
          (case extractSchedules (snClock env) (snHandler env) date theater buffer1 of
             (Inl e, buffer2) \<Rightarrow> (Inl e, b1, buffer2)
           | (Inr entries, buffer2) \<Rightarrow>
               (case firstSeatMapShowtime (snNow env) entries auditoriumID of
                  Some showtime \<Rightarrow> (Inr showtime, b1, buffer2)
                | None \<Rightarrow> resolveDates ops env auditoriumID theater (Suc selectable) dates b1 buffer2)))"

definition resolveSeatMapShowtime ::
  "'b seatOps \<Rightarrow> seatEnv \<Rightarrow> string \<Rightarrow> ScheduleTheater \<Rightarrow> 'b \<Rightarrow> capturedProviderResponse list \<Rightarrow>
   ScheduleShowtime result \<times> 'b \<times> capturedProviderResponse list" where
  "resolveSeatMapShowtime ops env auditoriumID theater b buffer =
    (let (labels, b1) = soDateLabels ops b in
     case bindR (mapErr (wrapE ''read CGV schedule dates'') labels)
            (\<lambda>ls. availableScheduleDatesFromLabels ls (snToday env)) of
       Inl e \<Rightarrow> (Inl e, b1, buffer)
     | Inr dates \<Rightarrow> resolveDates ops env auditoriumID theater 0 dates b1 buffer)"

definition resolveSeatAvailabilityShowtime ::
  "'b seatOps \<Rightarrow> seatEnv \<Rightarrow> Showtime option \<Rightarrow> ScheduleTheater \<Rightarrow> 'b \<Rightarrow> capturedProviderResponse list \<Rightarrow>
   ScheduleShowtime result \<times> 'b \<times> capturedProviderResponse list" where
  "resolveSeatAvailabilityShowtime ops env command theater b buffer =
    (let (_, dateValue, _, _, validIdentity) = showtimeValues command in
     if \<not> validIdentity then (Inl (wrapS ErrIdentityMismatch ''showtime identity is not canonical''), b, buffer)
     else case seatMapTargetDateValue dateValue of
         Inl e \<Rightarrow> (Inl e, b, buffer)
       | Inr date \<Rightarrow>
           (case selectDate ops (snToday env) date b buffer of
              (Inl e, b1, buffer1) \<Rightarrow> (Inl e, b1, buffer1)
            | (Inr _, b1, buffer1) \<Rightarrow>
                (case extractSchedules (snClock env) (snHandler env) date theater buffer1 of
                   (Inl e, buffer2) \<Rightarrow> (Inl e, b1, buffer2)
                 | (Inr entries, buffer2) \<Rightarrow> (exactSeatMapShowtime entries command, b1, buffer2))))"

definition nonmemberLabel :: string where
  "nonmemberLabel = [CHR 0xEB, CHR 0xB9, CHR 0x84, CHR 0xED, CHR 0x9A, CHR 0x8C, CHR 0xEC, CHR 0x9B, CHR 0x90] @ '' '' @ [CHR 0xEC, CHR 0x98, CHR 0x88, CHR 0xEB, CHR 0xA7, CHR 0xA4]"

definition captchaMarkers :: "string list" where
  "captchaMarkers = [''CAPTCHA'', ''captcha'',
     [CHR 0xEC, CHR 0x9E, CHR 0x90, CHR 0xEB, CHR 0x8F, CHR 0x99, CHR 0xEC, CHR 0x9E, CHR 0x85, CHR 0xEB, CHR 0xA0, CHR 0xA5] @ '' '' @ [CHR 0xEB, CHR 0xB0, CHR 0xA9, CHR 0xEC, CHR 0xA7, CHR 0x80],
     [CHR 0xEB, CHR 0xB3, CHR 0xB4, CHR 0xEC, CHR 0x95, CHR 0x88, CHR 0xEB, CHR 0xAC, CHR 0xB8, CHR 0xEC, CHR 0x9E, CHR 0x90]]"

definition loginMarker :: string where
  "loginMarker = ''CGV '' @ [CHR 0xED, CHR 0x9A, CHR 0x8C, CHR 0xEC, CHR 0x9B, CHR 0x90] @ '' '' @ [CHR 0xEB, CHR 0xA1, CHR 0x9C, CHR 0xEA, CHR 0xB7, CHR 0xB8, CHR 0xEC, CHR 0x9D, CHR 0xB8, CHR 0xEC, CHR 0x9D, CHR 0xB4] @ '' '' @ [CHR 0xED, CHR 0x95, CHR 0x84, CHR 0xEC, CHR 0x9A, CHR 0x94, CHR 0xED, CHR 0x95, CHR 0x9C] @ '' '' @ [CHR 0xEC, CHR 0x84, CHR 0x9C, CHR 0xEB, CHR 0xB9, CHR 0x84, CHR 0xEC, CHR 0x8A, CHR 0xA4]"

definition clickExactSeatMapShowtime :: "'b seatOps \<Rightarrow> ScheduleShowtime \<Rightarrow> 'b \<Rightarrow> bool result \<times> 'b" where
  "clickExactSeatMapShowtime ops showtime b =
    (case soShowtime ops (shAuditoriumName showtime) (shStartsAt showtime) b of
       (Inl e, b1) \<Rightarrow> (Inl e, b1)
     | (Inr (n, clicked), b1) \<Rightarrow>
         if 1 < n then (Inl (wrapS ErrUIContractChanged (''showtime display is ambiguous for '' @ shSourceKey showtime)), b1)
         else (Inr clicked, b1))"

fun checkMarkers :: "'b seatOps \<Rightarrow> string list \<Rightarrow> 'b \<Rightarrow> unit result \<times> 'b" where
  "checkMarkers ops [] b = (Inr (), b)"
| "checkMarkers ops (marker # markers) b =
     (case soContains ops marker b of
        (Inl e, b1) \<Rightarrow> (Inl e, b1)
      | (Inr True, b1) \<Rightarrow> (Inl (Sentinel ErrCaptchaRequired), b1)
      | (Inr False, b1) \<Rightarrow> checkMarkers ops markers b1)"

definition openNonmemberSeatPage :: "'b seatOps \<Rightarrow> ScheduleShowtime \<Rightarrow> 'b \<Rightarrow> unit result \<times> 'b" where
  "openNonmemberSeatPage ops showtime b =
    (case clickExactSeatMapShowtime ops showtime b of
       (Inl e, b1) \<Rightarrow> (Inl e, b1)
     | (Inr False, b1) \<Rightarrow> (Inl (wrapS ErrUIContractChanged (''exact showtime '' @ shID showtime @ '' was not found'')), b1)
     | (Inr True, b1) \<Rightarrow>
         (case poWait (soPage ops) (800 * millisecond) b1 of
            (Inl e, b2) \<Rightarrow> (Inl e, b2)
          | (Inr _, b2) \<Rightarrow>
              (case poClickExact (soPage ops) nonmemberLabel b2 of
                 (Inl e, b3) \<Rightarrow> (Inl e, b3)
               | (Inr nonmember, b3) \<Rightarrow>
                   (case (if nonmember then poWait (soPage ops) (500 * millisecond) b3 else (Inr (), b3)) of
                      (Inl e, b4) \<Rightarrow> (Inl e, b4)
                    | (Inr _, b4) \<Rightarrow> checkMarkers ops captchaMarkers b4))))"

text \<open>Each turn empties the buffer and looks at the responses of the path.\<close>

fun waitForProviderResponse ::
  "string \<Rightarrow> tick list \<Rightarrow> capturedProviderResponse list \<Rightarrow> capturedProviderResponse result \<times> capturedProviderResponse list" where
  "waitForProviderResponse path [] buffer =
     (case takeProviderResponses [path] buffer of
        ([], buffer1) \<Rightarrow> (Inl (wrapE ''timed out waiting for CGV seat-map response'' (Sentinel DeadlineExceeded)), buffer1)
      | ([c], buffer1) \<Rightarrow> (Inr c, buffer1)
      | (_, buffer1) \<Rightarrow> (Inl (wrapS ErrUIContractChanged ''multiple seat-map responses''), buffer1))"
| "waitForProviderResponse path (t # ts) buffer =
     (case takeProviderResponses [path] buffer of
        ([], buffer1) \<Rightarrow>
          (case t of ContextDone e \<Rightarrow> (Inl e, buffer1)
           | Tick arrived \<Rightarrow> waitForProviderResponse path ts (fold captureProviderResponse arrived buffer1))
      | ([c], buffer1) \<Rightarrow> (Inr c, buffer1)
      | (_, buffer1) \<Rightarrow> (Inl (wrapS ErrUIContractChanged ''multiple seat-map responses''), buffer1))"

text \<open>The query in the order \<open>url.Values.Encode\<close> gives it, by key.\<close>

definition seatMapQuery :: "string \<Rightarrow> string \<Rightarrow> string \<Rightarrow> string \<Rightarrow> string" where
  "seatMapQuery siteNo date screenNo sequence =
    Join (map (\<lambda>(k, v). k @ ''='' @ QueryEscape v)
      [(''coCd'', ''A420''), (''cusgdCd'', []), (''custNo'', []), (''scnSseq'', sequence), (''scnYmd'', compactDate date),
       (''scnsNo'', screenNo), (''seatAreaNo'', []), (''siteNo'', siteNo)]) ''&''"

definition fetchSeatMapData :: "'b seatOps \<Rightarrow> seatEnv \<Rightarrow> ScheduleShowtime \<Rightarrow> 'b \<Rightarrow> jsonBody result \<times> 'b" where
  "fetchSeatMapData ops env showtime b =
    (case snCtxErr env of
       Some e \<Rightarrow> (Inl e, b)
     | None \<Rightarrow>
         (case Split (CHR ''/'') (shSourceKey showtime) of
            [siteNo, date, screenNo, sequence] \<Rightarrow>
              if siteNo = [] \<or> date = [] \<or> screenNo = [] \<or> sequence = [] then
                (Inl (wrapS ErrIdentityMismatch ''seat-map provider context is incomplete''), b)
              else (case soFetch ops (seatMapResponsePath @ ''?'' @ seatMapQuery siteNo date screenNo sequence) b of
                  (Inl e, b1) \<Rightarrow>
                    (Inl (handleProviderFailure (snHandler env) (wrapSE ErrProviderTransport ''browser seat-map request'' e)), b1)
                | (Inr (status, body), b1) \<Rightarrow>
                    if status < 200 \<or> 299 < status then
                      (Inl (handleProviderFailure (snHandler env) (providerHTTPError status)), b1)
                    else if bSize body = 0 \<or> maxScheduleResponseBytes < bSize body then
                      (Inl (wrapS ErrProviderInvalidResult ''browser seat-map response size is invalid''), b1)
                    else (Inr body, b1))
          | _ \<Rightarrow> (Inl (wrapS ErrIdentityMismatch ''seat-map provider context is incomplete''), b)))"


section \<open>Snapshots\<close>

record Snapshot =
  spId :: string
  spAuditoriumId :: string
  spLayoutHash :: string
  spCapacity :: int
  spLayout :: Layout
  spObservedAt :: instant

record AvailabilitySnapshot =
  avShowtimeId :: string
  avAuditoriumId :: string
  avLayoutHash :: string
  avAvailableSeats :: "string list"
  avObservedAt :: instant

record LiveSeatObservation =
  loLayout :: Snapshot
  loAvailability :: AvailabilitySnapshot

definition seatCountAsInt32 :: "nat \<Rightarrow> int result" where
  "seatCountAsInt32 value =
    (if maxInt32 < int value then Inl (errNew ''seat count is outside int32 range'') else Inr (int value))"

definition layoutHash :: "(Layout \<Rightarrow> string result) \<Rightarrow> Layout \<Rightarrow> string result" where
  "layoutHash marshal layout = bindR (marshal layout) (\<lambda>canonical. Inr (hexOf (Sum256 canonical)))"

definition seatMapSnapshot :: "seatEnv \<Rightarrow> string \<Rightarrow> Layout \<Rightarrow> Snapshot result" where
  "seatMapSnapshot env auditoriumID layout =
    bindR (mapErr (wrapE ''hash seat-map layout'') (layoutHash (snMarshal env) layout)) (\<lambda>hash.
    bindR (mapErr (\<lambda>_. errNew ''seat-map layout contains too many seats'') (seatCountAsInt32 (length (lySeats layout)))) (\<lambda>capacity.
    Inr \<lparr>spId = SeatMapVersionID auditoriumID hash, spAuditoriumId = auditoriumID, spLayoutHash = hash,
         spCapacity = capacity, spLayout = layout, spObservedAt = snNow env\<rparr>))"

definition liveSeatObservation :: "seatEnv \<Rightarrow> string \<Rightarrow> string \<Rightarrow> Layout \<Rightarrow> string list \<Rightarrow> LiveSeatObservation result" where
  "liveSeatObservation env showtimeID auditoriumID layout availableIDs =
    bindR (seatMapSnapshot env auditoriumID layout) (\<lambda>snapshot.
    Inr \<lparr>loLayout = snapshot,
         loAvailability = \<lparr>avShowtimeId = showtimeID, avAuditoriumId = auditoriumID, avLayoutHash = spLayoutHash snapshot,
           avAvailableSeats = availableIDs, avObservedAt = spObservedAt snapshot\<rparr>\<rparr>)"

definition taskTheater :: "Theater option \<Rightarrow> ScheduleTheater" where
  "taskTheater theater =
    \<lparr>stID = (case theater of None \<Rightarrow> [] | Some t \<Rightarrow> thId t),
     stProviderID = (case theater of None \<Rightarrow> [] | Some t \<Rightarrow> thProviderId t),
     stSourceKey = siteNoForTheater theater,
     stRegion = (case theater of None \<Rightarrow> [] | Some t \<Rightarrow> thRegion t),
     stName = (case theater of None \<Rightarrow> [] | Some t \<Rightarrow> thName t)\<rparr>"

definition taskAuditoriumId :: "Auditorium option \<Rightarrow> string" where
  "taskAuditoriumId auditorium = (case auditorium of None \<Rightarrow> [] | Some a \<Rightarrow> auId a)"

text \<open>Choosing the theater, with the responses the page received meanwhile.\<close>

definition enterTheater :: "'b seatOps \<Rightarrow> ScheduleTheater \<Rightarrow> 'b adapter \<Rightarrow> unit result \<times> 'b adapter" where
  "enterTheater ops theater ad =
    (let (r, sel) = selectCinemaTheater (soPage ops) (stRegion theater) (stName theater) (fst ad);
         (arrived, b) = soArrived ops (slPage sel)
     in (r, sel\<lparr>slPage := b\<rparr>, fold captureProviderResponse arrived (snd ad)))"

definition CaptureSeatMap :: "'b seatOps \<Rightarrow> seatEnv \<Rightarrow> SeatMapTask option \<Rightarrow> 'b adapter \<Rightarrow> Snapshot result \<times> 'b adapter" where
  "CaptureSeatMap ops env task ad =
    (case (validateSeatMapTask task, task) of
       (Inl e, _) \<Rightarrow> (Inl e, ad)
     | (Inr _, None) \<Rightarrow> (Inl (wrapS ErrIdentityMismatch ''seat-map assignment target is incomplete''), ad)
     | (Inr _, Some t) \<Rightarrow>
         (let theater = taskTheater (skTheater t); auditoriumID = taskAuditoriumId (skAuditorium t) in
          case enterTheater ops theater ad of
            (Inl e, ad1) \<Rightarrow> (Inl e, ad1)
          | (Inr _, sel, buffer) \<Rightarrow>
              (case resolveSeatMapShowtime ops env auditoriumID theater (slPage sel) buffer of
                 (Inl e, b1, buffer1) \<Rightarrow> (Inl e, sel\<lparr>slPage := b1\<rparr>, buffer1)
               | (Inr showtime, b1, buffer1) \<Rightarrow>
                   (case fetchSeatMapData ops env showtime b1 of
                      (Inl e, b2) \<Rightarrow> (Inl e, sel\<lparr>slPage := b2\<rparr>, buffer1)
                    | (Inr body, b2) \<Rightarrow>
                        (bindR (parseSeatMapLayout body auditoriumID) (seatMapSnapshot env auditoriumID),
                         sel\<lparr>slPage := b2\<rparr>, buffer1)))))"

text \<open>From the open seat page on: refresh, wait for the one response, read layout and status from it.\<close>

definition readLiveSeats ::
  "'b seatOps \<Rightarrow> seatEnv \<Rightarrow> string \<Rightarrow> string \<Rightarrow> 'b \<Rightarrow> LiveSeatObservation result \<times> 'b \<times> capturedProviderResponse list" where
  "readLiveSeats ops env showtimeID auditoriumID b =
    (case soRefresh ops b of
       ((Inl e, arrived), b1) \<Rightarrow> (Inl e, b1, fold captureProviderResponse arrived [])
     | ((Inr False, arrived), b1) \<Rightarrow>
         (let (login, b2) = soContains ops loginMarker b1 in
          (Inl (if login = Inr True then Sentinel ErrAuthenticationRequired
                else wrapS ErrUIContractChanged ''seat refresh button not found''), b2, fold captureProviderResponse arrived []))
     | ((Inr True, arrived), b1) \<Rightarrow>
         (let (ticks, b2) = soTicks ops b1 in
          case waitForProviderResponse seatMapResponsePath ticks (fold captureProviderResponse arrived []) of
            (Inl e, buffer) \<Rightarrow> (Inl e, b2, buffer)
          | (Inr captured, buffer) \<Rightarrow>
              (case cpErr captured of
                 Some e \<Rightarrow> (Inl (handleProviderFailure (snHandler env) e), b2, buffer)
               | None \<Rightarrow>
                   (bindR (parseSeatMapLayout (cpBody captured) auditoriumID) (\<lambda>layout.
                    bindR (parseSeatAvailability (cpBody captured) auditoriumID (Some layout)) (\<lambda>availableIDs.
                    liveSeatObservation env showtimeID auditoriumID layout availableIDs)), b2, buffer))))"

definition CaptureSeatAvailability ::
  "'b seatOps \<Rightarrow> seatEnv \<Rightarrow> SeatAvailabilityTask option \<Rightarrow> 'b adapter \<Rightarrow> LiveSeatObservation result \<times> 'b adapter" where
  "CaptureSeatAvailability ops env task ad =
    (case (validateSeatAvailabilityTask task, task) of
       (Inl e, _) \<Rightarrow> (Inl e, ad)
     | (Inr _, None) \<Rightarrow> (Inl (wrapS ErrIdentityMismatch ''seat-availability assignment target is incomplete''), ad)
     | (Inr _, Some t) \<Rightarrow>
         (let theater = taskTheater (saTheater t) in
          case enterTheater ops theater ad of
            (Inl e, ad1) \<Rightarrow> (Inl e, ad1)
          | (Inr _, sel, buffer) \<Rightarrow>
              (case resolveSeatAvailabilityShowtime ops env (saShowtime t) theater (slPage sel) buffer of
                 (Inl e, b1, buffer1) \<Rightarrow> (Inl e, sel\<lparr>slPage := b1\<rparr>, buffer1)
               | (Inr showtime, b1, buffer1) \<Rightarrow>
                   (case openNonmemberSeatPage ops showtime b1 of
                      (Inl e, b2) \<Rightarrow> (Inl e, sel\<lparr>slPage := b2\<rparr>, buffer1)
                    | (Inr _, b2) \<Rightarrow>
                        (case readLiveSeats ops env (case saShowtime t of None \<Rightarrow> [] | Some s \<Rightarrow> smId s)
                                (taskAuditoriumId (saAuditorium t)) b2 of
                           (r, b3, buffer3) \<Rightarrow> (r, sel\<lparr>slPage := b3\<rparr>, buffer3))))))"

section \<open>A validated assignment names one showtime\<close>

definition oneTuple :: "SeatAvailabilityTask \<Rightarrow> string \<Rightarrow> string \<Rightarrow> string \<Rightarrow> string \<Rightarrow> bool" where
  "oneTuple t site date screen sequence =
    (case (saTheater t, saAuditorium t, saShowtime t) of
       (Some th, Some au, Some st) \<Rightarrow>
         thProviderId th = ProviderCGV \<and> smProviderId st = ProviderCGV
         \<and> thId th = CatalogID ProviderCGV ''theater'' site \<and> smTheaterId st = thId th \<and> auTheaterId au = thId th
         \<and> auId au = CatalogID ProviderCGV ''auditorium'' (site @ ''/'' @ screen)
         \<and> smId st = CatalogID ProviderCGV ''showtime'' (showtimeSourceKey site date screen sequence)
         \<and> (case smAuditorium st of Some a \<Rightarrow> auId a = auId au \<and> auTheaterId a = thId th | None \<Rightarrow> False)
         \<and> (case (smStartsAt st, smEndsAt st) of (Some s, Some e) \<Rightarrow> tsTime s < tsTime e | _ \<Rightarrow> False)
     | _ \<Rightarrow> False)"

lemma showtimeValues_valid:
  "showtimeValues st = (site, date, screen, sequence, True) \<Longrightarrow>
    providerSiteIdentifier site \<and> numericIdentifier screen \<and> numericIdentifier sequence \<and> date \<noteq> []"
  by (auto simp: showtimeValues_def ShowtimeIdentityValues_def Let_def split: option.splits)

text \<open>
  A live-seat assignment that passes \<open>validateSeatAvailabilityTask\<close> names one consistent
  showtime: theater, auditorium and showtime carry the catalog identifiers of one tuple of site,
  date, screen and sequence, all of them well formed, the showtime belongs to that theater and
  auditorium, it ends after it starts, and the date is canonical, so the later resolution cannot
  fail for the identity.
\<close>

theorem validated_task_one_tuple:
  assumes "validateSeatAvailabilityTask (Some task) = Inr ()"
  shows "\<exists>site date screen sequence. showtimeValues (saShowtime task) = (site, date, screen, sequence, True)
    \<and> oneTuple task site date screen sequence
    \<and> providerSiteIdentifier site \<and> numericIdentifier screen \<and> numericIdentifier sequence
    \<and> isOk (seatMapTargetDateValue date)"
proof -
  from assms obtain th au st where some: "saTheater task = Some th" "saAuditorium task = Some au" "saShowtime task = Some st"
    and v: "validateSeatMapTheater (Some th) = Inr ()" "validateSeatMapAuditoriumIdentity (Some th) (Some au) = Inr ()"
      "validateSeatMapShowtime (Some st) = Inr ()" "validateSeatAvailabilityTarget task = Inr ()"
    by (auto simp: validateSeatAvailabilityTask_def result_simps split: if_splits)
  obtain site date screen sequence ok where s: "showtimeValues (Some st) = (site, date, screen, sequence, ok)"
    by (metis surj_pair)
  from v(3) s have ids: "validSeatMapShowtimeIdentity (Some st)" "validSeatMapShowtimeAuditorium (Some st)"
    "validSeatMapShowtimeWindow (Some st)" and date: "isOk (seatMapTargetDateValue date)"
    by (auto simp: validateSeatMapShowtime_def result_simps isOk_iff split: if_splits)
  have ok: "ok" using ids(1) s by (simp add: validSeatMapShowtimeIdentity_def)
  obtain asite ascreen aok where av: "auditoriumValues (smAuditorium st) = (asite, ascreen, aok)" by (metis surj_pair)
  from ids(2) obtain a where a: "smAuditorium st = Some a" "asite = site \<and> ascreen = screen
      \<and> auId a = CatalogID ProviderCGV ''auditorium'' (asite @ ''/'' @ ascreen)"
    using av by (cases "smAuditorium st") (auto simp: validSeatMapShowtimeAuditorium_def getAuditorium_def s)
  have t: "smTheaterId st = thId th" "auId a = auId au" "auTheaterId a = thId th"
    using v(4) a(1) some by (auto simp: validateSeatAvailabilityTarget_def getTheaterId_def getAuditorium_def Let_def split: if_splits)
  have th: "thProviderId th = ProviderCGV" using v(1)
    by (auto simp: validateSeatMapTheater_def split: if_splits prod.splits)
  have au: "auTheaterId au = thId th" using v(2)
    by (auto simp: validateSeatMapAuditoriumIdentity_def split: if_splits prod.splits)
  have win: "case (smStartsAt st, smEndsAt st) of (Some s, Some e) \<Rightarrow> tsTime s < tsTime e | _ \<Rightarrow> False"
    using ids(3) s by (auto simp: validSeatMapShowtimeWindow_def split: option.splits)
  have "oneTuple task site date screen sequence"
    using ids(1) s a t th au win by (auto simp: oneTuple_def some validSeatMapShowtimeIdentity_def)
  moreover have "showtimeValues (saShowtime task) = (site, date, screen, sequence, True)" using s ok some(3) by simp
  ultimately show ?thesis using date showtimeValues_valid
    by (intro exI[of _ site] exI[of _ date] exI[of _ screen] exI[of _ sequence]) simp
qed


text \<open>A concrete assignment.\<close>

definition sampleShowIdentity :: CgvShowtimeIdentity where
  "sampleShowIdentity = \<lparr>csSiteNo = ''0013'', csScheduleDate = Some \<lparr>ldYear = 2025, ldMonth = 1, ldDay = 2\<rparr>,
     csScreenNo = ''01'', csSequence = ''3''\<rparr>"

abbreviation "sampleTheaterId \<equiv> CatalogID ProviderCGV ''theater'' ''0013''"
abbreviation "sampleAuditoriumId \<equiv> CatalogID ProviderCGV ''auditorium'' ''0013/01''"
abbreviation "sampleShowtimeKey \<equiv> ''0013/2025-01-02/01/3''"

definition sampleTheaterMsg :: Theater where
  "sampleTheaterMsg = \<lparr>thId = sampleTheaterId, thProviderId = ProviderCGV, thRegion = ''Seoul'', thName = ''Yongsan'',
     thIdentity = Some \<lparr>ctSiteNo = ''0013''\<rparr>\<rparr>"

definition sampleAuditoriumMsg :: Auditorium where
  "sampleAuditoriumMsg = \<lparr>auId = sampleAuditoriumId, auTheaterId = sampleTheaterId, auName = ''IMAX'',
     auIdentity = Some \<lparr>caSiteNo = ''0013'', caScreenNo = ''01''\<rparr>, auScreenTypes = [], auCapacity = 0\<rparr>"

definition sampleMovieMsg :: Movie where
  "sampleMovieMsg = \<lparr>moId = CatalogID ProviderCGV ''movie'' ''77'', moProviderId = ProviderCGV, moTitle = ''Film'',
     moIdentity = Some \<lparr>cmMovieNo = ''77''\<rparr>\<rparr>"

definition sampleShowtimeMsg :: Showtime where
  "sampleShowtimeMsg = \<lparr>smId = CatalogID ProviderCGV ''showtime'' sampleShowtimeKey, smProviderId = ProviderCGV,
     smTheaterId = sampleTheaterId, smMovie = Some sampleMovieMsg, smAuditorium = Some sampleAuditoriumMsg,
     smStartsAt = Some \<lparr>tsValid = True, tsTime = 0\<rparr>, smEndsAt = Some \<lparr>tsValid = True, tsTime = hour\<rparr>,
     smIdentity = Some sampleShowIdentity, smAvailableSeats = 0, smCapacity = 0, smSoldOut = False\<rparr>"

definition sampleSeatTask :: SeatAvailabilityTask where
  "sampleSeatTask = \<lparr>saTheater = Some sampleTheaterMsg, saAuditorium = Some sampleAuditoriumMsg, saShowtime = Some sampleShowtimeMsg,
     saLocale = ''ko'', saTimeZone = ''Asia/Seoul''\<rparr>"

lemma sample_values:
  "ShowtimeIdentityValues (Some sampleShowIdentity) = (''0013'', ''2025-01-02'', ''01'', ''3'', True)"
  "TheaterSiteNo (Some \<lparr>ctSiteNo = ''0013''\<rparr>) = (''0013'', True)"
  "AuditoriumIdentityValues (Some \<lparr>caSiteNo = ''0013'', caScreenNo = ''01''\<rparr>) = (''0013'', ''01'', True)"
  "showtimeSourceKey ''0013'' ''2025-01-02'' ''01'' ''3'' = sampleShowtimeKey"
  by code_simp+

lemma sample_texts:
  "TrimSpace ''Seoul'' \<noteq> []" "TrimSpace ''Yongsan'' \<noteq> []" "TrimSpace ''IMAX'' \<noteq> []" "TrimSpace ''Film'' \<noteq> []"
  "TrimSpace ''ko'' \<noteq> []" "TrimSpace ''Asia/Seoul'' \<noteq> []" "numericIdentifier (TrimSpace ''77'')"
  by code_simp+

lemma sample_date: "seatMapTargetDateValue ''2025-01-02'' = Inr ''2025-01-02''"
proof -
  have "case seatMapTargetDateValue ''2025-01-02'' of Inr d \<Rightarrow> d = ''2025-01-02'' | Inl _ \<Rightarrow> False" by code_simp
  then show ?thesis by (auto split: sum.splits)
qed

lemma sample_values_msg:
  "showtimeValues (Some sampleShowtimeMsg) = (''0013'', ''2025-01-02'', ''01'', ''3'', True)"
  "theaterValues (Some sampleTheaterMsg) = (''0013'', True)"
  "auditoriumValues (Some sampleAuditoriumMsg) = (''0013'', ''01'', True)"
  by (simp_all add: showtimeValues_def theaterValues_def auditoriumValues_def sampleShowtimeMsg_def sampleTheaterMsg_def
      sampleAuditoriumMsg_def sample_values)

lemma sample_showtime_ok: "validateSeatMapShowtime (Some sampleShowtimeMsg) = Inr ()"
proof -
  have "smAuditorium sampleShowtimeMsg = Some sampleAuditoriumMsg" "smMovie sampleShowtimeMsg = Some sampleMovieMsg"
    by (simp_all add: sampleShowtimeMsg_def)
  then have "validSeatMapShowtimeAuditorium (Some sampleShowtimeMsg)" "validSeatMapMovieIdentity (getMovie (Some sampleShowtimeMsg))"
    by (simp_all add: validSeatMapShowtimeAuditorium_def getAuditorium_def getMovie_def sample_values_msg validSeatMapMovieIdentity_def)
      (simp_all add: sampleMovieMsg_def sampleAuditoriumMsg_def sampleShowtimeMsg_def getTheaterId_def sample_texts)
  moreover have "validSeatMapShowtimeWindow (Some sampleShowtimeMsg)"
    by (simp add: validSeatMapShowtimeWindow_def sample_values_msg) (simp add: sampleShowtimeMsg_def duration_units)
  moreover have "validSeatMapShowtimeIdentity (Some sampleShowtimeMsg)"
    by (simp add: validSeatMapShowtimeIdentity_def sample_values_msg sample_values) (simp add: sampleShowtimeMsg_def)
  ultimately show ?thesis by (simp add: validateSeatMapShowtime_def sample_values_msg sample_date)
qed

lemma sampleSeatTask_ok: "validateSeatAvailabilityTask (Some sampleSeatTask) = Inr ()"
proof -
  have "validateSeatMapTheater (Some sampleTheaterMsg) = Inr ()"
    by (simp add: validateSeatMapTheater_def sample_values_msg) (simp add: sampleTheaterMsg_def sample_texts)
  moreover have "validateSeatMapAuditoriumIdentity (Some sampleTheaterMsg) (Some sampleAuditoriumMsg) = Inr ()"
    by (simp add: validateSeatMapAuditoriumIdentity_def sample_values_msg)
      (simp add: sampleTheaterMsg_def sampleAuditoriumMsg_def sample_texts)
  moreover have "validateSeatAvailabilityTarget sampleSeatTask = Inr ()"
    by (simp add: validateSeatAvailabilityTarget_def sampleSeatTask_def getTheaterId_def getAuditorium_def sampleShowtimeMsg_def
        sampleAuditoriumMsg_def sampleTheaterMsg_def sample_texts)
  ultimately show ?thesis
    by (simp add: validateSeatAvailabilityTask_def sampleSeatTask_def sample_showtime_ok sample_values_msg sample_date)
qed

theorem validated_task_one_tuple_witness:
  "\<exists>site date screen sequence. oneTuple sampleSeatTask site date screen sequence"
  using validated_task_one_tuple[OF sampleSeatTask_ok] by blast

lemma sampleKey: "showtimeProviderKey (Some sampleShowtimeMsg) = (sampleShowtimeKey, True)"
  by (simp add: showtimeProviderKey_def sample_values_msg sample_values)

lemma sampleShowtime_parts [simp]:
  "smMovie sampleShowtimeMsg = Some sampleMovieMsg" "smAuditorium sampleShowtimeMsg = Some sampleAuditoriumMsg"
  by (simp_all add: sampleShowtimeMsg_def)

definition sampleScheduleRow :: providerScheduleRow where
  "sampleScheduleRow = \<lparr>rwSiteNo = ''0013'', rwSiteName = [], rwMovieNo = ''77'', rwMovieFileNo = [], rwMovieTitle = [],
     rwAuditoriumNo = ''01'', rwAuditoriumName = ''IMAX'', rwDate = ''2025-01-02'', rwSequence = ''3'', rwProductNo = [],
     rwStartClock = ''0900'', rwEndClock = ''1100'', rwAvailable = 0, rwCapacity = 0\<rparr>"

lemma sampleRow_keys:
  "rowKey sampleScheduleRow = sampleShowtimeKey" "movieSourceKey ''77'' = ''77''" "auditoriumSourceKey ''0013'' ''01'' = ''0013/01''"
  "TrimSpace ''0013'' = ''0013''" "providerSiteIdentifier ''0013''" "fst (parseAuditorium [] ''IMAX'') = ''IMAX''"
  by code_simp+

lemma sampleScheduleRow_entry:
  "\<exists>e. scheduleEntryFromProviderRow 0 sampleScheduleRow (taskTheater (Some sampleTheaterMsg)) = Inr e
    \<and> exactSeatMapShowtime [e] (Some sampleShowtimeMsg) = Inr (seShowtime e) \<and> shID (seShowtime e) = smId sampleShowtimeMsg"
proof -
  let ?th = "taskTheater (Some sampleTheaterMsg)"
  have th: "stSourceKey ?th = ''0013''" "stProviderID ?th = ProviderCGV" "stID ?th = sampleTheaterId"
    by (simp_all add: taskTheater_def siteNoForTheater_def sample_values_msg) (simp_all add: sampleTheaterMsg_def)
  obtain types where types: "parseAuditorium [] ''IMAX'' = (''IMAX'', types)" using sampleRow_keys(6) by (metis prod.collapse)
  have row: "rwAuditoriumName sampleScheduleRow = ''IMAX''" "rwSiteNo sampleScheduleRow = ''0013''"
    "rwMovieNo sampleScheduleRow = ''77''" "rwAuditoriumNo sampleScheduleRow = ''01''" by (simp_all add: sampleScheduleRow_def)
  note ev = scheduleEntryFromProviderRow_def providerCatalogID_def Let_def row types th sampleRow_keys(1-5)
  have "isOk (scheduleEntryFromProviderRow 0 sampleScheduleRow ?th)" by (simp add: ev)
  then obtain e where e: "scheduleEntryFromProviderRow 0 sampleScheduleRow ?th = Inr e" unfolding isOk_iff by blast
  then have f: "shSourceKey (seShowtime e) = sampleShowtimeKey" "shProviderID (seShowtime e) = ProviderCGV"
      "shID (seShowtime e) = smId sampleShowtimeMsg" "shTheaterID (seShowtime e) = smTheaterId sampleShowtimeMsg"
      "shMovieID (seShowtime e) = moId sampleMovieMsg" "shAuditoriumID (seShowtime e) = auId sampleAuditoriumMsg"
    by (auto simp: ev sampleShowtimeMsg_def sampleMovieMsg_def sampleAuditoriumMsg_def)
  have "exactSeatMapShowtime [e] (Some sampleShowtimeMsg) = Inr (seShowtime e)"
    by (simp add: exactSeatMapShowtime_def getMovie_def getAuditorium_def sampleKey f)
  then show ?thesis using e f(3) by blast
qed
text \<open>
  Resolving an exact showtime never substitutes another one: the answer is the only row of the
  page with the provider key of the command, and its showtime, theater, movie and auditorium
  identifiers are those of the command; no row, several rows, or a row whose tuple changed is an
  error.
\<close>

theorem exactSeatMapShowtime_exact:
  assumes "showtimeProviderKey (Some command) = (key, True)" "smMovie command = Some movie" "smAuditorium command = Some auditorium"
  shows "exactSeatMapShowtime entries (Some command) = Inr match \<longleftrightarrow>
    filter (\<lambda>s. shSourceKey s = key) (map seShowtime entries) = [match]
    \<and> shProviderID match = ProviderCGV \<and> shID match = smId command \<and> shTheaterID match = smTheaterId command
    \<and> shMovieID match = moId movie \<and> shAuditoriumID match = auId auditorium"
proof -
  have e: "exactSeatMapShowtime entries (Some command) =
    (case filter (\<lambda>s. shSourceKey s = key) (map seShowtime entries) of
       [m] \<Rightarrow> if shProviderID m \<noteq> ProviderCGV \<or> shID m \<noteq> smId command \<or> shTheaterID m \<noteq> smTheaterId command
                \<or> shMovieID m \<noteq> moId movie \<or> shAuditoriumID m \<noteq> auId auditorium
             then Inl (wrapS ErrUIContractChanged ''provider showtime tuple changed'') else Inr m
     | ms \<Rightarrow> Inl (wrapS ErrUIContractChanged (''expected one provider row for '' @ key @ '', got '' @ Itoa (int (length ms)))))"
    using assms by (simp add: exactSeatMapShowtime_def getMovie_def getAuditorium_def)
  show ?thesis unfolding e
    by (cases "filter (\<lambda>s. shSourceKey s = key) (map seShowtime entries)" rule: remdups_adj.cases) auto
qed

theorem exactSeatMapShowtime_exact_witness:
  "\<exists>e :: scheduleEntry. filter (\<lambda>s. shSourceKey s = sampleShowtimeKey) (map seShowtime [e]) = [seShowtime e] \<and> shID (seShowtime e) = smId sampleShowtimeMsg"
proof -
  obtain e where "exactSeatMapShowtime [e] (Some sampleShowtimeMsg) = Inr (seShowtime e)" using sampleScheduleRow_entry by blast
  with exactSeatMapShowtime_exact[OF sampleKey sampleShowtime_parts, of "[e]" "seShowtime e"] show ?thesis by (intro exI[of _ e]) blast
qed

section \<open>A live observation is consistent\<close>

definition observationOk :: "seatEnv \<Rightarrow> string \<Rightarrow> string \<Rightarrow> LiveSeatObservation \<Rightarrow> bool" where
  "observationOk env showtimeID auditoriumID obs \<longleftrightarrow>
    (let snapshot = loLayout obs; availability = loAvailability obs; layout = spLayout snapshot in
     avShowtimeId availability = showtimeID \<and> avAuditoriumId availability = auditoriumID \<and> spAuditoriumId snapshot = auditoriumID
     \<and> layoutOk auditoriumID layout \<and> spCapacity snapshot = int (length (lySeats layout))
     \<and> layoutHash (snMarshal env) layout = Inr (spLayoutHash snapshot) \<and> spId snapshot = SeatMapVersionID auditoriumID (spLayoutHash snapshot)
     \<and> avLayoutHash availability = spLayoutHash snapshot \<and> avObservedAt availability = spObservedAt snapshot
     \<and> sorted_wrt (<) (avAvailableSeats availability) \<and> set (avAvailableSeats availability) \<subseteq> setId ` set (lySeats layout))"

lemma parseSeatAvailability_Inr:
  assumes "parseSeatAvailability body aud (Some layout) = Inr available"
  shows "sorted_wrt (<) available \<and> set available \<subseteq> setId ` set (lySeats layout)"
proof -
  let ?ids = "keepFirst id (map setId (lySeats layout))"
  have d: "distinct ?ids" using keepFirst_distinct[of id "map setId (lySeats layout)"] by simp
  have s: "set ?ids = setId ` set (lySeats layout)" using keepFirst_keys[of id "map setId (lySeats layout)"] by simp
  from assms obtain items where "providerAvailableSeats items aud ?ids = Inr available"
    by (auto simp: parseSeatAvailability_def seatAvailabilityLayoutIndex_def result_simps split: if_splits prod.splits option.splits)
  then have "distinct (map (rowId aud) (responseSeats items))" "rowId aud ` set (responseSeats items) = set ?ids"
    "available = sort (map (rowId aud) (filter seatOpen (responseSeats items)))"
    unfolding providerAvailableSeats_Inr[OF d] by auto
  then show ?thesis using s by (auto simp: strict_sorted_iff distinct_map inj_on_def)
qed

lemma liveSeatObservation_ok:
  assumes "parseSeatMapLayout body aud = Inr layout" "parseSeatAvailability body aud (Some layout) = Inr available"
    "liveSeatObservation env st aud layout available = Inr obs"
  shows "observationOk env st aud obs"
  using assms(3) layoutFromItems_ok[OF parseSeatMapLayout_items[OF assms(1)]] parseSeatAvailability_Inr[OF assms(2)]
  by (auto simp: liveSeatObservation_def seatMapSnapshot_def seatCountAsInt32_def observationOk_def Let_def result_simps
      split: if_splits)

lemma readLiveSeats_ok:
  assumes "readLiveSeats ops env st aud b = (Inr obs, b', buffer)"
  shows "observationOk env st aud obs"
proof -
  from assms obtain body where "bindR (parseSeatMapLayout body aud) (\<lambda>layout.
      bindR (parseSeatAvailability body aud (Some layout)) (\<lambda>availableIDs.
      liveSeatObservation env st aud layout availableIDs)) = Inr obs"
    by (auto simp: readLiveSeats_def Let_def split: prod.splits sum.splits bool.splits option.splits)
  then show ?thesis by (auto simp: result_simps liveSeatObservation_ok)
qed

text \<open>
  C19. What \<open>CaptureSeatAvailability\<close> reports is consistent in itself and with the assignment: the
  task was valid; the observation carries its showtime and auditorium; the embedded layout is well
  formed, its capacity the number of its seats and its version derived from the hash of exactly
  that layout; the availability refers to the same hash and instant, and lists, ascending and
  without repetition, seats of that layout only.
\<close>

theorem live_observation_consistent:
  assumes "CaptureSeatAvailability ops env (Some task) ad = (Inr obs, ad')"
    "saShowtime task = Some showtime" "saAuditorium task = Some auditorium"
  shows "validateSeatAvailabilityTask (Some task) = Inr () \<and> observationOk env (smId showtime) (auId auditorium) obs"
proof -
  have v: "validateSeatAvailabilityTask (Some task) = Inr ()"
    using assms(1) by (cases "validateSeatAvailabilityTask (Some task)") (simp_all add: CaptureSeatAvailability_def)
  then obtain b b' buffer where "readLiveSeats ops env (smId showtime) (auId auditorium) b = (Inr obs, b', buffer)"
    using assms by (auto simp: CaptureSeatAvailability_def taskAuditoriumId_def Let_def split: prod.splits sum.splits)
  from readLiveSeats_ok[OF this] v show ?thesis by simp
qed

text \<open>A page on which the whole capture succeeds.\<close>

definition sampleFields :: "(string \<times> json) list" where
  "sampleFields = [(''siteNo'', JString ''0013''), (''movNo'', JString ''77''), (''scnsNo'', JString ''01''), (''scnsNm'', JString ''IMAX''),
     (''scnYmd'', JString ''20250102''), (''scnSseq'', JString ''3''), (''scnsrtTm'', JString ''0900''), (''scnendTm'', JString ''1100'')]"

definition sampleScheduleBody :: jsonBody where
  "sampleScheduleBody = \<lparr>bSize = 9, bFirst = Some (JObject [(''statusCode'', JNumber ''0''), (''data'', JArray [JObject sampleFields])], 9),
     bRest = None\<rparr>"

definition oneSeatLayoutBody :: jsonBody where
  "oneSeatLayoutBody = \<lparr>bSize = 9, bFirst = Some (JObject
    [(''data'', JObject [(''items'', JArray [JObject
      [(''sbord'', JObject [(''xcoordStartVal'', JString ''0''), (''xcoordEndVal'', JString ''4''),
         (''ycoordStartVal'', JString ''0''), (''ycoordEndVal'', JString ''4'')]),
       (''seats'', JArray [sampleSeat ''1'' ''2'' ''00''])]])])], 9), bRest = None\<rparr>"

definition samplePageOps :: "unit pageOps" where
  "samplePageOps = \<lparr>poNavigate = \<lambda>b. (Inr (), b), poWait = \<lambda>_ b. (Inr (), b), poClickExact = \<lambda>_ b. (Inr True, b),
     poClickPrefix = \<lambda>_ b. (Inr True, b), poExists = \<lambda>_ b. (Inr False, b)\<rparr>"

definition scheduleReply :: browserResponse where
  "scheduleReply = \<lparr>brURL = ''https://cgv.co.kr'' @ scheduleResponsePath, brStatus = 200, brBody = Inr sampleScheduleBody\<rparr>"

definition seatReply :: browserResponse where
  "seatReply = \<lparr>brURL = ''https://cgv.co.kr'' @ seatMapResponsePath, brStatus = 200, brBody = Inr oneSeatLayoutBody\<rparr>"

definition sampleSeatOps :: "unit seatOps" where
  "sampleSeatOps = \<lparr>soPage = samplePageOps, soSelected = \<lambda>_ b. (Inr True, b), soClick = \<lambda>_ b. ((Inr False, []), b),
     soShowtime = \<lambda>_ _ b. (Inr (1, True), b), soRefresh = \<lambda>b. ((Inr True, [seatReply]), b), soContains = \<lambda>_ b. (Inr False, b),
     soFetch = \<lambda>_ b. (Inr (200, noBody), b), soTicks = \<lambda>b. ([], b), soDateLabels = \<lambda>b. (Inr [], b),
     soArrived = \<lambda>b. ([scheduleReply], b)\<rparr>"

definition sampleSeatEnv :: seatEnv where
  "sampleSeatEnv = \<lparr>snHandler = None, snCtxErr = None, snNow = 0, snClock = \<lambda>_. 0, snToday = \<lparr>yr = 2025, mo = 1, dy = 1\<rparr>, snMarshal = \<lambda>_. Inr ''layout''\<rparr>"

lemma reply_paths:
  "providerResponsePath (brURL scheduleReply) = Some scheduleResponsePath"
  "providerResponsePath (brURL seatReply) = Some seatMapResponsePath"
  by code_simp+

lemma sample_rows: "parseScheduleResponse sampleScheduleBody = Inr [sampleScheduleRow]"
proof -
  have dec: "Unmarshal decodeEnvelope sampleScheduleBody zeroEnvelope
    = (\<lparr>evStatusCode = Some (JNumber ''0''), evStatusMessage = [], evData = Some (JArray [JObject sampleFields])\<rparr>, None)" by code_simp
  have "case requiredInteger (Some (JNumber ''0'')) ''statusCode'' of Inr i \<Rightarrow> i = 0 | Inl _ \<Rightarrow> False"
    "case parseRowsFrom 0 [map_of (rev sampleFields)] of Inr rows \<Rightarrow> rows = [sampleScheduleRow] | Inl _ \<Rightarrow> False" by code_simp+
  then have "requiredInteger (Some (JNumber ''0'')) ''statusCode'' = Inr 0"
    "parseRowsFrom 0 [map_of (rev sampleFields)] = Inr [sampleScheduleRow]" by (auto split: sum.splits)
  moreover have "bSize sampleScheduleBody = 9" by (simp add: sampleScheduleBody_def)
  ultimately show ?thesis unfolding parseScheduleResponse_def dec by (simp add: maxScheduleResponseBytes_def orErr_def)
qed

lemma oneSeatLayout_decoded:
  "Unmarshal decodeSeatEnvelope oneSeatLayoutBody zeroSeatEnvelope
    = (zeroSeatEnvelope\<lparr>sevItems := [sampleItem\<lparr>itSeats := [(itSeats sampleItem ! 1)\<lparr>sdStatusCode := ''00'', sdXStart := ''2'', sdXEnd := ''2''\<rparr>]\<rparr>]\<rparr>, None)"
  by code_simp

definition liveItem :: seatDataItem where
  "liveItem = sampleItem\<lparr>itSeats := [(itSeats sampleItem ! 1)\<lparr>sdStatusCode := ''00'', sdXStart := ''2'', sdXEnd := ''2''\<rparr>]\<rparr>"

lemma liveItem_seat: "\<exists>src. itSeats liveItem = [src] \<and> sourceLabel src = ''A1'' \<and> isOk (normalizedSeatLabel src) \<and> statusKnown src"
proof -
  have "itSeats liveItem = [hd (itSeats liveItem)]" "sourceLabel (hd (itSeats liveItem)) = ''A1''"
    "isOk (normalizedSeatLabel (hd (itSeats liveItem)))" "statusKnown (hd (itSeats liveItem))" by code_simp+
  then show ?thesis by blast
qed

lemma liveItem_layout: "isOk (layoutFromItems aud [liveItem])"
proof (rule layout_single_ok)
  have "case newSeatCoordinateBoard (itBoard liveItem) of Inr b \<Rightarrow> b = sampleBoard | Inl _ \<Rightarrow> False" by code_simp
  then show "newSeatCoordinateBoard (itBoard liveItem) = Inr sampleBoard" by (auto split: sum.splits)
  have "\<forall>src \<in> set (itSeats liveItem). case normalizedSeatLabel src of
       Inl _ \<Rightarrow> False
     | Inr (label, row, number) \<Rightarrow> isOk (centerX sampleBoard (sdXStart src) (sdXEnd src))
         \<and> isOk (centerY sampleBoard (sdYStart src) (sdYEnd src)) \<and> isOk (seatNumberAsInt32 number)"
    by code_simp
  then show "\<forall>src \<in> set (itSeats liveItem). isOk (seatFrom aud sampleBoard (saleFormNames (itSaleForms liveItem)) src)"
    by (simp only: seatFrom_isOk)
qed (simp_all add: liveItem_def sampleItem_def zeroItem_def)

lemma live_body_layout: "\<exists>L. parseSeatMapLayout oneSeatLayoutBody aud = Inr L \<and> map setLabel (lySeats L) = [''A1''] \<and> layoutOk aud L"
proof -
  obtain L where "layoutFromItems aud [liveItem] = Inr L" using liveItem_layout[of aud] unfolding isOk_iff by blast
  moreover have "parseSeatMapLayout oneSeatLayoutBody aud = layoutFromItems aud [liveItem]"
    unfolding parseSeatMapLayout_def oneSeatLayout_decoded liveItem_def by (simp add: zeroSeatEnvelope_def)
  ultimately show ?thesis using layoutFromItems_ok[of aud "[liveItem]" L] liveItem_seat by (auto simp: responseSeats_def)
qed

lemma live_body_availability:
  assumes "layoutOk aud L" "map setLabel (lySeats L) = [''A1'']" "TrimSpace aud \<noteq> []"
  shows "isOk (parseSeatAvailability oneSeatLayoutBody aud (Some L))"
proof -
  from liveItem_seat obtain src where src: "itSeats liveItem = [src]" "sourceLabel src = ''A1''" "isOk (normalizedSeatLabel src)" "statusKnown src"
    by blast
  from assms(2) obtain s where s: "lySeats L = [s]" "setLabel s = ''A1''" by (auto simp: map_eq_Cons_conv)
  then have i: "setId s = SeatID aud ''A1''" using assms(1) by (simp add: layoutOk_def seatOk_def)
  have "isOk (providerAvailableSeats [liveItem] aud [SeatID aud ''A1''])"
    unfolding isOk_iff by (subst providerAvailableSeats_Inr) (simp_all add: responseSeats_def src)
  then show ?thesis unfolding parseSeatAvailability_def oneSeatLayout_decoded liveItem_def[symmetric]
    using assms(3) s i by (simp add: zeroSeatEnvelope_def seatAvailabilityLayoutIndex_def SeatID_trim keepFirst_def)
qed

lemma CatalogID_trim: "list_all plainChar kind \<Longrightarrow> TrimSpace (CatalogID p kind s) \<noteq> []"
proof -
  assume k: "list_all plainChar kind"
  have "lowerHexDigit c \<Longrightarrow> plainChar c" for c by (auto simp: lowerHexDigit_def plainChar_def isDigit_def)
  moreover have "plainChar (CHR ''_'')" by (simp add: plainChar_def)
  ultimately have "list_all plainChar (CatalogID p kind s)"
    using k digest_hex unfolding CatalogID_def Let_def TrimSpace_plain[OF k] list_all_append by (simp add: list_all_iff)
  moreover have "CatalogID p kind s \<noteq> []" by (simp add: CatalogID_def Let_def)
  ultimately show ?thesis by (simp add: TrimSpace_plain)
qed

lemma captured_reply:
  "captureProviderResponse seatReply [] = [\<lparr>cpPath = seatMapResponsePath, cpRequestURL = brURL seatReply, cpStatus = 200,
     cpBody = oneSeatLayoutBody, cpErr = None\<rparr>]"
  "captureProviderResponse scheduleReply [] = [\<lparr>cpPath = scheduleResponsePath, cpRequestURL = brURL scheduleReply, cpStatus = 200,
     cpBody = sampleScheduleBody, cpErr = None\<rparr>]"
  by (simp_all add: captureProviderResponse_def reply_paths maxCapturedProviderResponses_def capturedOf_def Let_def)
    (simp_all add: seatReply_def scheduleReply_def oneSeatLayoutBody_def sampleScheduleBody_def maxScheduleResponseBytes_def errorsJoin_simps)

lemma live_read: "\<exists>obs b buffer. readLiveSeats sampleSeatOps sampleSeatEnv st sampleAuditoriumId () = (Inr obs, b, buffer)"
proof -
  obtain L where L: "parseSeatMapLayout oneSeatLayoutBody sampleAuditoriumId = Inr L" "map setLabel (lySeats L) = [''A1'']"
    "layoutOk sampleAuditoriumId L" using live_body_layout[of sampleAuditoriumId] by (elim exE conjE) (rule that)
  have "TrimSpace sampleAuditoriumId \<noteq> []" by (rule CatalogID_trim) (simp_all add: plainChar_def)
  from live_body_availability[OF L(3,2) this] obtain av where "parseSeatAvailability oneSeatLayoutBody sampleAuditoriumId (Some L) = Inr av"
    unfolding isOk_iff by blast
  moreover have "length (lySeats L) = 1" using L(2) by (metis length_map list.size(3,4) One_nat_def add_0)
  ultimately show ?thesis
    by (simp add: readLiveSeats_def sampleSeatOps_def captured_reply takeProviderResponses_def L(1) liveSeatObservation_def
        seatMapSnapshot_def layoutHash_def sampleSeatEnv_def seatCountAsInt32_def maxInt32_def)
qed

lemma sample_extract:
  assumes "scheduleEntryFromProviderRow 0 sampleScheduleRow (taskTheater (Some sampleTheaterMsg)) = Inr e"
  shows "fst (extractSchedules (\<lambda>_. 0) None ''2025-01-02'' (taskTheater (Some sampleTheaterMsg)) (captureProviderResponse scheduleReply [])) = Inr [e]"
proof -
  let ?th = "taskTheater (Some sampleTheaterMsg)"
  have th: "TrimSpace (stSourceKey ?th) = ''0013''"
    using sampleRow_keys(4) by (simp add: taskTheater_def siteNoForTheater_def sample_values_msg)
  have row: "rwSiteNo sampleScheduleRow = ''0013''" "rwDate sampleScheduleRow = ''2025-01-02''" by (simp_all add: sampleScheduleRow_def)
  have "case canonicalProviderDate ''2025-01-02'' of Inr d \<Rightarrow> d = ''2025-01-02'' | Inl _ \<Rightarrow> False" by code_simp
  then have d: "canonicalProviderDate ''2025-01-02'' = Inr ''2025-01-02''" by (auto split: sum.splits)
  have "fst (captureScheduleRows None (captureProviderResponse scheduleReply [])) = Inr [sampleScheduleRow]"
    by (simp add: captureScheduleRows_def captured_reply takeProviderResponses_def sample_rows)
  then obtain b where "captureScheduleRows None (captureProviderResponse scheduleReply []) = (Inr [sampleScheduleRow], b)"
    by (metis prod.collapse)
  then show ?thesis using assms th row d by (simp add: extractSchedules_def extractFromRows_def targetRow_def)
qed

lemma sample_resolve:
  "\<exists>showtime buffer. resolveSeatAvailabilityShowtime sampleSeatOps sampleSeatEnv (Some sampleShowtimeMsg)
     (taskTheater (Some sampleTheaterMsg)) () (captureProviderResponse scheduleReply []) = (Inr showtime, (), buffer)"
proof -
  let ?th = "taskTheater (Some sampleTheaterMsg)" and ?buffer = "captureProviderResponse scheduleReply []"
  obtain e where e: "scheduleEntryFromProviderRow 0 sampleScheduleRow ?th = Inr e"
    "exactSeatMapShowtime [e] (Some sampleShowtimeMsg) = Inr (seShowtime e)" using sampleScheduleRow_entry by (elim exE conjE) (rule that)
  obtain buffer where x: "extractSchedules (\<lambda>_. 0) None ''2025-01-02'' ?th ?buffer = (Inr [e], buffer)"
    using sample_extract[OF e(1)] by (metis prod.collapse)
  have "parseDateOnly ''2025-01-02'' \<noteq> None" by code_simp
  then obtain d where d: "parseDateOnly ''2025-01-02'' = Some d" by blast
  have "selectDate sampleSeatOps today ''2025-01-02'' () ?buffer = (Inr (), (), ?buffer)" for today
    by (simp add: selectDate_def d dateSelectionLabels_def Let_def sampleSeatOps_def)
  then show ?thesis
    by (simp add: resolveSeatAvailabilityShowtime_def sample_values_msg sample_date sampleSeatEnv_def x e(2))
qed

lemma sample_enter:
  "enterTheater sampleSeatOps (taskTheater (Some sampleTheaterMsg)) (\<lparr>slRegion = [], slTheater = [], slPage = ()\<rparr>, [])
    = (Inr (), \<lparr>slRegion = ''Seoul'', slTheater = ''Yongsan'', slPage = ()\<rparr>, captureProviderResponse scheduleReply [])"
  by (simp add: enterTheater_def selectCinemaTheater_def selectCinemaRegion_def taskTheater_def sampleTheaterMsg_def
      sampleSeatOps_def samplePageOps_def)

lemma sample_open: "openNonmemberSeatPage sampleSeatOps showtime () = (Inr (), ())"
  by (simp add: openNonmemberSeatPage_def clickExactSeatMapShowtime_def sampleSeatOps_def samplePageOps_def captchaMarkers_def)

theorem live_observation_consistent_witness:
  "\<exists>obs ad. CaptureSeatAvailability sampleSeatOps sampleSeatEnv (Some sampleSeatTask) (\<lparr>slRegion = [], slTheater = [], slPage = ()\<rparr>, []) = (Inr obs, ad)
    \<and> observationOk sampleSeatEnv (smId sampleShowtimeMsg) (auId sampleAuditoriumMsg) obs"
proof -
  have parts: "saTheater sampleSeatTask = Some sampleTheaterMsg" "saAuditorium sampleSeatTask = Some sampleAuditoriumMsg"
    "saShowtime sampleSeatTask = Some sampleShowtimeMsg" by (simp_all add: sampleSeatTask_def)
  have aud: "auId sampleAuditoriumMsg = sampleAuditoriumId" by (simp add: sampleAuditoriumMsg_def)
  obtain showtime buffer where r: "resolveSeatAvailabilityShowtime sampleSeatOps sampleSeatEnv (Some sampleShowtimeMsg)
     (taskTheater (Some sampleTheaterMsg)) () (captureProviderResponse scheduleReply []) = (Inr showtime, (), buffer)"
    using sample_resolve by (elim exE) (rule that)
  obtain obs b buffer3 where live: "readLiveSeats sampleSeatOps sampleSeatEnv (smId sampleShowtimeMsg) sampleAuditoriumId () = (Inr obs, b, buffer3)"
    using live_read[of "smId sampleShowtimeMsg"] by (elim exE) (rule that)
  have run: "CaptureSeatAvailability sampleSeatOps sampleSeatEnv (Some sampleSeatTask) (\<lparr>slRegion = [], slTheater = [], slPage = ()\<rparr>, [])
    = (Inr obs, \<lparr>slRegion = ''Seoul'', slTheater = ''Yongsan'', slPage = b\<rparr>, buffer3)"
    by (simp add: CaptureSeatAvailability_def sampleSeatTask_ok parts sample_enter r sample_open taskAuditoriumId_def aud live)
  from live_observation_consistent[OF run parts(3,2)] run show ?thesis by (intro exI conjI) (assumption, simp)
qed

text \<open>A sold-out or empty showtime is never the one used for a static layout.\<close>

lemma firstSeatMapShowtime_skips_sold_out:
  "firstSeatMapShowtimeAt entries auditoriumID now loc = Some s \<Longrightarrow> \<not> shSoldOut s \<and> 0 < shAvailableSeats s"
  by (auto simp: firstSeatMapShowtimeAt_def find_Some_iff)

end
