(* ===== verification/CgvCatalog.thy ===== *)
theory CgvCatalog
  imports CgvSchedule GoPath "HOL-Library.Multiset"
begin

text \<open>
  The catalog of theaters and movies (\<open>internal/provider/cgv/catalog_response.go\<close>, \<open>catalog.go\<close> and
  \<open>catalog_poster.go\<close>): the theater response, the movie cards of the booking page, and the posters
  the page loads while it is rendered. The page is a record of operations, each with the provider
  responses that arrive while it runs; logging is left out.
\<close>


section \<open>The theater response\<close>

record providerTheaterRow =
  ptSiteNo :: string
  ptSiteName :: string
  ptRegion :: string

record theaterData =
  tdRegions :: "json option"
  tdSites :: "json option"

definition decodeTheaterData :: "theaterData decoder" where
  "decodeTheaterData = decodeStruct (fieldTable
    [(''regionInfo'', onField tdRegions (\<lambda>x v. v\<lparr>tdRegions := x\<rparr>) decodeRaw),
     (''siteInfo'', onField tdSites (\<lambda>x v. v\<lparr>tdSites := x\<rparr>) decodeRaw)])"

definition rawPresent :: "json option \<Rightarrow> json option" where
  "rawPresent payload = (case payload of None \<Rightarrow> None | Some JNull \<Rightarrow> None | Some j \<Rightarrow> Some j)"

text \<open>The lookup from region codes to names; a code may be repeated with the same name only.\<close>

definition regionTurn :: "(string \<rightharpoonup> string) \<Rightarrow> nat \<times> rawRow \<Rightarrow> (string \<rightharpoonup> string) result" where
  "regionTurn regions = (\<lambda>(index, raw).
    bindR (mapErr (wrapE (''CGV theater region '' @ Itoa (int index))) (requiredString raw ''comCdval'')) (\<lambda>code.
    bindR (mapErr (wrapE (''CGV theater region '' @ Itoa (int index))) (requiredString raw ''comCdvalNm'')) (\<lambda>name.
    if regions code \<noteq> None \<and> regions code \<noteq> Some name
    then Inl (errNew (''CGV theater region '' @ quoteGo code @ '' has conflicting names''))
    else Inr (regions(code \<mapsto> name)))))"

definition decodeTheaterRegions :: "json option \<Rightarrow> (string \<rightharpoonup> string) result" where
  "decodeTheaterRegions payload =
    (case rawPresent payload of
       None \<Rightarrow> Inl (errNew ''CGV theater regions are missing'')
     | Some j \<Rightarrow>
         (case decodeSlice decodeRowMap (\<lambda>_. None) j [] of
            (_, Some e) \<Rightarrow> Inl (wrapE ''decode CGV theater regions'' e)
          | (rawRegions, None) \<Rightarrow> foldR regionTurn Map.empty (enumerate 0 rawRegions)))"

definition siteRow :: "(string \<rightharpoonup> string) \<Rightarrow> nat \<times> rawRow \<Rightarrow> providerTheaterRow result" where
  "siteRow regions = (\<lambda>(index, raw).
    let located = wrapE (''CGV theater row '' @ Itoa (int index)) in
    bindR (mapErr located (requiredString raw ''siteNo'')) (\<lambda>siteNo.
    bindR (mapErr located (requiredString raw ''siteNm'')) (\<lambda>siteName.
    bindR (mapErr located (requiredString raw ''regnGrpCd'')) (\<lambda>regionCode.
    case regions regionCode of
      None \<Rightarrow> Inl (errNew (''CGV theater row '' @ Itoa (int index) @ '': unknown region '' @ quoteGo regionCode))
    | Some region \<Rightarrow> Inr \<lparr>ptSiteNo = siteNo, ptSiteName = siteName, ptRegion = region\<rparr>))))"

definition decodeTheaterSites :: "json option \<Rightarrow> (string \<rightharpoonup> string) \<Rightarrow> providerTheaterRow list result" where
  "decodeTheaterSites payload regions =
    (case rawPresent payload of
       None \<Rightarrow> Inl (errNew ''CGV theater sites are missing'')
     | Some j \<Rightarrow>
         (case decodeSlice decodeRowMap (\<lambda>_. None) j [] of
            (_, Some e) \<Rightarrow> Inl (wrapE ''decode CGV theater sites'' e)
          | (rawRows, None) \<Rightarrow> mapR (siteRow regions) (enumerate 0 rawRows)))"

definition parseTheaterCatalogResponse :: "jsonBody \<Rightarrow> providerTheaterRow list result" where
  "parseTheaterCatalogResponse payload =
    (if bSize payload = 0 \<or> maxScheduleResponseBytes < bSize payload then
       Inl (errNew (''invalid CGV theater response size '' @ Itoa (int (bSize payload))))
     else case Unmarshal decodeEnvelope payload zeroEnvelope of
         (_, Some e) \<Rightarrow> Inl (wrapE ''decode CGV theater response'' e)
       | (envelope, None) \<Rightarrow>
           bindR (requiredInteger (evStatusCode envelope) ''statusCode'') (\<lambda>statusCode.
           if statusCode \<noteq> 0 then
             Inl (errNew (''CGV theater response status '' @ Itoa statusCode @ '': '' @ evStatusMessage envelope))
           else case rawPresent (evData envelope) of
               None \<Rightarrow> Inl (errNew ''CGV theater response data is missing'')
             | Some j \<Rightarrow>
                 (case decodeTheaterData j \<lparr>tdRegions = None, tdSites = None\<rparr> of
                    (_, Some e) \<Rightarrow> Inl (wrapE ''decode CGV theater data'' e)
                  | (td, None) \<Rightarrow>
                      bindR (decodeTheaterRegions (tdRegions td)) (decodeTheaterSites (tdSites td)))))"

fun collectTheaterRows ::
  "(goerr \<Rightarrow> unit result) option \<Rightarrow> capturedProviderResponse list \<Rightarrow> string list \<Rightarrow> providerTheaterRow list result" where
  "collectTheaterRows handler [] seen = Inr []"
| "collectTheaterRows handler (c # cs) seen =
     (case cpErr c of
        Some e \<Rightarrow> Inl (handleProviderFailure handler e)
      | None \<Rightarrow>
          bindR (parseTheaterCatalogResponse (cpBody c)) (\<lambda>parsed.
          let kept = keepFirstFrom ptSiteNo seen parsed in
          bindR (collectTheaterRows handler cs (map ptSiteNo kept @ seen)) (\<lambda>rows. Inr (kept @ rows))))"

definition captureTheaterRows ::
  "(goerr \<Rightarrow> unit result) option \<Rightarrow> capturedProviderResponse list \<Rightarrow>
   providerTheaterRow list result \<times> capturedProviderResponse list" where
  "captureTheaterRows handler buffer =
    (let (captures, buffer') = takeProviderResponses [theaterCatalogResponsePath] buffer in
     (if captures = [] then Inl (Sentinel ErrTheaterResponseMissing) else collectTheaterRows handler captures [], buffer'))"


section \<open>Theaters\<close>

record CatalogMovie =
  cmSourceKey :: string
  cmTitle :: string

record CatalogPoster =
  cpoMovieSourceKey :: string
  cpoMediaType :: string
  cpoData :: string
  cpoContentHash :: string

record CatalogTheater =
  cthSourceKey :: string
  cthRegion :: string
  cthName :: string

record CatalogCapture =
  ccMovies :: "CatalogMovie list"
  ccPosters :: "CatalogPoster list"
  ccTheaters :: "CatalogTheater list"

text \<open>\<open>sort.Slice\<close> by region, then name; theaters that agree in both keep their order here.\<close>

definition sortTheaters :: "CatalogTheater list \<Rightarrow> CatalogTheater list" where
  "sortTheaters ts = sort_key cthRegion (sort_key cthName ts)"

definition theatersOf :: "providerTheaterRow list \<Rightarrow> CatalogTheater list result" where
  "theatersOf rows =
    (let theaters = map (\<lambda>r. \<lparr>cthSourceKey = ptSiteNo r, cthRegion = ptRegion r, cthName = ptSiteName r\<rparr>) rows in
     if theaters = [] then Inl (wrapS ErrUIContractChanged ''theater catalog is empty'')
     else Inr (sortTheaters theaters))"

text \<open>
  The page of the theater list: the navigation with the first wait, the click on the editor of the
  favourite theaters, and the wait after it, each with what arrives meanwhile.
\<close>

record theaterPage =
  tpCtxErr :: "goerr option"
  tpNavigate :: "unit result \<times> browserResponse list"
  tpWait :: "unit result \<times> browserResponse list"
  tpClick :: "string \<Rightarrow> bool result \<times> browserResponse list"
  tpWaitEditor :: "unit result \<times> browserResponse list"

definition retryTheaterRows ::
  "(goerr \<Rightarrow> unit result) option \<Rightarrow> theaterPage \<Rightarrow> capturedProviderResponse list \<Rightarrow>
   providerTheaterRow list result \<times> capturedProviderResponse list" where
  "retryTheaterRows handler page buffer =
    (let (clicked, arrived) = tpClick page favoriteEditorLabel; buffer1 = fold captureProviderResponse arrived buffer in
     case clicked of
       Inl e \<Rightarrow> (Inl e, buffer1)
     | Inr False \<Rightarrow> (Inl (wrapS ErrUIContractChanged ''theater response was not captured''), buffer1)
     | Inr True \<Rightarrow>
         (let (waited, later) = tpWaitEditor page; buffer2 = fold captureProviderResponse later buffer1 in
          case waited of
            Inl e \<Rightarrow> (Inl e, buffer2)
          | Inr _ \<Rightarrow> captureTheaterRows handler buffer2))"

definition captureTheaters ::
  "(goerr \<Rightarrow> unit result) option \<Rightarrow> theaterPage \<Rightarrow> capturedProviderResponse list \<Rightarrow>
   CatalogTheater list result \<times> capturedProviderResponse list" where
  "captureTheaters handler page buffer =
    (case tpCtxErr page of
       Some e \<Rightarrow> (Inl e, buffer)
     | None \<Rightarrow>
         (let (opened, arrived) = tpNavigate page; buffer1 = fold captureProviderResponse arrived [] in
          case opened of
            Inl e \<Rightarrow> (Inl (wrapE ''open CGV theater catalog'' e), buffer1)
          | Inr _ \<Rightarrow>
              (let (waited, later) = tpWait page; buffer2 = fold captureProviderResponse later buffer1 in
               case waited of
                 Inl e \<Rightarrow> (Inl e, buffer2)
               | Inr _ \<Rightarrow>
                   (let (rows, buffer3) =
                      (case captureTheaterRows handler buffer2 of
                         (Inl e, b) \<Rightarrow> if errorsIs e ErrTheaterResponseMissing then retryTheaterRows handler page b else (Inl e, b)
                       | (Inr rs, b) \<Rightarrow> (Inr rs, b))
                    in (bindR rows theatersOf, buffer3)))))"

section \<open>Posters\<close>

definition posterSuffix :: string where
  "posterSuffix = [CHR 0xED, CHR 0x8F, CHR 0xAC, CHR 0xEC, CHR 0x8A, CHR 0xA4, CHR 0xED, CHR 0x84, CHR 0xB0]"

definition maximumCatalogPosterBytes :: nat where "maximumCatalogPosterBytes = 32 * 2 ^ 20"
definition posterCaptureSettleTime :: duration where "posterCaptureSettleTime = 12 * second"

text \<open>\<open>strings.Trim\<close> of slashes, \<open>path.Base\<close> and \<open>path.Ext\<close>.\<close>

definition trimSlash :: "string \<Rightarrow> string" where
  "trimSlash s = rev (dropWhile (\<lambda>c. c = slash) (rev (dropWhile (\<lambda>c. c = slash) s)))"

definition pathBase :: "string \<Rightarrow> string" where
  "pathBase p =
    (if p = [] then ''.''
     else let q = rev (dropWhile (\<lambda>c. c = slash) (rev p)) in
       if q = [] then [slash] else rev (takeWhile (\<lambda>c. c \<noteq> slash) (rev q)))"

definition pathExt :: "string \<Rightarrow> string" where
  "pathExt p =
    (let tail = takeWhile (\<lambda>c. c \<noteq> slash) (rev p) in
     if CHR ''.'' \<in> set tail then CHR ''.'' # rev (takeWhile (\<lambda>c. c \<noteq> CHR ''.'') tail) else [])"

definition posterExtensions :: "string list" where
  "posterExtensions = [''.jpg'', ''.jpeg'', ''.png'', ''.webp'']"

definition catalogPosterMovieSource :: "string \<Rightarrow> string option" where
  "catalogPosterMovieSource rawURL =
    (case urlParse (TrimSpace rawURL) of
       Inl _ \<Rightarrow> None
     | Inr parsed \<Rightarrow>
         if \<not> EqualFold (Hostname parsed) ''cdn.cgv.co.kr'' then None
         else let segments = Split slash (trimSlash (uPath parsed)) in
           if length segments \<noteq> 7 \<or> \<not> EqualFold (Join (take 4 segments) ''/'') ''cgvpomsfilm/Movie/Thumbnail/Poster'' then None
           else let movieSource = segments ! 5; filename = pathBase (segments ! 6); extension = ToLower (pathExt filename) in
             if \<not> numericIdentifier movieSource then None
             else if \<not> HasPrefix filename (movieSource @ ''_'') \<or> extension \<notin> set posterExtensions then None
             else Some movieSource)"

definition supportedPosterMediaType :: "string \<Rightarrow> bool" where
  "supportedPosterMediaType value \<longleftrightarrow> ToLower (TrimSpace value) \<in> {''image/jpeg'', ''image/png'', ''image/webp''}"

definition isCGVMovieBookingPage :: "string \<Rightarrow> bool" where
  "isCGVMovieBookingPage rawURL =
    (case urlParse (TrimSpace rawURL) of
       Inl _ \<Rightarrow> False
     | Inr parsed \<Rightarrow> EqualFold (Hostname parsed) ''cgv.co.kr'' \<and> Clean (uPath parsed) = ''/cnm/movieBook/movie'')"

text \<open>A card of the page: its alternative text and the address of its image.\<close>

record catalogPosterElement =
  peAlt :: string
  peSrc :: string

definition movieOf :: "catalogPosterElement \<Rightarrow> CatalogMovie option" where
  "movieOf element =
    (let title = TrimSpace (TrimSuffix (TrimSpace (peAlt element)) posterSuffix) in
     case catalogPosterMovieSource (peSrc element) of
       None \<Rightarrow> None
     | Some movieSource \<Rightarrow> if title = [] then None else Some \<lparr>cmSourceKey = movieSource, cmTitle = title\<rparr>)"

definition bookingMovies :: "catalogPosterElement list result \<Rightarrow> CatalogMovie list result" where
  "bookingMovies elements =
    bindR (mapErr (wrapE ''read CGV movie-booking cards'') elements) (\<lambda>es.
    let movies = keepFirst cmSourceKey (List.map_filter movieOf es) in
    if movies = [] then Inl (wrapS ErrUIContractChanged ''CGV movie-booking page exposed no movie posters'')
    else Inr movies)"

text \<open>The capture of posters: whether it is on, the movies the caller has, and what was kept.\<close>

record posterState =
  pmMode :: bool
  pmCached :: "string list"
  pmPosters :: "(string \<times> CatalogPoster) list"

definition idlePosters :: posterState where
  "idlePosters = \<lparr>pmMode = False, pmCached = [], pmPosters = []\<rparr>"

definition beginCatalogPosterCapture :: "string list \<Rightarrow> posterState \<Rightarrow> posterState" where
  "beginCatalogPosterCapture cachedMovieIDs st =
    \<lparr>pmMode = True, pmCached = filter (\<lambda>i. i \<noteq> []) (map TrimSpace cachedMovieIDs), pmPosters = []\<rparr>"

definition clearCatalogPosterCapture :: "posterState \<Rightarrow> posterState" where
  "clearCatalogPosterCapture st = idlePosters"

definition catalogPosterRequestAllowed :: "string \<Rightarrow> string \<Rightarrow> posterState \<Rightarrow> bool \<times> bool" where
  "catalogPosterRequestAllowed rawURL resourceType st =
    (if \<not> EqualFold (TrimSpace resourceType) ''image'' then (False, False)
     else if catalogPosterMovieSource rawURL = None then (False, False)
     else if \<not> pmMode st then (False, False)
     else (True, True))"

text \<open>
  A response of the page: the kind of resource when it has a request, its address and status, its
  content type and body. What \<open>mime.ParseMediaType\<close> makes of a content type is an argument.
\<close>

record posterResponse =
  prResourceType :: "string option"
  prURL :: string
  prStatus :: int
  prContentType :: "string result"
  prBody :: "string result"

definition catalogPosterResponseMovieSource :: "posterResponse \<Rightarrow> string option" where
  "catalogPosterResponseMovieSource response =
    (case prResourceType response of
       None \<Rightarrow> None
     | Some kind \<Rightarrow>
         if \<not> EqualFold kind ''image'' then None
         else if 200 \<le> prStatus response \<and> prStatus response < 300 then catalogPosterMovieSource (prURL response) else None)"

definition catalogPosterAlreadyAvailable :: "string \<Rightarrow> posterState \<Rightarrow> bool" where
  "catalogPosterAlreadyAvailable movieID st \<longleftrightarrow>
    \<not> pmMode st \<or> movieID \<in> set (pmCached st) \<or> map_of (pmPosters st) movieID \<noteq> None"

text \<open>The poster of a response, or the reason it is discarded for.\<close>

definition readCatalogPosterResponse :: "(string \<Rightarrow> string option) \<Rightarrow> posterResponse \<Rightarrow> string \<Rightarrow> string + CatalogPoster" where
  "readCatalogPosterResponse parseMediaType response movieSource =
    (case prContentType response of
       Inl _ \<Rightarrow> Inl ''content_type_unavailable''
     | Inr header \<Rightarrow>
         (case parseMediaType header of
            None \<Rightarrow> Inl ''unsupported_content_type''
          | Some mediaType \<Rightarrow>
              if \<not> supportedPosterMediaType mediaType then Inl ''unsupported_content_type''
              else (case prBody response of
                  Inl _ \<Rightarrow> Inl ''response_body_unavailable''
                | Inr d \<Rightarrow>
                    if d = [] then Inl ''empty_response_body''
                    else if maximumCatalogPosterBytes < length d then Inl ''response_too_large''
                    else Inr \<lparr>cpoMovieSourceKey = movieSource, cpoMediaType = ToLower mediaType, cpoData = d,
                              cpoContentHash = hexOf (Sum256 d)\<rparr>)))"

definition storeCatalogPoster :: "string \<Rightarrow> CatalogPoster \<Rightarrow> posterState \<Rightarrow> bool \<times> posterState" where
  "storeCatalogPoster movieID poster st =
    (if \<not> pmMode st then (False, st)
     else if movieID \<in> set (pmCached st) then (False, st)
     else if map_of (pmPosters st) movieID \<noteq> None then (False, st)
     else (True, st\<lparr>pmPosters := (movieID, poster) # pmPosters st\<rparr>))"

definition captureCatalogPosterResponse :: "(string \<Rightarrow> string option) \<Rightarrow> posterResponse \<Rightarrow> posterState \<Rightarrow> posterState" where
  "captureCatalogPosterResponse parseMediaType response st =
    (case catalogPosterResponseMovieSource response of
       None \<Rightarrow> st
     | Some movieSource \<Rightarrow>
         (let movieID = providerCatalogID ''movie'' movieSource in
          if catalogPosterAlreadyAvailable movieID st then st
          else case readCatalogPosterResponse parseMediaType response movieSource of
              Inl _ \<Rightarrow> st
            | Inr poster \<Rightarrow> snd (storeCatalogPoster movieID poster st)))"

definition cachedCatalogMovieCount :: "CatalogMovie list \<Rightarrow> posterState \<Rightarrow> nat" where
  "cachedCatalogMovieCount movies st =
    length (filter (\<lambda>m. providerCatalogID ''movie'' (cmSourceKey m) \<in> set (pmCached st)) movies)"

definition catalogPostersComplete :: "CatalogMovie list \<Rightarrow> posterState \<Rightarrow> bool" where
  "catalogPostersComplete movies st \<longleftrightarrow>
    list_all (\<lambda>m. let movieID = providerCatalogID ''movie'' (cmSourceKey m) in
      movieID \<in> set (pmCached st) \<or> map_of (pmPosters st) movieID \<noteq> None) movies"

definition collectedCatalogPosters :: "posterState \<Rightarrow> CatalogPoster list" where
  "collectedCatalogPosters st = sort_key cpoMovieSourceKey (map snd (pmPosters st))"

text \<open>
  The wait for the posters: one turn per poll, with the clock at its start, what arrives during it and
  whether the wait itself failed. The loop ends when every poster is there or the deadline has passed.
\<close>

record posterPoll =
  ppNow :: instant
  ppArrived :: "posterResponse list"
  ppWait :: "unit result"

fun pollPosters ::
  "(string \<Rightarrow> string option) \<Rightarrow> CatalogMovie list \<Rightarrow> instant \<Rightarrow> posterPoll list \<Rightarrow> posterState \<Rightarrow> unit result \<times> posterState" where
  "pollPosters mime movies deadline [] st = (Inr (), st)"
| "pollPosters mime movies deadline (p # ps) st =
     (if catalogPostersComplete movies st \<or> \<not> ppNow p < deadline then (Inr (), st)
      else let st' = fold (captureCatalogPosterResponse mime) (ppArrived p) st in
        case ppWait p of
          Inl e \<Rightarrow> (Inl e, st')
        | Inr _ \<Rightarrow> pollPosters mime movies deadline ps st')"

record moviePage =
  mpCtxErr :: "goerr option"
  mpNavigate :: "unit result \<times> posterResponse list"
  mpAttached :: "unit result \<times> posterResponse list"
  mpWait :: "unit result \<times> posterResponse list"
  mpCards :: "catalogPosterElement list result"
  mpEager :: "unit result"
  mpNow :: instant
  mpPolls :: "posterPoll list"
  mpURL :: string

definition renderBookingPosterImages ::
  "(string \<Rightarrow> string option) \<Rightarrow> moviePage \<Rightarrow> CatalogMovie list \<Rightarrow> posterState \<Rightarrow> unit result \<times> posterState" where
  "renderBookingPosterImages mime page movies st =
    (case mpEager page of
       Inl e \<Rightarrow> (Inl (wrapE ''render CGV movie-booking poster images'' e), st)
     | Inr _ \<Rightarrow> pollPosters mime movies (mpNow page + posterCaptureSettleTime) (mpPolls page) st)"

definition openMoviePage ::
  "(string \<Rightarrow> string option) \<Rightarrow> moviePage \<Rightarrow> posterState \<Rightarrow> CatalogMovie list result \<times> posterState" where
  "openMoviePage mime page st =
    (let st1 = fold (captureCatalogPosterResponse mime) (snd (mpNavigate page)) st in
     case fst (mpNavigate page) of
       Inl e \<Rightarrow> (Inl (wrapE ''open CGV movie-booking catalog'' e), st1)
     | Inr _ \<Rightarrow>
    (let st2 = fold (captureCatalogPosterResponse mime) (snd (mpAttached page)) st1 in
     case fst (mpAttached page) of
       Inl e \<Rightarrow> (Inl (wrapE ''wait for CGV movie-booking catalog'' e), st2)
     | Inr _ \<Rightarrow>
    (let st3 = fold (captureCatalogPosterResponse mime) (snd (mpWait page)) st2 in
     case fst (mpWait page) of
       Inl e \<Rightarrow> (Inl e, st3)
     | Inr _ \<Rightarrow> (bookingMovies (mpCards page), st3))))"

definition captureBookingMovies ::
  "(string \<Rightarrow> string option) \<Rightarrow> moviePage \<Rightarrow> string list \<Rightarrow> posterState \<Rightarrow>
   (CatalogMovie list \<times> CatalogPoster list) result \<times> posterState" where
  "captureBookingMovies mime page cachedPosterMovieIDs st =
    (let (opened, st1) = openMoviePage mime page (beginCatalogPosterCapture cachedPosterMovieIDs st);
         outcome = bindR opened (\<lambda>movies.
           let (rendered, st2) = renderBookingPosterImages mime page movies st1 in
           bindR rendered (\<lambda>_.
           if \<not> isCGVMovieBookingPage (mpURL page) then
             Inl (wrapS ErrUIContractChanged (''poster capture left CGV movie-booking page for '' @ quoteGo (mpURL page)))
           else case mpCtxErr page of
               Some e \<Rightarrow> Inl e
             | None \<Rightarrow> Inr (movies, collectedCatalogPosters st2)))
     in (outcome, clearCatalogPosterCapture st))"

definition CaptureCatalog ::
  "(goerr \<Rightarrow> unit result) option \<Rightarrow> (string \<Rightarrow> string option) \<Rightarrow> goerr option \<Rightarrow> theaterPage \<Rightarrow> moviePage \<Rightarrow> string list \<Rightarrow>
   capturedProviderResponse list \<times> posterState \<Rightarrow> CatalogCapture result \<times> capturedProviderResponse list \<times> posterState" where
  "CaptureCatalog handler mime ctxErr theaters movies cachedPosterMovieIDs = (\<lambda>(buffer, posters).
    case ctxErr of
      Some e \<Rightarrow> (Inl e, buffer, posters)
    | None \<Rightarrow>
        (case captureTheaters handler theaters buffer of
           (Inl e, buffer1) \<Rightarrow> (Inl e, buffer1, posters)
         | (Inr ts, buffer1) \<Rightarrow>
             (case captureBookingMovies mime movies cachedPosterMovieIDs posters of
                (Inl e, posters1) \<Rightarrow> (Inl e, buffer1, posters1)
              | (Inr (ms, ps), posters1) \<Rightarrow> (Inr \<lparr>ccMovies = ms, ccPosters = ps, ccTheaters = ts\<rparr>, buffer1, posters1))))"

section \<open>What the catalog holds\<close>

lemma stringValue_Inr: "stringValue v field = Inr s \<Longrightarrow> s \<noteq> []"
  by (cases "(v, field)" rule: stringValue.cases) (auto split: if_splits)

lemma requiredString_Inr: "requiredString raw field = Inr s \<Longrightarrow> s \<noteq> []"
  using stringValue_Inr by (auto simp: requiredString_def split: option.splits)

definition rowOk :: "providerTheaterRow \<Rightarrow> bool" where
  "rowOk r \<longleftrightarrow> ptSiteNo r \<noteq> [] \<and> ptSiteName r \<noteq> [] \<and> ptRegion r \<noteq> []"

lemma decodeTheaterRegions_names:
  assumes "decodeTheaterRegions payload = Inr regions" "regions code = Some name" shows "name \<noteq> []"
proof -
  let ?I = "\<lambda>m :: string \<rightharpoonup> string. \<forall>c. m c \<noteq> Some []"
  from assms(1) obtain raws where f: "foldR regionTurn Map.empty (enumerate 0 raws) = Inr regions"
    by (auto simp: decodeTheaterRegions_def split: option.splits prod.splits)
  have "?I regions"
  proof (rule foldR_invariant[OF f])
    fix m x m' assume "?I m" "regionTurn m x = Inr m'"
    then show "?I m'" using requiredString_Inr
      by (cases x) (auto simp: regionTurn_def result_simps split: if_splits)
  qed simp
  then show ?thesis using assms(2) by auto
qed

lemma siteRow_ok:
  assumes "siteRow regions x = Inr r" "\<And>c n. regions c = Some n \<Longrightarrow> n \<noteq> []" shows "rowOk r"
  using assms requiredString_Inr
  by (cases x) (auto simp: siteRow_def Let_def rowOk_def result_simps split: option.splits)

lemma parseTheaterCatalogResponse_ok:
  assumes "parseTheaterCatalogResponse payload = Inr rows" "r \<in> set rows" shows "rowOk r"
proof -
  from assms(1) obtain td :: theaterData and regions where r: "decodeTheaterRegions (tdRegions td) = Inr regions"
    and s: "decodeTheaterSites (tdSites td) regions = Inr rows"
    by (auto simp: parseTheaterCatalogResponse_def result_simps split: if_splits option.splits prod.splits intro: that)
  from s obtain raws where "mapR (siteRow regions) (enumerate 0 raws) = Inr rows"
    by (auto simp: decodeTheaterSites_def split: option.splits prod.splits)
  from mapR_Inr_mem[OF this assms(2)] show ?thesis
    using siteRow_ok decodeTheaterRegions_names[OF r] by blast
qed

lemma collectTheaterRows_ok:
  "collectTheaterRows handler cs seen = Inr rows \<Longrightarrow>
    (\<forall>r \<in> set rows. rowOk r \<and> ptSiteNo r \<notin> set seen) \<and> distinct (map ptSiteNo rows)"
proof (induction cs arbitrary: seen rows)
  case (Cons c cs)
  from Cons.prems obtain parsed rest where p: "parseTheaterCatalogResponse (cpBody c) = Inr parsed"
    and rest: "collectTheaterRows handler cs (map ptSiteNo (keepFirstFrom ptSiteNo seen parsed) @ seen) = Inr rest"
    and rows: "rows = keepFirstFrom ptSiteNo seen parsed @ rest"
    by (auto simp: result_simps Let_def split: option.splits)
  let ?kept = "keepFirstFrom ptSiteNo seen parsed"
  note ih = Cons.IH[OF rest]
  have kept: "\<forall>r \<in> set ?kept. rowOk r"
    using parseTheaterCatalogResponse_ok[OF p] keepFirstFrom_subset[of ptSiteNo seen parsed] by blast
  have new: "set (map ptSiteNo ?kept) \<inter> set seen = {}" unfolding keepFirstFrom_keys by blast
  have "\<forall>k \<in> set (map ptSiteNo rest). k \<notin> set (map ptSiteNo ?kept)" using ih by simp
  then have "set (map ptSiteNo ?kept) \<inter> set (map ptSiteNo rest) = {}" by blast
  then show ?case using ih kept new keepFirstFrom_distinct[of ptSiteNo seen parsed] by (auto simp: rows)
qed simp

lemma captureTheaterRows_ok:
  "captureTheaterRows handler buffer = (Inr rows, buffer') \<Longrightarrow> (\<forall>r \<in> set rows. rowOk r) \<and> distinct (map ptSiteNo rows)"
  using collectTheaterRows_ok[of handler _ "[]" rows]
  by (auto simp: captureTheaterRows_def takeProviderResponses_def split: if_splits)

lemma retryTheaterRows_ok:
  "retryTheaterRows handler page buffer = (Inr rows, buffer') \<Longrightarrow> \<exists>b b'. captureTheaterRows handler b = (Inr rows, b')"
  by (auto simp: retryTheaterRows_def Let_def split: prod.splits sum.splits bool.splits)

lemma captureTheaters_rows:
  assumes "captureTheaters handler page buffer = (Inr ts, buffer')"
  shows "\<exists>rows b b'. captureTheaterRows handler b = (Inr rows, b') \<and> theatersOf rows = Inr ts"
proof -
  have "\<exists>rows b b' p b2. theatersOf rows = Inr ts
      \<and> (captureTheaterRows handler b = (Inr rows, b') \<or> retryTheaterRows handler p b2 = (Inr rows, b'))"
    using assms by (force simp: captureTheaters_def Let_def result_simps split: option.splits prod.splits sum.splits if_splits)
  then show ?thesis using retryTheaterRows_ok by blast
qed

definition theaterLeq :: "CatalogTheater \<Rightarrow> CatalogTheater \<Rightarrow> bool" where
  "theaterLeq a b \<longleftrightarrow> cthRegion a < cthRegion b \<or> cthRegion a = cthRegion b \<and> cthName a \<le> cthName b"

lemma sorted_two_keys:
  assumes "sorted (map f xs)" "\<And>k. sorted_wrt Q (filter (\<lambda>x. f x = k) xs)"
  shows "sorted_wrt (\<lambda>a b. f a < (f b :: 'b :: linorder) \<or> f a = f b \<and> Q a b) xs"
  using assms
proof (induction xs)
  case (Cons x xs)
  have "sorted_wrt Q (filter (\<lambda>y. f y = k) xs)" for k using Cons.prems(2)[of k] by (simp split: if_splits)
  moreover have "f x < f y \<or> f x = f y \<and> Q x y" if "y \<in> set xs" for y
    using that Cons.prems(1) Cons.prems(2)[of "f x"] by (auto simp: less_le)
  ultimately show ?case using Cons.IH Cons.prems(1) by simp
qed simp

lemma sortTheaters_sorted: "sorted_wrt theaterLeq (sortTheaters ts)"
proof -
  have "sorted_wrt (\<lambda>a b. cthName a \<le> cthName b) (filter (\<lambda>t. cthRegion t = k) (sort_key cthName ts))" for k
    using sorted_sort_key[of cthName ts] by (simp add: sorted_wrt_filter sorted_map)
  then have "sorted_wrt (\<lambda>a b. cthRegion a < cthRegion b \<or> cthRegion a = cthRegion b \<and> cthName a \<le> cthName b)
      (sort_key cthRegion (sort_key cthName ts))"
    by (intro sorted_two_keys) (simp_all add: sort_key_stable)
  then show ?thesis by (simp add: sortTheaters_def theaterLeq_def[abs_def])
qed

text \<open>
  A theater catalog that is accepted is usable as it is: it is not empty, every theater has a
  site number, a name and the name of its region, no site number occurs twice even when several
  responses were captured, and the theaters are in the order of their regions and names.
\<close>

theorem captureTheaters_catalog:
  assumes "captureTheaters handler page buffer = (Inr ts, buffer')"
  shows "ts \<noteq> [] \<and> distinct (map cthSourceKey ts) \<and> sorted_wrt theaterLeq ts
    \<and> (\<forall>t \<in> set ts. cthSourceKey t \<noteq> [] \<and> cthName t \<noteq> [] \<and> cthRegion t \<noteq> [])"
proof -
  obtain rows b b' where r: "captureTheaterRows handler b = (Inr rows, b')" and t: "theatersOf rows = Inr ts"
    using captureTheaters_rows[OF assms] by blast
  let ?us = "map (\<lambda>r. \<lparr>cthSourceKey = ptSiteNo r, cthRegion = ptRegion r, cthName = ptSiteName r\<rparr>) rows"
  have ts: "ts = sortTheaters ?us" "rows \<noteq> []" using t by (auto simp: theatersOf_def Let_def split: if_splits)
  have m: "mset ts = mset ?us" by (simp add: ts(1) sortTheaters_def)
  have "mset (map cthSourceKey ts) = mset (map ptSiteNo rows)" using arg_cong[OF m, of "image_mset cthSourceKey"] by (simp add: comp_def image_mset.compositionality)
  then have "distinct (map cthSourceKey ts)" using captureTheaterRows_ok[OF r] by (metis mset_eq_imp_distinct_iff)
  moreover have "set ts = set ?us" using m by (rule mset_eq_setD)
  ultimately show ?thesis using captureTheaterRows_ok[OF r] ts(2) sortTheaters_sorted[of ?us]
    by (auto simp: ts(1) rowOk_def)
qed

definition sampleTheaterData :: json where
  "sampleTheaterData = JObject
     [(''regionInfo'', JArray [JObject [(''comCdval'', JString ''01''), (''comCdvalNm'', JString ''Seoul'')]]),
      (''siteInfo'', JArray [JObject [(''siteNo'', JString ''P013''), (''siteNm'', JString ''Yongsan''), (''regnGrpCd'', JString ''01'')],
         JObject [(''siteNo'', JString ''0056''), (''siteNm'', JString ''Gangnam''), (''regnGrpCd'', JString ''01'')]])]"

definition sampleTheaterBody :: jsonBody where
  "sampleTheaterBody = \<lparr>bSize = 9, bFirst = Some (JObject [(''statusCode'', JNumber ''0''), (''data'', sampleTheaterData)], 9), bRest = None\<rparr>"

definition theaterReply :: browserResponse where
  "theaterReply = \<lparr>brURL = ''https://cgv.co.kr'' @ theaterCatalogResponsePath, brStatus = 200, brBody = Inr sampleTheaterBody\<rparr>"

definition sampleTheaterPage :: theaterPage where
  "sampleTheaterPage =
    \<lparr>tpCtxErr = None, tpNavigate = (Inr (), []), tpWait = (Inr (), []), tpClick = \<lambda>_. (Inr True, []), tpWaitEditor = (Inr (), [theaterReply])\<rparr>"

definition sampleRegions :: "json option" where "sampleRegions = tdRegions (fst (decodeTheaterData sampleTheaterData \<lparr>tdRegions = None, tdSites = None\<rparr>))"
definition sampleSites :: "json option" where "sampleSites = tdSites (fst (decodeTheaterData sampleTheaterData \<lparr>tdRegions = None, tdSites = None\<rparr>))"

lemma sample_parts:
  "Unmarshal decodeEnvelope sampleTheaterBody zeroEnvelope
    = (\<lparr>evStatusCode = Some (JNumber ''0''), evStatusMessage = [], evData = Some sampleTheaterData\<rparr>, None)"
  "snd (decodeTheaterData sampleTheaterData \<lparr>tdRegions = None, tdSites = None\<rparr>) = None"
  "rawPresent (Some sampleTheaterData) = Some sampleTheaterData"
  by code_simp+

lemma sample_status: "requiredInteger (Some (JNumber ''0'')) ''statusCode'' = Inr 0"
proof -
  have "case requiredInteger (Some (JNumber ''0'')) ''statusCode'' of Inr i \<Rightarrow> i = 0 | Inl _ \<Rightarrow> False" by code_simp
  then show ?thesis by (auto split: sum.splits)
qed

lemma sample_regions: "case decodeTheaterRegions sampleRegions of
    Inr rs \<Rightarrow> (case decodeTheaterSites sampleSites rs of Inr rows \<Rightarrow> map ptSiteName rows = [''Yongsan'', ''Gangnam''] | Inl _ \<Rightarrow> False) | Inl _ \<Rightarrow> False"
  by code_simp

lemma theaterReply_path: "providerResponsePath (brURL theaterReply) = Some theaterCatalogResponsePath"
  by code_simp

definition capturedTheaters :: capturedProviderResponse where
  "capturedTheaters = \<lparr>cpPath = theaterCatalogResponsePath, cpRequestURL = brURL theaterReply, cpStatus = 200,
     cpBody = sampleTheaterBody, cpErr = None\<rparr>"

lemma theaterReply_captured: "captureProviderResponse theaterReply [] = [capturedTheaters]"
  by (simp add: captureProviderResponse_def theaterReply_path maxCapturedProviderResponses_def capturedOf_def capturedTheaters_def Let_def)
    (simp add: theaterReply_def sampleTheaterBody_def maxScheduleResponseBytes_def)

lemma sample_parse: "\<exists>rows. parseTheaterCatalogResponse sampleTheaterBody = Inr rows \<and> map ptSiteName rows = [''Yongsan'', ''Gangnam'']"
proof -
  have size: "\<not> (bSize sampleTheaterBody = 0 \<or> maxScheduleResponseBytes < bSize sampleTheaterBody)"
    by (simp add: sampleTheaterBody_def maxScheduleResponseBytes_def)
  obtain td where td: "decodeTheaterData sampleTheaterData \<lparr>tdRegions = None, tdSites = None\<rparr> = (td, None)"
    using sample_parts(2) by (metis prod.collapse)
  then have "sampleRegions = tdRegions td" "sampleSites = tdSites td" by (simp_all add: sampleRegions_def sampleSites_def)
  then show ?thesis using sample_regions td sample_status sample_parts(3) size
    by (auto simp: parseTheaterCatalogResponse_def sample_parts(1) split: sum.splits)
qed

theorem captureTheaters_catalog_witness:
  "\<exists>ts buffer. captureTheaters None sampleTheaterPage [] = (Inr ts, buffer)
     \<and> ts \<noteq> [] \<and> distinct (map cthSourceKey ts) \<and> sorted_wrt theaterLeq ts"
proof -
  obtain rows where rows: "parseTheaterCatalogResponse sampleTheaterBody = Inr rows" "map ptSiteName rows = [''Yongsan'', ''Gangnam'']"
    using sample_parse by (elim exE conjE) (rule that)
  then have "keepFirstFrom ptSiteNo [] rows \<noteq> []" by (cases rows) simp_all
  then obtain ts where ts: "theatersOf (keepFirstFrom ptSiteNo [] rows) = Inr ts" by (simp add: theatersOf_def Let_def)
  have "captureTheaterRows None [] = (Inl (Sentinel ErrTheaterResponseMissing), [])"
    "captureTheaterRows None [capturedTheaters] = (Inr (keepFirstFrom ptSiteNo [] rows), [])"
    by (simp_all add: captureTheaterRows_def takeProviderResponses_def capturedTheaters_def rows(1) Let_def)
  then have c: "captureTheaters None sampleTheaterPage [] = (Inr ts, [])"
    by (simp add: captureTheaters_def retryTheaterRows_def sampleTheaterPage_def theaterReply_captured ts)
  from captureTheaters_catalog[OF c] c show ?thesis by (intro exI[of _ ts] exI[of _ "[]"]) blast
qed

section \<open>What the posters are\<close>

definition posterOk :: "CatalogPoster \<Rightarrow> bool" where
  "posterOk p \<longleftrightarrow> numericIdentifier (cpoMovieSourceKey p) \<and> (\<exists>m. supportedPosterMediaType m \<and> cpoMediaType p = ToLower m) \<and> cpoData p \<noteq> []
    \<and> length (cpoData p) \<le> maximumCatalogPosterBytes \<and> cpoContentHash p = hexOf (Sum256 (cpoData p))"

definition posterInv :: "posterState \<Rightarrow> bool" where
  "posterInv st \<longleftrightarrow> distinct (map fst (pmPosters st))
    \<and> (\<forall>(k, p) \<in> set (pmPosters st). k = providerCatalogID ''movie'' (cpoMovieSourceKey p) \<and> k \<notin> set (pmCached st) \<and> posterOk p)"

lemma catalogPosterMovieSource_numeric: "catalogPosterMovieSource u = Some m \<Longrightarrow> numericIdentifier m"
  by (auto simp: catalogPosterMovieSource_def Let_def split: sum.splits if_splits)

lemma readCatalogPosterResponse_ok:
  "readCatalogPosterResponse mime r m = Inr p \<Longrightarrow> numericIdentifier m \<Longrightarrow> posterOk p \<and> cpoMovieSourceKey p = m"
  by (auto simp: readCatalogPosterResponse_def posterOk_def split: sum.splits option.splits if_splits)

lemma storeCatalogPoster_inv:
  assumes "posterInv st" "posterOk p"
  shows "posterInv (snd (storeCatalogPoster (providerCatalogID ''movie'' (cpoMovieSourceKey p)) p st))"
  using assms by (auto simp: storeCatalogPoster_def posterInv_def map_of_eq_None_iff)

lemma captureCatalogPosterResponse_inv:
  assumes "posterInv st" shows "posterInv (captureCatalogPosterResponse mime r st)"
proof (cases "catalogPosterResponseMovieSource r")
  case (Some m)
  then have m: "numericIdentifier m"
    using catalogPosterMovieSource_numeric by (auto simp: catalogPosterResponseMovieSource_def split: option.splits if_splits)
  show ?thesis
  proof (cases "readCatalogPosterResponse mime r m")
    case (Inr p)
    from readCatalogPosterResponse_ok[OF this m] show ?thesis
      using assms storeCatalogPoster_inv[OF assms, of p] Some Inr by (simp add: captureCatalogPosterResponse_def Let_def)
  qed (use assms Some in \<open>simp add: captureCatalogPosterResponse_def Let_def\<close>)
qed (use assms in \<open>simp add: captureCatalogPosterResponse_def\<close>)

lemma captureCatalogPosterResponse_cached [simp]: "pmCached (captureCatalogPosterResponse mime r st) = pmCached st"
  by (simp add: captureCatalogPosterResponse_def storeCatalogPoster_def Let_def split: option.splits sum.splits)

lemma fold_poster_inv:
  "posterInv st \<Longrightarrow> posterInv (fold (captureCatalogPosterResponse mime) rs st)
    \<and> pmCached (fold (captureCatalogPosterResponse mime) rs st) = pmCached st"
  by (induction rs arbitrary: st) (simp_all add: captureCatalogPosterResponse_inv)

lemma pollPosters_inv:
  "posterInv st \<Longrightarrow> pollPosters mime movies d ps st = (r, st') \<Longrightarrow> posterInv st' \<and> pmCached st' = pmCached st"
proof (induction ps arbitrary: st)
  case (Cons p ps)
  let ?st = "fold (captureCatalogPosterResponse mime) (ppArrived p) st"
  have f: "posterInv ?st" "pmCached ?st = pmCached st" using fold_poster_inv[OF Cons.prems(1)] by blast+
  show ?case using Cons.prems Cons.IH[OF f(1)] f by (auto simp: Let_def split: if_splits sum.splits)
qed simp

lemma begin_inv: "posterInv (beginCatalogPosterCapture ids st)"
  by (simp add: beginCatalogPosterCapture_def posterInv_def)

lemma openMoviePage_inv:
  assumes "openMoviePage mime page st = (r, st')" "posterInv st" shows "posterInv st' \<and> pmCached st' = pmCached st"
proof -
  have s: "posterInv (fold (captureCatalogPosterResponse mime) rs s) \<and> pmCached (fold (captureCatalogPosterResponse mime) rs s) = pmCached st"
    if "posterInv s" "pmCached s = pmCached st" for rs s using fold_poster_inv[OF that(1)] that(2) by auto
  show ?thesis using assms(1) s assms(2) unfolding openMoviePage_def Let_def
    by (simp split: sum.splits) (metis prod.inject)+
qed

lemma sort_key_strict:
  assumes "distinct (map f xs)" shows "sorted_wrt (\<lambda>a b. f a < (f b :: 'b :: linorder)) (sort_key f xs)"
proof -
  have "distinct (map f (sort_key f xs))" using assms by (metis mset_eq_imp_distinct_iff mset_map mset_sort)
  then have "sorted_wrt (<) (map f (sort_key f xs))" by (simp add: strict_sorted_iff)
  then show ?thesis by (simp add: sorted_wrt_map)
qed

text \<open>
  C34. The posters reported are evidence: each is a non-empty image of a supported kind and at most
  32 MiB, with the hash of its bytes, of a numeric movie the caller did not have yet; there is at most
  one for each movie, in the order of their keys. The movies are some, with distinct keys, and the
  capture is off and holds nothing afterwards.
\<close>

theorem captureBookingMovies_posters:
  assumes "captureBookingMovies mime page cached st = (Inr (movies, posters), st')"
  shows "(\<forall>p \<in> set posters. posterOk p \<and> providerCatalogID ''movie'' (cpoMovieSourceKey p) \<notin> set (map TrimSpace cached))
    \<and> sorted_wrt (\<lambda>a b. cpoMovieSourceKey a < cpoMovieSourceKey b) posters
    \<and> movies \<noteq> [] \<and> distinct (map cmSourceKey movies) \<and> st' = idlePosters"
proof -
  obtain r st1 where o: "openMoviePage mime page (beginCatalogPosterCapture cached st) = (r, st1)" by fastforce
  have "\<exists>ms. r = Inr ms" using assms o by (cases r) (simp_all add: captureBookingMovies_def)
  then obtain ms where ms: "r = Inr ms" by blast
  obtain v st3 where v: "renderBookingPosterImages mime page ms st1 = (v, st3)" by fastforce
  have r: "r = Inr movies"
    using assms o v by (auto simp: captureBookingMovies_def ms result_simps split: if_splits option.splits)
  obtain u st2 where u: "renderBookingPosterImages mime page movies st1 = (u, st2)" by fastforce
  have out: "posters = collectedCatalogPosters st2" "st' = idlePosters"
    using assms o u by (auto simp: captureBookingMovies_def r result_simps clearCatalogPosterCapture_def split: if_splits option.splits)
  have "posterInv st1 \<and> pmCached st1 = pmCached (beginCatalogPosterCapture cached st)"
    using openMoviePage_inv[OF o begin_inv] .
  then have inv: "posterInv st2" "pmCached st2 = pmCached (beginCatalogPosterCapture cached st)"
    using pollPosters_inv u by (fastforce simp: renderBookingPosterImages_def split: sum.splits)+
  have ok: "posterOk p \<and> providerCatalogID ''movie'' (cpoMovieSourceKey p) \<notin> set (map TrimSpace cached)" if p: "p \<in> set posters" for p
  proof -
    from p obtain k where "(k, p) \<in> set (pmPosters st2)" by (auto simp: out(1) collectedCatalogPosters_def)
    then show ?thesis using inv
      by (auto simp: posterInv_def beginCatalogPosterCapture_def providerCatalogID_def CatalogID_def Let_def)
  qed
  have keys: "map fst (pmPosters st2) = map (providerCatalogID ''movie'') (map (cpoMovieSourceKey \<circ> snd) (pmPosters st2))"
    using inv(1) by (auto simp: posterInv_def)
  have "distinct (map fst (pmPosters st2))" using inv(1) by (simp add: posterInv_def)
  then have "distinct (map (cpoMovieSourceKey \<circ> snd) (pmPosters st2))" unfolding keys by (simp only: distinct_map)
  then have s: "sorted_wrt (\<lambda>a b. cpoMovieSourceKey a < cpoMovieSourceKey b) posters"
    unfolding out(1) collectedCatalogPosters_def by (intro sort_key_strict) simp
  have "bookingMovies (mpCards page) = Inr movies"
    using o r by (auto simp: openMoviePage_def Let_def split: sum.splits)
  then have m: "movies \<noteq> [] \<and> distinct (map cmSourceKey movies)"
    using keepFirst_distinct by (auto simp: bookingMovies_def result_simps Let_def split: if_splits)
  show ?thesis using ok s m out(2) by blast
qed

definition samplePosterURL :: string where
  "samplePosterURL = ''https://cdn.cgv.co.kr/cgvpomsfilm/Movie/Thumbnail/Poster/000/77/77_1.PNG''"

definition samplePoster :: posterResponse where
  "samplePoster = \<lparr>prResourceType = Some ''image'', prURL = samplePosterURL, prStatus = 200,
     prContentType = Inr ''image/png'', prBody = Inr ''png''\<rparr>"

definition sampleCard :: catalogPosterElement where
  "sampleCard = \<lparr>peAlt = ''Film '' @ posterSuffix, peSrc = samplePosterURL\<rparr>"

definition sampleMoviePage :: moviePage where
  "sampleMoviePage = \<lparr>mpCtxErr = None, mpNavigate = (Inr (), [samplePoster]), mpAttached = (Inr (), []), mpWait = (Inr (), []),
     mpCards = Inr [sampleCard], mpEager = Inr (), mpNow = 0, mpPolls = [],
     mpURL = ''https://cgv.co.kr/cnm/movieBook/movie''\<rparr>"

lemma samplePoster_values:
  "catalogPosterResponseMovieSource samplePoster = Some ''77''" "supportedPosterMediaType ''image/png''"
  "movieOf sampleCard = Some \<lparr>cmSourceKey = ''77'', cmTitle = ''Film''\<rparr>"
  "isCGVMovieBookingPage ''https://cgv.co.kr/cnm/movieBook/movie''"
  by code_simp+

theorem captureBookingMovies_posters_witness:
  "\<exists>movies poster. captureBookingMovies (\<lambda>_. Some ''image/png'') sampleMoviePage [] idlePosters = (Inr (movies, [poster]), idlePosters)
     \<and> posterOk poster"
proof -
  let ?mime = "\<lambda>_ :: string. Some ''image/png''"
  obtain poster where read: "readCatalogPosterResponse ?mime samplePoster ''77'' = Inr poster"
    by (simp add: readCatalogPosterResponse_def samplePoster_def samplePoster_values(2) maximumCatalogPosterBytes_def)
  let ?st = "\<lparr>pmMode = True, pmCached = [], pmPosters = [(providerCatalogID ''movie'' ''77'', poster)]\<rparr>"
  have st: "captureCatalogPosterResponse ?mime samplePoster (beginCatalogPosterCapture [] idlePosters) = ?st"
    by (simp add: captureCatalogPosterResponse_def samplePoster_values(1) catalogPosterAlreadyAvailable_def beginCatalogPosterCapture_def
        read storeCatalogPoster_def Let_def)
  have "bookingMovies (mpCards sampleMoviePage) = Inr [\<lparr>cmSourceKey = ''77'', cmTitle = ''Film''\<rparr>]"
    by (simp add: bookingMovies_def sampleMoviePage_def List.map_filter_def samplePoster_values(3) keepFirst_def)
  then have "openMoviePage ?mime sampleMoviePage (beginCatalogPosterCapture [] idlePosters)
      = (Inr [\<lparr>cmSourceKey = ''77'', cmTitle = ''Film''\<rparr>], ?st)"
    using st by (simp add: openMoviePage_def sampleMoviePage_def)
  then have c: "captureBookingMovies ?mime sampleMoviePage [] idlePosters
      = (Inr ([\<lparr>cmSourceKey = ''77'', cmTitle = ''Film''\<rparr>], [poster]), idlePosters)"
    by (simp add: captureBookingMovies_def renderBookingPosterImages_def sampleMoviePage_def samplePoster_values(4)
        collectedCatalogPosters_def clearCatalogPosterCapture_def)
  from captureBookingMovies_posters[OF c] have "posterOk poster" by simp
  then show ?thesis using c by (intro exI[of _ "[\<lparr>cmSourceKey = ''77'', cmTitle = ''Film''\<rparr>]"] exI[of _ poster] conjI)
qed

end
