(* ===== verification/ProbeExecutor.thy ===== *)
theory ProbeExecutor
  imports SeatCapture CgvCatalog Egress
begin

text \<open>
  The executor of assignments and the scanner the client embeds (\<open>probe/cgv_executor.go\<close>,
  \<open>probe/local_scanner.go\<close>): checking a task, opening and closing the browser around a capture, and
  converting what was captured into the messages of the contract. What the browser answers in a call
  is an argument; the calls made on it are a list of events. The time zone database and the clock
  are arguments, too.
\<close>


section \<open>Assignments\<close>

record ScheduleTask =
  tkTheater :: "Theater option"
  tkLocale :: string
  tkTimeZone :: string

record CatalogTask =
  tcProviderId :: string
  tcLocale :: string
  tcTimeZone :: string
  tcCachedPosterMovieIds :: "string list"

text \<open>The egress policy, when there is one: whether it is the managed scan.\<close>

record AssignmentTask =
  atEgress :: "bool option"
  atSchedule :: "ScheduleTask option"
  atCatalog :: "CatalogTask option"
  atSeatMap :: "SeatMapTask option"

text \<open>\<open>cgvbrowser.Task\<close>.\<close>

record browserTask =
  btPurpose :: Purpose
  btEgressPolicyID :: string
  btSessionKey :: string
  btHeadless :: bool
  btStartMinimized :: bool
  btLocale :: string
  btTimeZone :: string

definition requireManagedScan :: "AssignmentTask option \<Rightarrow> unit result" where
  "requireManagedScan task =
    guardR (Option.bind task atEgress = Some True)
      (wrapS ErrLocalExecution ''assignment requires the managed scan egress policy'')"

definition validateScheduleTask :: "AssignmentTask option \<Rightarrow> unit result" where
  "validateScheduleTask task =
    (case Option.bind task atSchedule of
       None \<Rightarrow> Inl (wrapS ErrLocalExecution ''unsupported Probe task kind'')
     | Some schedule \<Rightarrow>
         bindR (requireManagedScan task) (\<lambda>_.
         let theater = tkTheater schedule; (siteNo, validIdentity) = theaterValues theater in
         case theater of
           None \<Rightarrow> Inl (wrapS ErrIdentityMismatch ''CGV schedule task theater identity is incomplete'')
         | Some t \<Rightarrow>
             if thProviderId t \<noteq> ProviderCGV \<or> \<not> validIdentity \<or> TrimSpace (thRegion t) = [] \<or> TrimSpace (thName t) = [] then
               Inl (wrapS ErrIdentityMismatch ''CGV schedule task theater identity is incomplete'')
             else if thId t \<noteq> CatalogID ProviderCGV ''theater'' siteNo then
               Inl (wrapS ErrIdentityMismatch ''CGV schedule task theater ID is not canonical'')
             else guardR (TrimSpace (tkTimeZone schedule) \<noteq> [])
               (wrapS ErrIdentityMismatch ''CGV schedule task time zone is incomplete'')))"

definition scheduleTheater :: "Theater option \<Rightarrow> ScheduleTheater" where
  "scheduleTheater theater =
    (case theater of
       None \<Rightarrow> \<lparr>stID = [], stProviderID = [], stSourceKey = [], stRegion = [], stName = []\<rparr>
     | Some t \<Rightarrow> \<lparr>stID = thId t, stProviderID = thProviderId t, stSourceKey = siteNoForTheater theater,
                  stRegion = thRegion t, stName = thName t\<rparr>)"

definition scanBrowserTask :: "AssignmentTask option \<Rightarrow> browserTask" where
  "scanBrowserTask task =
    (let (locale, timeZone) =
       (case Option.bind task atSchedule of
          Some s \<Rightarrow> (tkLocale s, tkTimeZone s)
        | None \<Rightarrow>
            (case Option.bind task atCatalog of
               Some c \<Rightarrow> (tcLocale c, tcTimeZone c)
             | None \<Rightarrow>
                 (case Option.bind task atSeatMap of
                    Some m \<Rightarrow> (skLocale m, skTimeZone m)
                  | None \<Rightarrow> ([], []))))
     in \<lparr>btPurpose = PurposeScan, btEgressPolicyID = PolicyScanDefault, btSessionKey = [], btHeadless = True,
         btStartMinimized = False, btLocale = locale, btTimeZone = timeZone\<rparr>)"

definition scheduleWeekdays :: "int list \<Rightarrow> int list result" where
  "scheduleWeekdays values =
    (case find (\<lambda>w. w < 0 \<or> 6 < w) values of
       Some w \<Rightarrow> Inl (wrapS ErrLocalExecution (''invalid schedule weekday '' @ Itoa w))
     | None \<Rightarrow> Inr (keepFirst id values))"


section \<open>Showtimes of the contract\<close>

text \<open>The executor's own check trims its argument, unlike the one of the provider package.\<close>

definition probeNumericIdentifier :: "string \<Rightarrow> bool" where
  "probeNumericIdentifier value \<longleftrightarrow> TrimSpace value \<noteq> [] \<and> list_all isDigit (TrimSpace value)"

definition canonicalShowtimeSourceParts :: "string \<Rightarrow> (string \<times> string \<times> string \<times> string) result" where
  "canonicalShowtimeSourceParts sourceKey =
    (case Split (CHR ''/'') sourceKey of
       [site, date, screen, sequence] \<Rightarrow>
         if \<not> probeNumericIdentifier site \<or> \<not> probeNumericIdentifier screen \<or> \<not> probeNumericIdentifier sequence then
           Inl (wrapS ErrIdentityMismatch ''convert showtime source tuple is not canonical'')
         else (case parseDateOnly date of
             None \<Rightarrow> Inl (wrapS ErrIdentityMismatch ''convert showtime source date is not canonical'')
           | Some d \<Rightarrow>
               if formatDateOnly d \<noteq> date then Inl (wrapS ErrIdentityMismatch ''convert showtime source date is not canonical'')
               else Inr (site, date, screen, sequence))
     | _ \<Rightarrow> Inl (wrapS ErrIdentityMismatch ''convert showtime source tuple is not canonical''))"

definition validateAuditoriumSourceKey :: "string \<Rightarrow> string \<Rightarrow> string \<Rightarrow> unit result" where
  "validateAuditoriumSourceKey sourceKey siteNo screenNo =
    guardR (Split (CHR ''/'') sourceKey = [siteNo, screenNo] \<and> probeNumericIdentifier siteNo \<and> probeNumericIdentifier screenNo)
      (wrapS ErrIdentityMismatch ''convert auditorium source tuple is not canonical'')"

definition canonicalIdentity :: "string \<times> string \<times> string \<Rightarrow> unit result" where
  "canonicalIdentity = (\<lambda>(kind, ident, sourceKey).
    guardR (TrimSpace sourceKey \<noteq> [] \<and> ident = CatalogID ProviderCGV kind sourceKey)
      (wrapS ErrIdentityMismatch (''convert showtime '' @ kind @ '' identity is not canonical'')))"

definition canonicalShowtimeContract ::
  "ScheduleShowtime \<Rightarrow> ((string \<times> string \<times> string \<times> string) \<times> CgvShowtimeIdentity option) result" where
  "canonicalShowtimeContract showtime =
    (if shProviderID showtime \<noteq> ProviderCGV \<or> TrimSpace (shTheaterID showtime) = [] then
       Inl (wrapS ErrIdentityMismatch ''convert showtime provider and theater identities are required'')
     else
       bindR (canonicalShowtimeSourceParts (shSourceKey showtime)) (\<lambda>(site, date, screen, sequence).
       bindR (validateAuditoriumSourceKey (shAuditoriumSourceKey showtime) site screen) (\<lambda>_.
       bindR (mapR canonicalIdentity
         [(''showtime'', shID showtime, shSourceKey showtime), (''movie'', shMovieID showtime, shMovieSourceKey showtime),
          (''auditorium'', shAuditoriumID showtime, shAuditoriumSourceKey showtime)]) (\<lambda>_.
       if shTheaterID showtime \<noteq> CatalogID ProviderCGV ''theater'' site then
         Inl (wrapS ErrIdentityMismatch ''convert theater identity is not canonical'')
       else Inr ((site, date, screen, sequence),
         case NewShowtimeIdentity site date screen sequence of Inr i \<Rightarrow> Some i | Inl _ \<Rightarrow> None)))))"

definition validateCanonicalShowtime :: "ScheduleShowtime \<Rightarrow> unit result" where
  "validateCanonicalShowtime showtime = bindR (canonicalShowtimeContract showtime) (\<lambda>_. Inr ())"

definition int32Value :: "int \<Rightarrow> int result" where
  "int32Value value =
    (if value < minInt32 \<or> maxInt32 < value
     then Inl (errNew (''integer '' @ Itoa value @ '' is outside int32 range'')) else Inr value)"

definition int32OrZero :: "int \<Rightarrow> int" where
  "int32OrZero value = (case int32Value value of Inr v \<Rightarrow> v | Inl _ \<Rightarrow> 0)"

definition localDate :: "string \<Rightarrow> LocalDate result" where
  "localDate value =
    (case parseDateOnly (TrimSpace value) of
       None \<Rightarrow> Inl (wrapE (''invalid local date '' @ quoteGo value)
                  (errNew (''parsing time '' @ quoteGo (TrimSpace value) @ '' as '' @ quoteGo ''2006-01-02'')))
     | Some d \<Rightarrow> Inr \<lparr>ldYear = int32OrZero (yr d), ldMonth = int32OrZero (mo d), ldDay = int32OrZero (dy d)\<rparr>)"

definition captureErrorCode :: "string \<Rightarrow> string" where
  "captureErrorCode value =
    (if TrimSpace value = [] then ''capture_incomplete''
     else if Contains value (sentinelText ErrUIContractChanged) then ''ui_contract_changed''
     else if Contains value (sentinelText DeadlineExceeded) then ''capture_timeout''
     else ''capture_failed'')"

text \<open>\<open>timestamppb.New\<close>: valid from the year 1 to the year 9999.\<close>

definition timestampNew :: "instant \<Rightarrow> Timestamp" where
  "timestampNew t = \<lparr>tsValid = (zeroTime \<le> t \<and> t < 253402300800 * second), tsTime = t\<rparr>"

record Capture =
  obTargetDate :: LocalDate
  obComplete :: bool
  obErrorCode :: string
  obObservedAt :: Timestamp
  obShowtimes :: "Showtime list"

definition contractShowtime ::
  "ScheduleShowtime \<Rightarrow> string \<times> string \<times> string \<times> string \<Rightarrow> CgvShowtimeIdentity option \<Rightarrow> instant \<times> instant \<Rightarrow> int \<Rightarrow> int \<Rightarrow> Showtime" where
  "contractShowtime showtime = (\<lambda>(site, _, screen, _) identity (startsAt, endsAt) capacity availableSeats.
    \<lparr>smId = shID showtime, smProviderId = shProviderID showtime, smTheaterId = shTheaterID showtime,
     smMovie = Some \<lparr>moId = shMovieID showtime, moProviderId = shProviderID showtime, moTitle = shMovieTitle showtime,
                     moIdentity = Some (NewMovieIdentity (shMovieSourceKey showtime))\<rparr>,
     smAuditorium = Some \<lparr>auId = shAuditoriumID showtime, auTheaterId = shTheaterID showtime, auName = shAuditoriumName showtime,
                          auIdentity = Some (NewAuditoriumIdentity site screen), auScreenTypes = shScreenTypes showtime, auCapacity = capacity\<rparr>,
     smStartsAt = Some (timestampNew startsAt), smEndsAt = Some (timestampNew endsAt), smIdentity = identity,
     smAvailableSeats = availableSeats, smCapacity = capacity, smSoldOut = shSoldOut showtime\<rparr>)"

definition convertTurn :: "location \<Rightarrow> instant \<times> Showtime list \<Rightarrow> ScheduleShowtime \<Rightarrow> (instant \<times> Showtime list) result" where
  "convertTurn loc = (\<lambda>(observedAt, items) showtime.
    bindR (canonicalShowtimeContract showtime) (\<lambda>(parts, identity).
    bindR (mapErr (wrapE (''convert showtime '' @ quoteGo (shID showtime)))
             (ParseShowtimeRange (shDate showtime) (shStartsAt showtime) (shEndsAt showtime) (Some loc))) (\<lambda>range.
    let observed = (if observedAt < shObservedAt showtime then shObservedAt showtime else observedAt) in
    bindR (mapErr (wrapE (''convert showtime '' @ quoteGo (shID showtime) @ '' capacity'')) (int32Value (shCapacity showtime))) (\<lambda>capacity.
    bindR (mapErr (wrapE (''convert showtime '' @ quoteGo (shID showtime) @ '' available seats'')) (int32Value (shAvailableSeats showtime)))
      (\<lambda>availableSeats.
    Inr (observed, items @ [contractShowtime showtime parts identity range capacity availableSeats]))))))"

definition convertCapture :: "instant \<Rightarrow> location \<Rightarrow> ScheduleCapture \<Rightarrow> Capture result" where
  "convertCapture now loc value =
    bindR (localDate (scTargetDate value)) (\<lambda>targetDate.
    bindR (foldR (convertTurn loc) (now, []) (scShowtimes value)) (\<lambda>(observedAt, showtimes).
    Inr \<lparr>obTargetDate = targetDate, obComplete = scComplete value,
         obErrorCode = (if scComplete value then [] else captureErrorCode (scError value)),
         obObservedAt = timestampNew observedAt, obShowtimes = showtimes\<rparr>))"

section \<open>Captures\<close>

text \<open>
  A call on the browser is an event. The browser's answers in a round are functions of the call's
  arguments; the captures beyond the plain one are interfaces that a browser may lack.
\<close>

datatype event =
    Opened browserTask | OpenFailed browserTask | CloseBrowser
  | CallSchedules ScheduleTheater | CallWeekdays ScheduleTheater "int list" | CallShard ScheduleTheater "int list" int
  | CallCatalog "string list" | CallSeatMap "AssignmentTask option"

record browser =
  bwSchedules :: "ScheduleTheater \<Rightarrow> ScheduleCapture list result"
  bwWeekdays :: "(ScheduleTheater \<Rightarrow> int list \<Rightarrow> ScheduleCapture list result) option"
  bwShard :: "(ScheduleTheater \<Rightarrow> int list \<Rightarrow> int \<Rightarrow> ScheduleCapture list result) option"
  bwCatalog :: "(string list \<Rightarrow> CatalogCapture result) option"
  bwSeatMap :: "(AssignmentTask option \<Rightarrow> Snapshot result) option"

text \<open>
  The executor: whether its factory opens a browser, the clock at each conversion, the seat-map
  executor that may stand in for the browser, and the time zone database.
\<close>

record CGVExecutor =
  exOpen :: "(browserTask \<Rightarrow> unit result) option"
  exClock :: "nat \<Rightarrow> instant"
  exSeatMap :: "(AssignmentTask option \<Rightarrow> Snapshot result) option"
  exZones :: "string \<Rightarrow> location result"

definition convertAll :: "CGVExecutor \<Rightarrow> location \<Rightarrow> ScheduleCapture list \<Rightarrow> Capture list result" where
  "convertAll ex loc values = mapR (\<lambda>(i, v). convertCapture (exClock ex i) loc v) (enumerate 0 values)"

definition loadLocation :: "CGVExecutor \<Rightarrow> ScheduleTask \<Rightarrow> location result" where
  "loadLocation ex schedule = mapErr (wrapSE ErrLocalExecution ''load assignment time zone'') (exZones ex (tkTimeZone schedule))"

definition captureSchedulesInBrowser ::
  "CGVExecutor \<Rightarrow> AssignmentTask option \<Rightarrow> int list \<Rightarrow> browser \<Rightarrow> Capture list result \<times> event list" where
  "captureSchedulesInBrowser ex task weekdays b =
    (case (validateScheduleTask task, Option.bind task atSchedule) of
       (Inr _, Some schedule) \<Rightarrow>
         (case loadLocation ex schedule of
            Inl e \<Rightarrow> (Inl e, [])
          | Inr loc \<Rightarrow>
              (let theater = scheduleTheater (tkTheater schedule);
                   (values, events) =
                     (case bwWeekdays b of
                        Some byWeekdays \<Rightarrow>
                          if weekdays \<noteq> [] then (byWeekdays theater weekdays, [CallWeekdays theater weekdays])
                          else (bwSchedules b theater, [CallSchedules theater])
                      | None \<Rightarrow> (bwSchedules b theater, [CallSchedules theater]))
               in (bindR (mapErr (wrapE ''capture CGV schedules'') values) (convertAll ex loc), events)))
     | (Inl e, _) \<Rightarrow> (Inl e, [])
     | (Inr _, None) \<Rightarrow> (Inl (wrapS ErrLocalExecution ''unsupported Probe task kind''), []))"

definition captureScheduleWeekdayShardInBrowser ::
  "CGVExecutor \<Rightarrow> AssignmentTask option \<Rightarrow> int list \<Rightarrow> int \<Rightarrow> browser \<Rightarrow> Capture list result \<times> event list" where
  "captureScheduleWeekdayShardInBrowser ex task weekdays shard b =
    (case (validateScheduleTask task, Option.bind task atSchedule) of
       (Inr _, Some schedule) \<Rightarrow>
         (case bwShard b of
            None \<Rightarrow> captureSchedulesInBrowser ex task weekdays b
          | Some byShard \<Rightarrow>
              (case loadLocation ex schedule of
                 Inl e \<Rightarrow> (Inl e, [])
               | Inr loc \<Rightarrow>
                   (let theater = scheduleTheater (tkTheater schedule) in
                    (bindR (mapErr (wrapE ''capture CGV schedule shard'') (byShard theater weekdays shard)) (convertAll ex loc),
                     [CallShard theater weekdays shard]))))
     | (Inl e, _) \<Rightarrow> (Inl e, [])
     | (Inr _, None) \<Rightarrow> (Inl (wrapS ErrLocalExecution ''unsupported Probe task kind''), []))"

definition openFailed :: "goerr \<Rightarrow> goerr" where
  "openFailed e = wrapSE ErrBrowserStartFailed ''open Probe browser'' e"

text \<open>
  Opening, running and the deferred closing of the browser. A nil factory function, which no
  constructor makes, would panic here; it is an error of its own.
\<close>

definition withBrowser :: "CGVExecutor \<Rightarrow> AssignmentTask option \<Rightarrow> ('a result \<times> event list) \<Rightarrow> 'a result \<times> event list" where
  "withBrowser ex task run =
    (case exOpen ex of
       None \<Rightarrow> (Inl (errNew ''panic: nil browser factory''), [])
     | Some openBrowser \<Rightarrow>
         (case openBrowser (scanBrowserTask task) of
            Inl e \<Rightarrow> (Inl (openFailed e), [OpenFailed (scanBrowserTask task)])
          | Inr _ \<Rightarrow> (fst run, Opened (scanBrowserTask task) # snd run @ [CloseBrowser])))"

definition executorCaptureSchedules ::
  "CGVExecutor \<Rightarrow> AssignmentTask option \<Rightarrow> int list \<Rightarrow> browser \<Rightarrow> Capture list result \<times> event list" where
  "executorCaptureSchedules ex task weekdays b =
    (case validateScheduleTask task of
       Inl e \<Rightarrow> (Inl e, [])
     | Inr _ \<Rightarrow> withBrowser ex task (captureSchedulesInBrowser ex task weekdays b))"

definition executorCapture :: "CGVExecutor \<Rightarrow> AssignmentTask option \<Rightarrow> browser \<Rightarrow> Capture list result \<times> event list" where
  "executorCapture ex task b = executorCaptureSchedules ex task [] b"

definition executorCaptureWeekdays ::
  "CGVExecutor \<Rightarrow> AssignmentTask option \<Rightarrow> int list \<Rightarrow> browser \<Rightarrow> Capture list result \<times> event list" where
  "executorCaptureWeekdays ex task weekdayValues b =
    (case scheduleWeekdays weekdayValues of
       Inl e \<Rightarrow> (Inl e, [])
     | Inr weekdays \<Rightarrow> executorCaptureSchedules ex task weekdays b)"

definition executorCaptureSeatMap ::
  "CGVExecutor \<Rightarrow> AssignmentTask option \<Rightarrow> browser \<Rightarrow> Snapshot result \<times> event list" where
  "executorCaptureSeatMap ex task b =
    (if Option.bind task atSeatMap = None then (Inl (wrapS ErrLocalExecution ''unsupported Probe task kind''), [])
     else case bindR (requireManagedScan task) (\<lambda>_. validateSeatMapTask (Option.bind task atSeatMap)) of
         Inl e \<Rightarrow> (Inl e, [])
       | Inr _ \<Rightarrow>
           (case exSeatMap ex of
              Some run \<Rightarrow> (run task, [])
            | None \<Rightarrow>
                if exOpen ex = None then (Inl (wrapS ErrBrowserStartFailed ''probe browser factory is unavailable''), [])
                else withBrowser ex task
                  (case bwSeatMap b of
                     None \<Rightarrow> (Inl (wrapS ErrLocalExecution ''probe browser does not support seat-map capture''), [])
                   | Some capture \<Rightarrow> (capture task, [CallSeatMap task]))))"

record MoviePoster =
  mpoMovieId :: string
  mpoMediaType :: string
  mpoData :: string
  mpoContentHash :: string

record CatalogSnapshot =
  csProviderId :: string
  csProviderName :: string
  csTheaters :: "Theater list"
  csMovies :: "Movie list"
  csPosters :: "MoviePoster list"
  csObservedAt :: Timestamp

definition catalogTheaterItem :: "CatalogTheater \<Rightarrow> Theater" where
  "catalogTheaterItem t = \<lparr>thId = CatalogID ProviderCGV ''theater'' (cthSourceKey t), thProviderId = ProviderCGV,
     thRegion = cthRegion t, thName = cthName t, thIdentity = Some (NewTheaterIdentity (cthSourceKey t))\<rparr>"

definition catalogMovieItem :: "CatalogMovie \<Rightarrow> Movie" where
  "catalogMovieItem m = \<lparr>moId = CatalogID ProviderCGV ''movie'' (cmSourceKey m), moProviderId = ProviderCGV,
     moTitle = cmTitle m, moIdentity = Some (NewMovieIdentity (cmSourceKey m))\<rparr>"

definition catalogPosterItem :: "CatalogPoster \<Rightarrow> MoviePoster" where
  "catalogPosterItem p = \<lparr>mpoMovieId = CatalogID ProviderCGV ''movie'' (cpoMovieSourceKey p), mpoMediaType = cpoMediaType p,
     mpoData = cpoData p, mpoContentHash = cpoContentHash p\<rparr>"

definition catalogSnapshot :: "instant \<Rightarrow> CatalogCapture \<Rightarrow> CatalogSnapshot" where
  "catalogSnapshot now value = \<lparr>csProviderId = ProviderCGV, csProviderName = ''CGV'',
     csTheaters = map catalogTheaterItem (ccTheaters value), csMovies = map catalogMovieItem (ccMovies value),
     csPosters = map catalogPosterItem (ccPosters value), csObservedAt = timestampNew now\<rparr>"

definition executorCaptureCatalog ::
  "CGVExecutor \<Rightarrow> AssignmentTask option \<Rightarrow> browser \<Rightarrow> CatalogSnapshot result \<times> event list" where
  "executorCaptureCatalog ex task b =
    (case Option.bind task atCatalog of
       None \<Rightarrow> (Inl (wrapS ErrLocalExecution ''unsupported Probe task kind''), [])
     | Some catalogTask \<Rightarrow>
         if tcProviderId catalogTask \<noteq> ProviderCGV then
           (Inl (wrapS ErrLocalExecution ''unsupported catalog provider''), [])
         else (case requireManagedScan task of
             Inl e \<Rightarrow> (Inl e, [])
           | Inr _ \<Rightarrow> withBrowser ex task
               (case bwCatalog b of
                  None \<Rightarrow> (Inl (wrapS ErrLocalExecution ''probe browser does not support catalog capture''), [])
                | Some capture \<Rightarrow>
                    (bindR (mapErr (wrapE ''capture CGV catalog'') (capture (tcCachedPosterMovieIds catalogTask)))
                       (\<lambda>value. Inr (catalogSnapshot (exClock ex 0) value)),
                     [CallCatalog (tcCachedPosterMovieIds catalogTask)]))))"

section \<open>Sessions\<close>

text \<open>A session: whether it still has its browser.\<close>

record ScheduleSession =
  ssBrowser :: bool

definition OpenScheduleSession :: "CGVExecutor option \<Rightarrow> AssignmentTask option \<Rightarrow> ScheduleSession result \<times> event list" where
  "OpenScheduleSession executor task =
    (case validateScheduleTask task of
       Inl e \<Rightarrow> (Inl e, [])
     | Inr _ \<Rightarrow>
         (case Option.bind executor exOpen of
            None \<Rightarrow> (Inl (wrapS ErrBrowserStartFailed ''probe browser factory is unavailable''), [])
          | Some openBrowser \<Rightarrow>
              (case openBrowser (scanBrowserTask task) of
                 Inl e \<Rightarrow> (Inl (openFailed e), [OpenFailed (scanBrowserTask task)])
               | Inr _ \<Rightarrow> (Inr \<lparr>ssBrowser = True\<rparr>, [Opened (scanBrowserTask task)]))))"

definition sessionClosed :: goerr where
  "sessionClosed = errNew ''probe schedule session is closed''"

definition sessionCapture ::
  "CGVExecutor \<Rightarrow> AssignmentTask option \<Rightarrow> int list \<Rightarrow> browser \<Rightarrow> ScheduleSession \<Rightarrow> Capture list result \<times> event list" where
  "sessionCapture ex task weekdays b session =
    (if \<not> ssBrowser session then (Inl sessionClosed, []) else captureSchedulesInBrowser ex task weekdays b)"

definition sessionCaptureWeekdays ::
  "CGVExecutor \<Rightarrow> AssignmentTask option \<Rightarrow> int list \<Rightarrow> browser \<Rightarrow> ScheduleSession \<Rightarrow> Capture list result \<times> event list" where
  "sessionCaptureWeekdays ex task weekdayValues b session =
    (case scheduleWeekdays weekdayValues of
       Inl e \<Rightarrow> (Inl e, [])
     | Inr weekdays \<Rightarrow> sessionCapture ex task weekdays b session)"

definition sessionCaptureWeekdayShard ::
  "CGVExecutor \<Rightarrow> AssignmentTask option \<Rightarrow> int list \<Rightarrow> int \<Rightarrow> browser \<Rightarrow> ScheduleSession \<Rightarrow> Capture list result \<times> event list" where
  "sessionCaptureWeekdayShard ex task weekdayValues shard b session =
    (case scheduleWeekdays weekdayValues of
       Inl e \<Rightarrow> (Inl e, [])
     | Inr weekdays \<Rightarrow>
         if \<not> ssBrowser session then (Inl sessionClosed, [])
         else captureScheduleWeekdayShardInBrowser ex task weekdays shard b)"

definition sessionClose :: "ScheduleSession \<Rightarrow> ScheduleSession \<times> event list" where
  "sessionClose session = (\<lparr>ssBrowser = False\<rparr>, if ssBrowser session then [CloseBrowser] else [])"


section \<open>The scanner\<close>

text \<open>The events of the scanner's browsers so far are part of its state.\<close>

record LocalScanner =
  lsClosed :: bool
  lsSession :: "ScheduleSession option"
  lsEvents :: "event list"

definition newScanner :: LocalScanner where
  "newScanner = \<lparr>lsClosed = False, lsSession = None, lsEvents = []\<rparr>"

definition NewLocalScanner :: "string \<Rightarrow> (string \<Rightarrow> unit result) \<Rightarrow> LocalScanner result" where
  "NewLocalScanner dataDir newFactory =
    (if TrimSpace dataDir = [] then Inl (errNew ''local scanner data directory is required'')
     else bindR (newFactory (Clean dataDir)) (\<lambda>_. Inr newScanner))"

definition scannerClose :: "LocalScanner \<Rightarrow> LocalScanner" where
  "scannerClose scanner =
    (if lsClosed scanner then scanner
     else \<lparr>lsClosed = True, lsSession = None,
           lsEvents = lsEvents scanner @ (case lsSession scanner of None \<Rightarrow> [] | Some s \<Rightarrow> snd (sessionClose s))\<rparr>)"

definition scannerLocale :: string where "scannerLocale = ''ko-KR''"
definition scannerTimeZone :: string where "scannerTimeZone = ''Asia/Seoul''"

definition managedScanEgress :: "bool option" where "managedScanEgress = Some True"

definition scannerScheduleTask :: "Theater option \<Rightarrow> AssignmentTask" where
  "scannerScheduleTask theater = \<lparr>atEgress = managedScanEgress,
     atSchedule = Some \<lparr>tkTheater = theater, tkLocale = scannerLocale, tkTimeZone = scannerTimeZone\<rparr>,
     atCatalog = None, atSeatMap = None\<rparr>"

definition scannerRound ::
  "CGVExecutor \<Rightarrow> AssignmentTask option \<Rightarrow> int list \<Rightarrow> int option \<Rightarrow> browser \<Rightarrow> ScheduleSession \<Rightarrow> Capture list result \<times> event list" where
  "scannerRound ex task weekdays shard b session =
    (if weekdays \<noteq> [] then
       (case shard of
          Some n \<Rightarrow> sessionCaptureWeekdayShard ex task weekdays n b session
        | None \<Rightarrow> sessionCaptureWeekdays ex task weekdays b session)
     else sessionCapture ex task [] b session)"

definition keepsSession :: "goerr \<Rightarrow> bool" where
  "keepsSession e \<longleftrightarrow> errorsIs e Canceled \<or> errorsIs e ErrProviderThrottled"

definition scannerCaptureSchedules ::
  "CGVExecutor option \<Rightarrow> Theater option \<Rightarrow> int list \<Rightarrow> int option \<Rightarrow> browser \<Rightarrow> LocalScanner \<Rightarrow> Capture list result \<times> LocalScanner" where
  "scannerCaptureSchedules executor theater weekdays shard b scanner =
    (case executor of
       None \<Rightarrow> (Inl (errNew ''local scanner is closed''), scanner)
     | Some ex \<Rightarrow>
         if lsClosed scanner then (Inl (errNew ''local scanner is closed''), scanner)
         else
           let task = Some (scannerScheduleTask theater);
               (opened, events) = (case lsSession scanner of
                   Some s \<Rightarrow> (Inr s, [])
                 | None \<Rightarrow> OpenScheduleSession executor task)
           in case opened of
                Inl e \<Rightarrow> (Inl e, scanner\<lparr>lsEvents := lsEvents scanner @ events\<rparr>)
              | Inr session \<Rightarrow>
                  (let (captures, calls) = scannerRound ex task weekdays shard b session;
                       used = lsEvents scanner @ events @ calls
                   in case captures of
                        Inl e \<Rightarrow>
                          if keepsSession e then (Inl e, scanner\<lparr>lsSession := Some session, lsEvents := used\<rparr>)
                          else (Inl e, scanner\<lparr>lsSession := None, lsEvents := used @ snd (sessionClose session)\<rparr>)
                      | Inr cs \<Rightarrow> (Inr cs, scanner\<lparr>lsSession := Some session, lsEvents := used\<rparr>)))"

definition scannerCaptureCatalog ::
  "CGVExecutor option \<Rightarrow> string list \<Rightarrow> browser \<Rightarrow> CatalogSnapshot result \<times> event list" where
  "scannerCaptureCatalog executor cachedPosterMovieIDs b =
    (case executor of
       None \<Rightarrow> (Inl (errNew ''local scanner is closed''), [])
     | Some ex \<Rightarrow> executorCaptureCatalog ex (Some \<lparr>atEgress = managedScanEgress, atSchedule = None,
         atCatalog = Some \<lparr>tcProviderId = ProviderCGV, tcLocale = scannerLocale, tcTimeZone = scannerTimeZone,
                           tcCachedPosterMovieIds = cachedPosterMovieIDs\<rparr>, atSeatMap = None\<rparr>) b)"

definition scannerCaptureSeatMap ::
  "CGVExecutor option \<Rightarrow> Theater option \<Rightarrow> Auditorium option \<Rightarrow> browser \<Rightarrow> Snapshot result \<times> event list" where
  "scannerCaptureSeatMap executor theater auditorium b =
    (case executor of
       None \<Rightarrow> (Inl (errNew ''local scanner is closed''), [])
     | Some ex \<Rightarrow> executorCaptureSeatMap ex (Some \<lparr>atEgress = managedScanEgress, atSchedule = None, atCatalog = None,
         atSeatMap = Some \<lparr>skTheater = theater, skAuditorium = auditorium, skLocale = scannerLocale, skTimeZone = scannerTimeZone\<rparr>\<rparr>) b)"

section \<open>Browsers are opened for scans only and always closed\<close>

fun isCall :: "event \<Rightarrow> bool" where
  "isCall (Opened _) = False"
| "isCall (OpenFailed _) = False"
| "isCall CloseBrowser = False"
| "isCall _ = True"

text \<open>What a capture of its own does to the browser: nothing, a failed opening, or one opening, one call at most, one closing.\<close>

definition oneShot :: "AssignmentTask option \<Rightarrow> event list \<Rightarrow> bool" where
  "oneShot task es \<longleftrightarrow> es = [] \<or>
    (let t = scanBrowserTask task in Option.bind task atEgress = Some True \<and>
      (es = [OpenFailed t] \<or> (\<exists>calls. es = Opened t # calls @ [CloseBrowser] \<and> length calls \<le> 1 \<and> list_all isCall calls)))"

lemma withBrowser_oneShot:
  assumes "Option.bind task atEgress = Some True" "length (snd run) \<le> 1" "list_all isCall (snd run)"
  shows "oneShot task (snd (withBrowser ex task run))"
  using assms by (auto simp: withBrowser_def oneShot_def Let_def split: option.splits sum.splits)

lemma requireManagedScan_Inr: "requireManagedScan task = Inr () \<longleftrightarrow> Option.bind task atEgress = Some True"
  by (simp add: requireManagedScan_def guardR_def)

lemma validateScheduleTask_managed: "validateScheduleTask task = Inr () \<Longrightarrow> Option.bind task atEgress = Some True"
  by (auto simp: validateScheduleTask_def result_simps requireManagedScan_Inr split: option.splits)

lemma captureSchedulesInBrowser_calls:
  "length (snd (captureSchedulesInBrowser ex task w b)) \<le> 1 \<and> list_all isCall (snd (captureSchedulesInBrowser ex task w b))"
  by (auto simp: captureSchedulesInBrowser_def Let_def split: sum.splits option.splits if_splits)

lemma captureShard_calls:
  "list_all isCall (snd (captureScheduleWeekdayShardInBrowser ex task w n b))"
  using captureSchedulesInBrowser_calls
  by (auto simp: captureScheduleWeekdayShardInBrowser_def Let_def split: sum.splits option.splits if_splits)

lemma executorCaptureSchedules_oneShot: "oneShot task (snd (executorCaptureSchedules ex task w b))"
proof (cases "validateScheduleTask task")
  case (Inr u)
  then show ?thesis using captureSchedulesInBrowser_calls validateScheduleTask_managed[of task]
    by (simp add: executorCaptureSchedules_def withBrowser_oneShot)
qed (simp add: executorCaptureSchedules_def oneShot_def)

lemma executorCaptureCatalog_oneShot: "oneShot task (snd (executorCaptureCatalog ex task b))"
proof (cases "requireManagedScan task")
  case (Inr u)
  then show ?thesis using requireManagedScan_Inr[of task]
    by (auto simp: executorCaptureCatalog_def oneShot_def[of _ "[]"] intro!: withBrowser_oneShot split: option.splits)
qed (auto simp: executorCaptureCatalog_def oneShot_def split: option.splits)

lemma executorCaptureSeatMap_oneShot: "oneShot task (snd (executorCaptureSeatMap ex task b))"
proof (cases "requireManagedScan task")
  case (Inr u)
  then show ?thesis using requireManagedScan_Inr[of task]
    by (auto simp: executorCaptureSeatMap_def oneShot_def[of _ "[]"] intro!: withBrowser_oneShot split: option.splits sum.splits)
qed (auto simp: executorCaptureSeatMap_def oneShot_def split: option.splits)

text \<open>
  C11. Every capture of the executor touches the network under the managed scan policy only and leaves
  no browser behind: unless the task asks for that policy nothing is opened, a browser is opened at
  most once, for the scan purpose and the default scan policy, used for at most one capture, and
  closed exactly once after it, whether the capture succeeded, failed or is not supported.
\<close>

theorem executor_closes_browser:
  "oneShot task (snd (executorCapture ex task b)) \<and> oneShot task (snd (executorCaptureWeekdays ex task weekdays b))
   \<and> oneShot task (snd (executorCaptureCatalog ex task b)) \<and> oneShot task (snd (executorCaptureSeatMap ex task b))
   \<and> btPurpose (scanBrowserTask task) = PurposeScan \<and> btEgressPolicyID (scanBrowserTask task) = PolicyScanDefault"
proof -
  have "oneShot task (snd (executorCaptureWeekdays ex task weekdays b))"
    by (simp add: executorCaptureWeekdays_def executorCaptureSchedules_oneShot oneShot_def[of _ "[]"] split: sum.splits)
  then show ?thesis
    by (simp add: executorCapture_def executorCaptureSchedules_oneShot executorCaptureCatalog_oneShot executorCaptureSeatMap_oneShot
        scanBrowserTask_def split: option.splits prod.splits)
qed


section \<open>One browser per scanner\<close>

text \<open>Following a browser through the events: whether one is open, or that the events are out of order.\<close>

fun track :: "bool \<Rightarrow> event \<Rightarrow> bool option" where
  "track False (Opened _) = Some True"
| "track False (OpenFailed _) = Some False"
| "track True CloseBrowser = Some False"
| "track isOpen e = (if isOpen \<and> isCall e then Some True else None)"

fun tracked :: "bool \<Rightarrow> event list \<Rightarrow> bool option" where
  "tracked isOpen [] = Some isOpen"
| "tracked isOpen (e # es) = Option.bind (track isOpen e) (\<lambda>o'. tracked o' es)"

lemma tracked_append: "tracked o1 (es @ fs) = Option.bind (tracked o1 es) (\<lambda>o2. tracked o2 fs)"
  by (induction es arbitrary: o1) (auto split: Option.bind_splits)

lemma tracked_calls: "list_all isCall es \<Longrightarrow> tracked True es = Some True"
proof (induction es)
  case (Cons e es)
  then show ?case by (cases e) simp_all
qed simp

definition scannerInv :: "LocalScanner \<Rightarrow> bool" where
  "scannerInv s \<longleftrightarrow> tracked False (lsEvents s) = Some (lsSession s \<noteq> None)
    \<and> (\<forall>x. lsSession s = Some x \<longrightarrow> ssBrowser x) \<and> (lsClosed s \<longrightarrow> lsSession s = None)"

lemma scannerClose_inv: "scannerInv s \<Longrightarrow> scannerInv (scannerClose s)"
  by (auto simp: scannerInv_def scannerClose_def sessionClose_def tracked_append split: option.splits)

lemma scannerRound_calls: "list_all isCall (snd (scannerRound ex task w n b s))"
  using captureSchedulesInBrowser_calls captureShard_calls
  by (auto simp: scannerRound_def sessionCapture_def sessionCaptureWeekdays_def sessionCaptureWeekdayShard_def split: option.splits sum.splits)

lemma OpenScheduleSession_events:
  "OpenScheduleSession executor task = (Inr s, es) \<Longrightarrow> ssBrowser s \<and> tracked False es = Some True"
  "OpenScheduleSession executor task = (Inl e, es) \<Longrightarrow> tracked False es = Some False"
  by (auto simp: OpenScheduleSession_def split: sum.splits option.splits)

lemma scannerCaptureSchedules_inv:
  assumes "scannerInv s" shows "scannerInv (snd (scannerCaptureSchedules executor theater w n b s))"
proof (cases "executor = None \<or> lsClosed s")
  case True
  then show ?thesis using assms by (auto simp: scannerCaptureSchedules_def split: option.splits)
next
  case False
  then obtain ex where ex: "executor = Some ex" "\<not> lsClosed s" by auto
  let ?task = "Some (scannerScheduleTask theater)"
  obtain opened es where o: "(case lsSession s of Some x \<Rightarrow> (Inr x, []) | None \<Rightarrow> OpenScheduleSession executor ?task) = (opened, es)"
    by fastforce
  show ?thesis
  proof (cases opened)
    case (Inl e)
    then have "lsSession s = None" "tracked False es = Some False"
      using o OpenScheduleSession_events(2) by (auto split: option.splits)
    then show ?thesis using assms ex o Inl by (auto simp: scannerCaptureSchedules_def scannerInv_def tracked_append)
  next
    case (Inr x)
    have x: "ssBrowser x" "tracked False (lsEvents s @ es) = Some True"
      using o Inr assms OpenScheduleSession_events(1) by (auto simp: scannerInv_def tracked_append split: option.splits)
    obtain r calls where r: "scannerRound ex ?task w n b x = (r, calls)" by fastforce
    have c: "tracked True calls = Some True" using scannerRound_calls[of ex ?task w n b x] r tracked_calls by simp
    then have u: "tracked False (lsEvents s @ es @ calls) = Some True"
      "tracked False (lsEvents s @ es @ calls @ [CloseBrowser]) = Some False"
      using x(2) by (simp_all add: tracked_append append_assoc[symmetric] del: append_assoc)
    show ?thesis using ex(1) ex(2) o Inr r x(1) u
      by (cases r) (auto simp: scannerCaptureSchedules_def scannerInv_def sessionClose_def Let_def split: if_splits)
  qed
qed

datatype scanOp = ScanOp "CGVExecutor option" "Theater option" "int list" "int option" browser | CloseOp

fun scanStep :: "LocalScanner \<Rightarrow> scanOp \<Rightarrow> LocalScanner" where
  "scanStep s (ScanOp executor theater w n b) = snd (scannerCaptureSchedules executor theater w n b s)"
| "scanStep s CloseOp = scannerClose s"

lemma scanStep_inv: "scannerInv s \<Longrightarrow> scannerInv (foldl scanStep s ops)"
proof (induction ops arbitrary: s)
  case (Cons op ops)
  then show ?case using scannerCaptureSchedules_inv scannerClose_inv by (cases op) simp_all
qed simp

lemma scanStep_closed: "lsClosed s \<Longrightarrow> foldl scanStep s ops = s"
proof (induction ops)
  case (Cons op ops)
  then show ?case by (cases op) (auto simp: scannerCaptureSchedules_def scannerClose_def split: option.splits)
qed simp

text \<open>
  C10. In whatever order rounds and closes come and however they end, the scanner has at most one
  schedule browser: the events open, use and close browsers one after the other, a browser is open
  exactly while the scanner holds a session, and closing the scanner closes it for good, so that no
  later call opens or uses another.
\<close>

theorem scanner_one_browser:
  "tracked False (lsEvents (foldl scanStep newScanner ops)) = Some (lsSession (foldl scanStep newScanner ops) \<noteq> None)
   \<and> tracked False (lsEvents (foldl scanStep newScanner (ops @ [CloseOp]))) = Some False
   \<and> foldl scanStep newScanner (ops @ [CloseOp] @ later) = foldl scanStep newScanner (ops @ [CloseOp])"
proof -
  have i: "scannerInv newScanner" by (simp add: scannerInv_def newScanner_def)
  let ?s = "foldl scanStep newScanner (ops @ [CloseOp])"
  have closed: "lsClosed ?s" by (simp add: scannerClose_def)
  from scanStep_closed[OF closed, of later] show ?thesis
    using scanStep_inv[OF i, of ops] scanStep_inv[OF i, of "ops @ [CloseOp]"] closed by (simp add: scannerInv_def)
qed

section \<open>From provider rows to the contract\<close>

lemma Split_append: "Split d (s @ d # t) = Split d s @ Split d t"
proof (induction s)
  case (Cons c s)
  then show ?case by (cases "Split d s") simp_all
qed simp

lemma Split_Join_concat: "ps \<noteq> [] \<Longrightarrow> Split d (Join ps [d]) = concat (map (Split d) ps)"
proof (induction ps)
  case (Cons p ps)
  then show ?case by (cases ps) (simp_all add: Split_append)
qed simp

lemma length_concat_Split:
  "length ps \<le> length (concat (map (Split d) ps))"
  "length (concat (map (Split d) ps)) = length ps \<Longrightarrow> concat (map (Split d) ps) = ps"
proof (induction ps)
  case (Cons p ps)
  obtain x xs where p: "Split d p = x # xs" by (cases "Split d p") simp_all
  { case 1 show ?case using Cons.IH(1) by (simp add: p) }
  { case 2
    then have "length xs + length (concat (map (Split d) ps)) = length ps" by (simp add: p)
    with Cons.IH(1) have l: "length xs = 0" "length (concat (map (Split d) ps)) = length ps" by linarith+
    then have "x = p" using Join_Split[of d p] p by simp
    then show ?case using Cons.IH(2)[OF l(2)] l(1) p by simp }
qed simp_all

text \<open>A key that splits into as many parts as it was joined from has exactly those parts.\<close>

lemma Split_Join_exact:
  assumes "ps \<noteq> []" "length (Split d (Join ps [d])) = length ps" shows "Split d (Join ps [d]) = ps"
  using assms length_concat_Split(2)[of d ps] by (simp add: Split_Join_concat)

lemma canonicalShowtimeSourceParts_row:
  assumes "canonicalShowtimeSourceParts (rowKey row) = Inr parts"
  shows "parts = (TrimSpace (rwSiteNo row), TrimSpace (rwDate row), TrimSpace (rwAuditoriumNo row), TrimSpace (rwSequence row))
    \<and> numericIdentifier (TrimSpace (rwSiteNo row)) \<and> numericIdentifier (TrimSpace (rwAuditoriumNo row))
    \<and> numericIdentifier (TrimSpace (rwSequence row)) \<and> isOk (contractLocalDate (TrimSpace (rwDate row)))"
proof -
  let ?ps = "[TrimSpace (rwSiteNo row), TrimSpace (rwDate row), TrimSpace (rwAuditoriumNo row), TrimSpace (rwSequence row)]"
  obtain a b c e where s: "Split (CHR ''/'') (rowKey row) = [a, b, c, e]"
    and p: "parts = (a, b, c, e)" "probeNumericIdentifier a" "probeNumericIdentifier c" "probeNumericIdentifier e"
      "parseDateOnly b \<noteq> None"
    using assms by (auto simp: canonicalShowtimeSourceParts_def split: list.splits if_splits option.splits)
  have "rowKey row = Join ?ps [CHR ''/'']" by (simp add: rowKey_def showtimeSourceKey_def)
  then have "[a, b, c, e] = ?ps" using Split_Join_exact[of ?ps "CHR ''/''"] s by simp
  then show ?thesis using p by (auto simp: probeNumericIdentifier_def numericIdentifier_def contractLocalDate_def)
qed

text \<open>A site number that is not all digits is never converted, though the provider's identities admit it.\<close>

lemma canonicalShowtimeContract_site:
  assumes "scheduleEntryFromProviderRow now row theater = Inr e" "\<not> numericIdentifier (TrimSpace (rwSiteNo row))"
  shows "\<exists>err. canonicalShowtimeContract (seShowtime e) = Inl err \<and> errorsIs err ErrIdentityMismatch"
proof -
  have k: "shSourceKey (seShowtime e) = rowKey row" using scheduleEntry_fields[OF assms(1)] by simp
  have "\<not> isOk (canonicalShowtimeSourceParts (rowKey row))"
    using canonicalShowtimeSourceParts_row assms(2) unfolding isOk_iff by blast
  then obtain err where err: "canonicalShowtimeSourceParts (rowKey row) = Inl err" by (cases "canonicalShowtimeSourceParts (rowKey row)") auto
  then have "errorsIs err ErrIdentityMismatch"
    by (auto simp: canonicalShowtimeSourceParts_def split: list.splits if_splits option.splits)
  then show ?thesis using err by (auto simp: canonicalShowtimeContract_def k)
qed

lemma scheduleEntry_keys:
  assumes "scheduleEntryFromProviderRow now row theater = Inr e"
  shows "shProviderID (seShowtime e) = ProviderCGV \<and> rwSiteNo row = TrimSpace (stSourceKey theater)
    \<and> providerSiteIdentifier (rwSiteNo row)
    \<and> shAuditoriumSourceKey (seShowtime e) = auditoriumSourceKey (rwSiteNo row) (rwAuditoriumNo row)
    \<and> shAuditoriumID (seShowtime e) = CatalogID ProviderCGV ''auditorium'' (auditoriumSourceKey (rwSiteNo row) (rwAuditoriumNo row))"
  using assms by (auto simp: scheduleEntryFromProviderRow_def providerCatalogID_def Let_def split: if_splits prod.splits)

text \<open>What a published showtime is to the seat capture of another round.\<close>

definition usableShowtime :: "string \<Rightarrow> Showtime \<Rightarrow> bool" where
  "usableShowtime theaterID item \<longleftrightarrow> validSeatMapShowtimeIdentity (Some item) \<and> smTheaterId item = theaterID
    \<and> (case smAuditorium item of None \<Rightarrow> False
       | Some a \<Rightarrow> TrimSpace (auName a) \<noteq> [] \<longrightarrow> validSeatMapShowtimeAuditorium (Some item))
    \<and> isOk (int32Value (smCapacity item)) \<and> isOk (int32Value (smAvailableSeats item))"

lemma int32Value_Inr: "int32Value v = Inr x \<longleftrightarrow> x = v \<and> minInt32 \<le> v \<and> v \<le> maxInt32"
  by (auto simp: int32Value_def)

lemma convertTurn_Inr:
  assumes "convertTurn loc acc s = Inr acc'"
  shows "\<exists>parts identity range capacity available. canonicalShowtimeContract s = Inr (parts, identity)
    \<and> isOk (int32Value capacity) \<and> isOk (int32Value available)
    \<and> snd acc' = snd acc @ [contractShowtime s parts identity range capacity available]"
proof -
  obtain t items where a: "acc = (t, items)" by fastforce
  obtain parts identity where c: "canonicalShowtimeContract s = Inr (parts, identity)"
    using assms by (auto simp: a convertTurn_def result_simps)
  obtain range where r: "ParseShowtimeRange (shDate s) (shStartsAt s) (shEndsAt s) (Some loc) = Inr range"
    using assms by (auto simp: a convertTurn_def c result_simps)
  let ?k = "shCapacity s" and ?n = "shAvailableSeats s"
  have "isOk (int32Value ?k) \<and> isOk (int32Value ?n) \<and> snd acc' = snd acc @ [contractShowtime s parts identity range ?k ?n]"
    using assms by (auto simp: a convertTurn_def c r result_simps Let_def isOk_iff int32Value_Inr)
  then show ?thesis using c by blast
qed

lemma convertTurn_usable:
  assumes e: "scheduleEntryFromProviderRow now row theater = Inr e" and t: "convertTurn loc acc (seShowtime e) = Inr acc'"
    and y: "HasPrefix (TrimSpace (rwDate row)) ''0000'' = False"
  shows "\<exists>item. snd acc' = snd acc @ [item] \<and> smId item = shID (seShowtime e) \<and> usableShowtime (stID theater) item"
proof -
  let ?s = "seShowtime e"
  obtain parts identity range capacity available where c: "canonicalShowtimeContract ?s = Inr (parts, identity)"
    and i32: "isOk (int32Value capacity)" "isOk (int32Value available)"
    and acc: "snd acc' = snd acc @ [contractShowtime ?s parts identity range capacity available]"
    using convertTurn_Inr[OF t] by (elim exE conjE) (rule that)
  note f = scheduleEntry_fields[OF e] and k = scheduleEntry_keys[OF e]
  have p: "canonicalShowtimeSourceParts (rowKey row) = Inr parts"
    "identity = (case parts of (a, b, c, d) \<Rightarrow> case NewShowtimeIdentity a b c d of Inr i \<Rightarrow> Some i | Inl _ \<Rightarrow> None)"
    using c f by (auto simp: canonicalShowtimeContract_def result_simps split: if_splits prod.splits)
  let ?a = "TrimSpace (rwSiteNo row)" and ?b = "TrimSpace (rwDate row)" and ?c = "TrimSpace (rwAuditoriumNo row)" and ?d = "TrimSpace (rwSequence row)"
  from canonicalShowtimeSourceParts_row[OF p(1)] have parts: "parts = (?a, ?b, ?c, ?d)"
    and num: "numericIdentifier ?a" "numericIdentifier ?c" "numericIdentifier ?d" and d: "isOk (contractLocalDate ?b)" by blast+
  obtain i where i: "NewShowtimeIdentity ?a ?b ?c ?d = Inr i" using d by (auto simp: NewShowtimeIdentity_def isOk_iff)
  have id: "identity = Some i" using p(2) parts i by simp
  have site: "?a = rwSiteNo row" using k by simp
  have ps: "providerSiteIdentifier ?a" unfolding site using k by blast
  have v: "ShowtimeIdentityValues (Some i) = (?a, ?b, ?c, ?d, True)"
    using NewShowtimeIdentity_values[OF i] y num ps by simp
  let ?item = "contractShowtime ?s parts identity range capacity available"
  have sv: "showtimeValues (Some ?item) = (?a, ?b, ?c, ?d, True)"
    using v by (simp add: showtimeValues_def contractShowtime_def parts id split: prod.splits)
  have th: "stID theater = CatalogID ProviderCGV ''theater'' ?a" using f k by simp
  have fields: "smProviderId ?item = ProviderCGV" "smId ?item = shID ?s" "smTheaterId ?item = stID theater"
    "smCapacity ?item = capacity" "smAvailableSeats ?item = available"
    using f k by (simp_all add: contractShowtime_def parts split: prod.splits)
  have key: "rowKey row = showtimeSourceKey ?a ?b ?c ?d" by (simp add: rowKey_def showtimeSourceKey_def)
  have valid: "validSeatMapShowtimeIdentity (Some ?item)"
    unfolding validSeatMapShowtimeIdentity_def sv using f fields th by (simp add: key providerCatalogID_def)
  have aud: "smAuditorium ?item = Some \<lparr>auId = shAuditoriumID ?s, auTheaterId = stID theater, auName = shAuditoriumName ?s,
      auIdentity = Some \<lparr>caSiteNo = ?a, caScreenNo = ?c\<rparr>, auScreenTypes = shScreenTypes ?s, auCapacity = capacity\<rparr>"
    using f by (simp add: contractShowtime_def parts NewAuditoriumIdentity_def split: prod.splits)
  have av: "auditoriumValues (getAuditorium (Some ?item)) = (?a, ?c, True)"
    using ps num by (simp add: auditoriumValues_def getAuditorium_def aud AuditoriumIdentityValues_def Let_def)
  have auID: "shAuditoriumID ?s = CatalogID ProviderCGV ''auditorium'' (?a @ ''/'' @ ?c)"
    using k by (simp add: auditoriumSourceKey_def)
  have "validSeatMapShowtimeAuditorium (Some ?item)" if "TrimSpace (shAuditoriumName ?s) \<noteq> []"
    unfolding validSeatMapShowtimeAuditorium_def av sv Let_def
    using that fields auID by (simp add: getAuditorium_def aud getTheaterId_def)
  then have "usableShowtime (stID theater) ?item"
    using valid fields i32 by (simp add: usableShowtime_def aud)
  then show ?thesis using acc fields(2) by blast
qed

lemma convertTurns_usable:
  assumes "foldR (convertTurn loc) acc (map seShowtime es) = Inr acc'"
    "\<And>e. e \<in> set es \<Longrightarrow> \<exists>now row. scheduleEntryFromProviderRow now row theater = Inr e \<and> HasPrefix (TrimSpace (rwDate row)) ''0000'' = False"
  shows "\<exists>items. snd acc' = snd acc @ items
    \<and> list_all2 (\<lambda>e item. smId item = shID (seShowtime e) \<and> usableShowtime (stID theater) item) es items"
  using assms
proof (induction es arbitrary: acc)
  case (Cons e es)
  from Cons.prems(1) obtain mid where m: "convertTurn loc acc (seShowtime e) = Inr mid"
    and r: "foldR (convertTurn loc) mid (map seShowtime es) = Inr acc'" by (auto simp: result_simps)
  obtain now row where "scheduleEntryFromProviderRow now row theater = Inr e" "HasPrefix (TrimSpace (rwDate row)) ''0000'' = False"
    using Cons.prems(2)[of e] by auto
  from convertTurn_usable[OF this(1) m this(2)] obtain item where
    i: "snd mid = snd acc @ [item]" "smId item = shID (seShowtime e)" "usableShowtime (stID theater) item" by blast
  have "\<exists>items. snd acc' = snd mid @ items
      \<and> list_all2 (\<lambda>e item. smId item = shID (seShowtime e) \<and> usableShowtime (stID theater) item) es items"
    using Cons.IH[OF r] Cons.prems(2) by simp
  then obtain items where "snd acc' = snd mid @ items"
    "list_all2 (\<lambda>e item. smId item = shID (seShowtime e) \<and> usableShowtime (stID theater) item) es items" by blast
  then show ?case using i by (intro exI[of _ "item # items"]) simp
qed simp

lemma convertCapture_Inr:
  assumes "convertCapture now loc value = Inr c"
  shows "\<exists>t. foldR (convertTurn loc) (now, []) (scShowtimes value) = Inr (t, obShowtimes c)
    \<and> obComplete c = scComplete value \<and> (scComplete value \<longrightarrow> obErrorCode c = [])"
  using assms by (auto simp: convertCapture_def result_simps)

lemma captureErrorCode_ne [simp]: "captureErrorCode e \<noteq> []"
  by (simp add: captureErrorCode_def)

lemma foldR_head_Inl: "f s x = Inl e \<Longrightarrow> foldR f s (x # xs) = Inl e"
  by simp

lemma localDate_canonical: "canonicalProviderDate date = Inr c \<Longrightarrow> isOk (localDate c)"
  using canonicalProviderDate_form[of date c] by (auto simp: localDate_def parse_formatDateOnly)

lemma convertCapture_opaque_site:
  assumes "canonicalProviderDate date = Inr c" "scheduleEntryFromProviderRow t row theater = Inr e"
    "\<not> numericIdentifier (TrimSpace (stSourceKey theater))"
  shows "\<exists>err. convertCapture now loc (completeCapture c (e # es)) = Inl err \<and> errorsIs err ErrIdentityMismatch"
proof -
  have "rwSiteNo row = TrimSpace (stSourceKey theater)" using scheduleEntry_keys[OF assms(2)] by blast
  then have "\<not> numericIdentifier (TrimSpace (rwSiteNo row))" using assms(3) by simp
  from canonicalShowtimeContract_site[OF assms(2) this] obtain err where
    err: "canonicalShowtimeContract (seShowtime e) = Inl err" "errorsIs err ErrIdentityMismatch" by blast
  obtain d where "localDate c = Inr d" using localDate_canonical[OF assms(1)] unfolding isOk_iff by blast
  then show ?thesis using err by (simp add: convertCapture_def completeCapture_def convertTurn_def)
qed

end
