(* ===== verification/BrowserFactory.thy ===== *)
theory BrowserFactory
  imports ProbeExecutor
begin

text \<open>
  The browser factory (\<open>internal/provider/cgv/browser/factory.go\<close>) and the pool and closing hooks of
  \<open>internal/provider/cgv/browser.go\<close> below it: task slots, the single authenticated session, leases and
  profile directories, in every interleaving of openings, closings and reconfigurations. The steps are
  the stretches of code between two points where another goroutine may run: a channel operation, a
  critical section, or a call that waits for the browser or the network. What is outside, the context
  of the caller, the outcome of an acquisition, of a launch or of a directory, is in the event.
\<close>


section \<open>Configuration of a browser\<close>

definition UserAgentSession :: string where "UserAgentSession = ''session''"
definition UserAgentRandomizedScan :: string where "UserAgentRandomizedScan = ''randomized-scan''"

record BrowserConfig =
  bcChromePath :: string
  bcProfileDir :: string
  bcArtifactsDir :: string
  bcHeadless :: bool
  bcStartMinimized :: bool
  bcRestoreSession :: bool
  bcBlockResources :: bool
  bcUserAgentMode :: string
  bcLocale :: string
  bcTimeZone :: string
  bcProxy :: "Proxy option"
  bcCapacity :: int

definition DefaultBrowserConfig :: BrowserConfig where
  "DefaultBrowserConfig =
    \<lparr>bcChromePath = [], bcProfileDir = JoinPath [''.cineko'', ''chrome-profile''], bcArtifactsDir = JoinPath [''.cineko'', ''artifacts''],
     bcHeadless = True, bcStartMinimized = False, bcRestoreSession = False, bcBlockResources = True, bcUserAgentMode = [],
     bcLocale = [], bcTimeZone = ''Asia/Seoul'', bcProxy = None, bcCapacity = 0\<rparr>"

definition normalizedBrowserConfig :: "BrowserConfig \<Rightarrow> BrowserConfig" where
  "normalizedBrowserConfig config =
    (let orElse = (\<lambda>v d. if v = [] then d else v) in
     config\<lparr>bcProfileDir := orElse (bcProfileDir config) (bcProfileDir DefaultBrowserConfig),
            bcArtifactsDir := orElse (bcArtifactsDir config) (bcArtifactsDir DefaultBrowserConfig),
            bcUserAgentMode := orElse (bcUserAgentMode config) UserAgentSession,
            bcTimeZone := orElse (bcTimeZone config) (bcTimeZone DefaultBrowserConfig)\<rparr>)"

definition browserConfigForTask :: "BrowserConfig \<Rightarrow> browserTask \<Rightarrow> BrowserConfig" where
  "browserConfigForTask base task =
    (let config = base\<lparr>bcHeadless := btHeadless task, bcStartMinimized := btStartMinimized task, bcLocale := btLocale task,
           bcTimeZone := btTimeZone task, bcRestoreSession := (btPurpose task = PurposeSession),
           bcBlockResources := (btPurpose task = PurposeScan), bcUserAgentMode := UserAgentSession\<rparr>
     in if btPurpose task = PurposeSession then
          config\<lparr>bcHeadless := False, bcStartMinimized := (btStartMinimized task \<or> btHeadless task)\<rparr>
        else if btPurpose task = PurposeScan then config\<lparr>bcUserAgentMode := UserAgentRandomizedScan\<rparr>
        else config)"

text \<open>The configuration of \<open>NewFromEnvironmentWithLogger\<close>; the value of \<open>CINEKO_CHROME_PATH\<close> is an argument.\<close>

definition factoryConfig :: "string \<Rightarrow> string \<Rightarrow> BrowserConfig" where
  "factoryConfig dataDir chromeEnv =
    (let chromePath = TrimSpace chromeEnv in
     DefaultBrowserConfig\<lparr>bcProfileDir := JoinPath [dataDir, ''chrome-profile''], bcArtifactsDir := JoinPath [dataDir, ''artifacts''],
       bcChromePath := (if chromePath = [] then bcChromePath DefaultBrowserConfig else chromePath)\<rparr>)"

definition scanProfileRoot :: "string \<Rightarrow> string" where
  "scanProfileRoot profileDir = JoinPath [profileDir @ ''-tasks'', ''scans'']"

text \<open>The profile directory of a task and the directory to remove with it; the last argument is the random part of \<open>os.MkdirTemp\<close>.\<close>

definition profileForTask :: "string \<Rightarrow> browserTask \<Rightarrow> nat \<Rightarrow> string \<Rightarrow> string \<times> string option" where
  "profileForTask profileDir task slot random =
    (if btPurpose task = PurposeScan then
       (let path = JoinPath [scanProfileRoot profileDir, ''slot-'' @ Itoa (int slot) @ ''-'' @ random] in (path, Some path))
     else (profileDir, None))"


section \<open>State\<close>

definition defaultCapacity :: nat where "defaultCapacity = 3"
definition maximumSessionCapacity :: nat where "maximumSessionCapacity = 1"

text \<open>
  What an opening holds once it has a slot: the slot, the session token, the lease it must close
  (none when the lease is shared) and the profile directory it must remove.
\<close>

record held =
  hdSlot :: nat
  hdSession :: bool
  hdLease :: "nat option"
  hdProfile :: "string option"

datatype hook = PoolHook nat | FactoryHook held

text \<open>An adapter: whether it is closed, the hooks registered, and those a closing has still to run.\<close>

record Adapter =
  adClosed :: bool
  adHooks :: "hook list"
  adPending :: "hook list"

record BrowserPool =
  bpSlots :: nat
  bpActive :: "nat list"
  bpClosed :: bool
  bpOpenings :: nat

text \<open>Where a call of \<open>Open\<close> is; the last two are its returns.\<close>

datatype openPhase =
    AwaitSession browserTask
  | AwaitSlot browserTask bool
  | InSlot browserTask held
  | HasManager browserTask held nat
  | Renewing browserTask held nat "nat option"
  | Publishing browserTask held nat nat
  | Leased browserTask held
  | HasPool browserTask held
  | AwaitPool held
  | InPool held
  | Launching held
  | Launched held nat
  | Registered held nat
  | Adopted held nat
  | OpenReturned nat
  | OpenError goerr

text \<open>Where \<open>Close\<close> is, with the session lease it read and the adapters the pool has still to close.\<close>

datatype closer =
    NotClosing | ClosePool "nat option" | AwaitOpenings "nat list" "nat option" | CloseAdapters "nat list" "nat option"
  | CloseSession "nat option" | CloseReturned

text \<open>
  The factory. Managers and leases are numbered in the order they are made; \<open>fcLeases\<close> are the leases
  not closed yet and \<open>fcProfiles\<close> the temporary profile directories on disk.
\<close>

record Factory =
  fcProfileDir :: string
  fcSlots :: "nat list"
  fcSessions :: nat
  fcClosed :: bool
  fcEgress :: nat
  fcPool :: "BrowserPool option"
  fcSessionLease :: "(nat \<times> nat) option"
  fcNextLease :: nat
  fcLeases :: "nat list"
  fcProfiles :: "string list"
  fcAdapters :: "Adapter list"
  fcOpens :: "openPhase list"
  fcCloser :: closer

definition initialFactory :: "string \<Rightarrow> Factory" where
  "initialFactory profileDir =
    \<lparr>fcProfileDir = profileDir, fcSlots = [0..<defaultCapacity], fcSessions = maximumSessionCapacity, fcClosed = False, fcEgress = 0,
     fcPool = None, fcSessionLease = None, fcNextLease = 0, fcLeases = [], fcProfiles = [], fcAdapters = [], fcOpens = [],
     fcCloser = NotClosing\<rparr>"

definition NewFactory :: "bool \<Rightarrow> string \<Rightarrow> Factory result" where
  "NewFactory hasManager profileDir = (if hasManager then Inr (initialFactory profileDir) else Inl (errNew ''egress manager is required''))"

definition NewBrowserPool :: "int \<Rightarrow> BrowserPool" where
  "NewBrowserPool capacity = \<lparr>bpSlots = nat (if capacity < 1 then 1 else capacity), bpActive = [], bpClosed = False, bpOpenings = 0\<rparr>"


section \<open>Resources\<close>

definition goto :: "nat \<Rightarrow> openPhase \<Rightarrow> Factory \<Rightarrow> Factory" where
  "goto i p s = s\<lparr>fcOpens := (fcOpens s)[i := p]\<rparr>"

definition releaseHeld :: "held \<Rightarrow> Factory \<Rightarrow> Factory" where
  "releaseHeld h s =
    s\<lparr>fcLeases := (case hdLease h of None \<Rightarrow> fcLeases s | Some l \<Rightarrow> removeAll l (fcLeases s)),
      fcProfiles := (case hdProfile h of None \<Rightarrow> fcProfiles s | Some p \<Rightarrow> removeAll p (fcProfiles s)),
      fcSlots := fcSlots s @ [hdSlot h],
      fcSessions := fcSessions s + (if hdSession h then 1 else 0)\<rparr>"

definition failOpen :: "nat \<Rightarrow> goerr \<Rightarrow> held \<Rightarrow> Factory \<Rightarrow> Factory" where
  "failOpen i e h s = goto i (OpenError e) (releaseHeld h s)"

definition onPool :: "(BrowserPool \<Rightarrow> BrowserPool) \<Rightarrow> Factory \<Rightarrow> Factory" where
  "onPool f s = s\<lparr>fcPool := map_option f (fcPool s)\<rparr>"

definition putPoolSlot :: "BrowserPool \<Rightarrow> BrowserPool" where
  "putPoolSlot p = p\<lparr>bpSlots := bpSlots p + 1\<rparr>"

text \<open>\<open>releaseAdapter\<close> gives the slot back once.\<close>

definition releaseAdapter :: "nat \<Rightarrow> BrowserPool \<Rightarrow> BrowserPool" where
  "releaseAdapter a p = (if a \<in> set (bpActive p) then putPoolSlot (p\<lparr>bpActive := removeAll a (bpActive p)\<rparr>) else p)"

fun runHook :: "hook \<Rightarrow> Factory \<Rightarrow> Factory" where
  "runHook (PoolHook a) s = onPool (releaseAdapter a) s"
| "runHook (FactoryHook h) s = releaseHeld h s"

definition AddCloseHook :: "nat \<Rightarrow> hook \<Rightarrow> Factory \<Rightarrow> Factory" where
  "AddCloseHook a hook s =
    (let ad = fcAdapters s ! a in
     if \<not> adClosed ad then s\<lparr>fcAdapters := (fcAdapters s)[a := ad\<lparr>adHooks := adHooks ad @ [hook]\<rparr>]\<rparr>
     else runHook hook s)"

text \<open>
  \<open>Adapter.Close\<close>: the browser is stopped, then the hooks are taken, once; they run one after the
  other outside the lock, each a step of its own.
\<close>

definition takeHooks :: "nat \<Rightarrow> Factory \<Rightarrow> Factory" where
  "takeHooks a s =
    (let ad = fcAdapters s ! a in
     if adClosed ad then s else s\<lparr>fcAdapters := (fcAdapters s)[a := \<lparr>adClosed = True, adHooks = [], adPending = adHooks ad\<rparr>]\<rparr>)"

definition runPending :: "nat \<Rightarrow> Factory \<Rightarrow> Factory option" where
  "runPending a s =
    (let ad = fcAdapters s ! a in
     case adPending ad of
       [] \<Rightarrow> None
     | hook # rest \<Rightarrow> Some (runHook hook (s\<lparr>fcAdapters := (fcAdapters s)[a := ad\<lparr>adPending := rest\<rparr>]\<rparr>)))"


section \<open>Opening\<close>

definition initialHeld :: "nat \<Rightarrow> bool \<Rightarrow> held" where
  "initialHeld slot session = \<lparr>hdSlot = slot, hdSession = session, hdLease = None, hdProfile = None\<rparr>"

text \<open>The start of \<open>Open\<close>; an error of the context returns at once.\<close>

definition startOpen :: "browserTask \<Rightarrow> goerr option \<Rightarrow> openPhase" where
  "startOpen task ctxErr =
    (case ctxErr of
       Some e \<Rightarrow> OpenError e
     | None \<Rightarrow> if btPurpose task = PurposeSession then AwaitSession task else AwaitSlot task False)"

text \<open>The waits of \<open>Open\<close> and of \<open>NewAdapter\<close> when the context is done, and those of \<open>Open\<close> when the factory is.\<close>

definition cancelWait :: "nat \<Rightarrow> goerr \<Rightarrow> openPhase \<Rightarrow> Factory \<Rightarrow> Factory option" where
  "cancelWait i e phase s =
    (case phase of
       AwaitSession _ \<Rightarrow> Some (goto i (OpenError e) s)
     | AwaitSlot _ session \<Rightarrow> Some (goto i (OpenError e) (s\<lparr>fcSessions := fcSessions s + (if session then 1 else 0)\<rparr>))
     | AwaitPool h \<Rightarrow> Some (failOpen i e h s)
     | _ \<Rightarrow> None)"

definition refuseWait :: "nat \<Rightarrow> openPhase \<Rightarrow> Factory \<Rightarrow> Factory option" where
  "refuseWait i phase s =
    (if \<not> fcClosed s then None
     else case phase of
       AwaitSession _ \<Rightarrow> cancelWait i (Sentinel ErrClosed) phase s
     | AwaitSlot _ _ \<Rightarrow> cancelWait i (Sentinel ErrClosed) phase s
     | _ \<Rightarrow> None)"

definition takeSession :: "nat \<Rightarrow> openPhase \<Rightarrow> Factory \<Rightarrow> Factory option" where
  "takeSession i phase s =
    (case phase of
       AwaitSession task \<Rightarrow> if 0 < fcSessions s then Some (goto i (AwaitSlot task True) (s\<lparr>fcSessions := fcSessions s - 1\<rparr>)) else None
     | _ \<Rightarrow> None)"

definition takeSlot :: "nat \<Rightarrow> openPhase \<Rightarrow> Factory \<Rightarrow> Factory option" where
  "takeSlot i phase s =
    (case (phase, fcSlots s) of
       (AwaitSlot task session, slot # rest) \<Rightarrow> Some (goto i (InSlot task (initialHeld slot session)) (s\<lparr>fcSlots := rest\<rparr>))
     | _ \<Rightarrow> None)"

text \<open>\<open>openInSlot\<close> up to the manager: the check of the context and \<open>currentEgress\<close>.\<close>

definition enterSlot :: "nat \<Rightarrow> goerr option \<Rightarrow> openPhase \<Rightarrow> Factory \<Rightarrow> Factory option" where
  "enterSlot i ctxErr phase s =
    (case phase of
       InSlot task h \<Rightarrow>
         Some (case ctxErr of
             Some e \<Rightarrow> failOpen i e h s
           | None \<Rightarrow> if fcClosed s then failOpen i (Sentinel ErrClosed) h s else goto i (HasManager task h (fcEgress s)) s)
     | _ \<Rightarrow> None)"

definition takeLease :: "Factory \<Rightarrow> nat \<times> Factory" where
  "takeLease s = (fcNextLease s, s\<lparr>fcNextLease := fcNextLease s + 1, fcLeases := fcNextLease s # fcLeases s\<rparr>)"

text \<open>
  \<open>leaseForTask\<close>. A scan acquires a lease of its own. A session uses the factory's session lease while
  the manager is the same and the lease's context is not done; otherwise the field is cleared in this
  critical section, and the old lease is closed and a new one acquired outside it.
\<close>

definition leaseForTask :: "nat \<Rightarrow> bool \<Rightarrow> goerr option \<Rightarrow> openPhase \<Rightarrow> Factory \<Rightarrow> Factory option" where
  "leaseForTask i alive acquireErr phase s =
    (case phase of
       HasManager task h manager \<Rightarrow>
         Some (if btPurpose task \<noteq> PurposeSession then
             (case acquireErr of
                Some e \<Rightarrow> failOpen i e h s
              | None \<Rightarrow> (let (l, s1) = takeLease s in goto i (Leased task (h\<lparr>hdLease := Some l\<rparr>)) s1))
           else
             (case fcSessionLease s of
                Some (l, m) \<Rightarrow>
                  if m = manager \<and> alive then goto i (Leased task h) s
                  else goto i (Renewing task h manager (Some l)) (s\<lparr>fcSessionLease := None\<rparr>)
              | None \<Rightarrow> goto i (Renewing task h manager None) s))
     | _ \<Rightarrow> None)"

definition closeLease :: "nat option \<Rightarrow> Factory \<Rightarrow> Factory" where
  "closeLease lease s = (case lease of None \<Rightarrow> s | Some l \<Rightarrow> s\<lparr>fcLeases := removeAll l (fcLeases s)\<rparr>)"

definition renewLease :: "nat \<Rightarrow> goerr option \<Rightarrow> openPhase \<Rightarrow> Factory \<Rightarrow> Factory option" where
  "renewLease i acquireErr phase s =
    (case phase of
       Renewing task h manager old \<Rightarrow>
         (let s0 = closeLease old s in
          Some (case acquireErr of
              Some e \<Rightarrow> failOpen i e h s0
            | None \<Rightarrow> (let (l, s1) = takeLease s0 in goto i (Publishing task h manager l) s1)))
     | _ \<Rightarrow> None)"

definition publishLease :: "nat \<Rightarrow> openPhase \<Rightarrow> Factory \<Rightarrow> Factory option" where
  "publishLease i phase s =
    (case phase of
       Publishing task h manager l \<Rightarrow>
         Some (if fcClosed s then failOpen i (Sentinel ErrClosed) h (closeLease (Some l) s)
               else goto i (Leased task h) (s\<lparr>fcSessionLease := Some (l, manager)\<rparr>))
     | _ \<Rightarrow> None)"

text \<open>\<open>browserPool\<close>, made with the capacity of the factory the first time.\<close>

definition browserPool :: "nat \<Rightarrow> goerr option \<Rightarrow> openPhase \<Rightarrow> Factory \<Rightarrow> Factory option" where
  "browserPool i poolErr phase s =
    (case phase of
       Leased task h \<Rightarrow>
         Some (if fcClosed s then failOpen i (Sentinel ErrClosed) h s
           else case fcPool s of
               Some _ \<Rightarrow> goto i (HasPool task h) s
             | None \<Rightarrow>
                 (case poolErr of
                    Some e \<Rightarrow> failOpen i e h s
                  | None \<Rightarrow> goto i (HasPool task h) (s\<lparr>fcPool := Some (NewBrowserPool (int defaultCapacity))\<rparr>)))
     | _ \<Rightarrow> None)"

text \<open>The profile; \<open>os.MkdirTemp\<close> makes a directory that did not exist.\<close>

definition makeProfile :: "nat \<Rightarrow> string result \<Rightarrow> openPhase \<Rightarrow> Factory \<Rightarrow> Factory option" where
  "makeProfile i random phase s =
    (case phase of
       HasPool task h \<Rightarrow>
         (if btPurpose task \<noteq> PurposeScan then Some (goto i (AwaitPool h) s)
          else case random of
              Inl e \<Rightarrow> Some (failOpen i e h s)
            | Inr r \<Rightarrow>
                (case snd (profileForTask (fcProfileDir s) task (hdSlot h) r) of
                   Some path \<Rightarrow>
                     if path \<in> set (fcProfiles s) then None
                     else Some (goto i (AwaitPool (h\<lparr>hdProfile := Some path\<rparr>)) (s\<lparr>fcProfiles := path # fcProfiles s\<rparr>))
                 | None \<Rightarrow> None))
     | _ \<Rightarrow> None)"

text \<open>
  \<open>BrowserPool.NewAdapter\<close>: a slot of the pool, the preparation with the check for a closed pool, the
  launch, the registration and the pool's hook.
\<close>

definition takePoolSlot :: "nat \<Rightarrow> openPhase \<Rightarrow> Factory \<Rightarrow> Factory option" where
  "takePoolSlot i phase s =
    (case (phase, fcPool s) of
       (AwaitPool h, Some p) \<Rightarrow> if 0 < bpSlots p then Some (goto i (InPool h) (onPool (\<lambda>p. p\<lparr>bpSlots := bpSlots p - 1\<rparr>) s)) else None
     | _ \<Rightarrow> None)"

definition poolIsClosed :: goerr where
  "poolIsClosed = errNew ''browser pool is closed''"

definition failInPool :: "nat \<Rightarrow> goerr \<Rightarrow> held \<Rightarrow> Factory \<Rightarrow> Factory" where
  "failInPool i e h s = failOpen i e h (onPool putPoolSlot s)"

definition enterPool :: "nat \<Rightarrow> goerr option \<Rightarrow> openPhase \<Rightarrow> Factory \<Rightarrow> Factory option" where
  "enterPool i prepareErr phase s =
    (case (phase, fcPool s) of
       (InPool h, Some p) \<Rightarrow>
         Some (case prepareErr of
             Some e \<Rightarrow> failInPool i e h s
           | None \<Rightarrow>
               if bpClosed p then failInPool i poolIsClosed h s
               else goto i (Launching h) (onPool (\<lambda>p. p\<lparr>bpOpenings := bpOpenings p + 1\<rparr>) s))
     | _ \<Rightarrow> None)"

definition openingDone :: "BrowserPool \<Rightarrow> BrowserPool" where
  "openingDone p = p\<lparr>bpOpenings := bpOpenings p - 1\<rparr>"

definition launch :: "nat \<Rightarrow> goerr option \<Rightarrow> openPhase \<Rightarrow> Factory \<Rightarrow> Factory option" where
  "launch i launchErr phase s =
    (case phase of
       Launching h \<Rightarrow>
         Some (case launchErr of
             Some e \<Rightarrow> failInPool i e h (onPool openingDone s)
           | None \<Rightarrow> goto i (Launched h (length (fcAdapters s)))
                       (s\<lparr>fcAdapters := fcAdapters s @ [\<lparr>adClosed = False, adHooks = [], adPending = []\<rparr>]\<rparr>))
     | _ \<Rightarrow> None)"

definition registerAdapter :: "nat \<Rightarrow> openPhase \<Rightarrow> Factory \<Rightarrow> Factory option" where
  "registerAdapter i phase s =
    (case (phase, fcPool s) of
       (Launched h a, Some p) \<Rightarrow>
         Some (if bpClosed p then failInPool i poolIsClosed h (onPool openingDone (takeHooks a s))
               else goto i (Registered h a) (onPool (\<lambda>p. p\<lparr>bpActive := a # bpActive p\<rparr>) s))
     | _ \<Rightarrow> None)"

definition hookPool :: "nat \<Rightarrow> openPhase \<Rightarrow> Factory \<Rightarrow> Factory option" where
  "hookPool i phase s =
    (case phase of
       Registered h a \<Rightarrow> Some (goto i (Adopted h a) (onPool openingDone (AddCloseHook a (PoolHook a) s)))
     | _ \<Rightarrow> None)"

text \<open>The end of \<open>openInSlot\<close>: what the opening holds passes to the closing of the adapter.\<close>

definition hookFactory :: "nat \<Rightarrow> openPhase \<Rightarrow> Factory \<Rightarrow> Factory option" where
  "hookFactory i phase s =
    (case phase of
       Adopted h a \<Rightarrow> Some (goto i (OpenReturned a) (AddCloseHook a (FactoryHook h) s))
     | _ \<Rightarrow> None)"


section \<open>Reconfiguring and closing\<close>

definition ConfigureEgress :: "goerr option \<Rightarrow> Factory \<Rightarrow> goerr option \<times> Factory" where
  "ConfigureEgress configErr s =
    (case configErr of
       Some e \<Rightarrow> (Some e, s)
     | None \<Rightarrow> if fcClosed s then (Some (Sentinel ErrClosed), s) else (None, s\<lparr>fcEgress := fcEgress s + 1\<rparr>))"

definition beginClose :: "Factory \<Rightarrow> Factory option" where
  "beginClose s =
    (case fcCloser s of
       NotClosing \<Rightarrow> Some (let lease = map_option fst (fcSessionLease s) in
         s\<lparr>fcClosed := True, fcCloser := (if fcPool s = None then CloseSession lease else ClosePool lease)\<rparr>)
     | _ \<Rightarrow> None)"

text \<open>\<open>BrowserPool.Close\<close>, then the session lease.\<close>

definition continueClose :: "Factory \<Rightarrow> Factory option" where
  "continueClose s =
    (case (fcCloser s, fcPool s) of
       (ClosePool lease, Some p) \<Rightarrow> Some (onPool (\<lambda>p. p\<lparr>bpClosed := True\<rparr>) (s\<lparr>fcCloser := AwaitOpenings (bpActive p) lease\<rparr>))
     | (AwaitOpenings as lease, Some p) \<Rightarrow> if bpOpenings p = 0 then Some (s\<lparr>fcCloser := CloseAdapters as lease\<rparr>) else None
     | (CloseAdapters [] lease, _) \<Rightarrow> Some (s\<lparr>fcCloser := CloseSession lease\<rparr>)
     | (CloseAdapters (a # as) lease, _) \<Rightarrow>
         (let s1 = takeHooks a s in
          Some (if adPending (fcAdapters s1 ! a) = [] then s1\<lparr>fcCloser := CloseAdapters as lease\<rparr> else s1))
     | (CloseSession lease, _) \<Rightarrow> Some (closeLease lease (s\<lparr>fcCloser := CloseReturned\<rparr>))
     | _ \<Rightarrow> None)"


section \<open>Steps\<close>

datatype factoryEvent =
    OpenCalled browserTask "goerr option" | WaitCancelled nat goerr | WaitRefused nat | SessionTaken nat | SlotTaken nat
  | SlotEntered nat "goerr option" | LeaseAsked nat bool "goerr option" | LeaseRenewed nat "goerr option" | LeasePublished nat
  | PoolAsked nat "goerr option" | ProfileMade nat "string result" | PoolSlotTaken nat | PoolEntered nat "goerr option"
  | BrowserLaunched nat "goerr option" | AdapterRegistered nat | PoolHooked nat | FactoryHooked nat
  | AdapterClosed nat | HookRun nat | Configured "goerr option" | CloseBegun | CloseContinued

definition atOpen :: "nat \<Rightarrow> (openPhase \<Rightarrow> Factory \<Rightarrow> Factory option) \<Rightarrow> Factory \<Rightarrow> Factory option" where
  "atOpen i f s = (if i < length (fcOpens s) then f (fcOpens s ! i) s else None)"

fun factoryStep :: "factoryEvent \<Rightarrow> Factory \<Rightarrow> Factory option" where
  "factoryStep (OpenCalled task e) s = Some (s\<lparr>fcOpens := fcOpens s @ [startOpen task e]\<rparr>)"
| "factoryStep (WaitCancelled i e) s = atOpen i (cancelWait i e) s"
| "factoryStep (WaitRefused i) s = atOpen i (refuseWait i) s"
| "factoryStep (SessionTaken i) s = atOpen i (takeSession i) s"
| "factoryStep (SlotTaken i) s = atOpen i (takeSlot i) s"
| "factoryStep (SlotEntered i e) s = atOpen i (enterSlot i e) s"
| "factoryStep (LeaseAsked i alive e) s = atOpen i (leaseForTask i alive e) s"
| "factoryStep (LeaseRenewed i e) s = atOpen i (renewLease i e) s"
| "factoryStep (LeasePublished i) s = atOpen i (publishLease i) s"
| "factoryStep (PoolAsked i e) s = atOpen i (browserPool i e) s"
| "factoryStep (ProfileMade i r) s = atOpen i (makeProfile i r) s"
| "factoryStep (PoolSlotTaken i) s = atOpen i (takePoolSlot i) s"
| "factoryStep (PoolEntered i e) s = atOpen i (enterPool i e) s"
| "factoryStep (BrowserLaunched i e) s = atOpen i (launch i e) s"
| "factoryStep (AdapterRegistered i) s = atOpen i (registerAdapter i) s"
| "factoryStep (PoolHooked i) s = atOpen i (hookPool i) s"
| "factoryStep (FactoryHooked i) s = atOpen i (hookFactory i) s"
| "factoryStep (AdapterClosed a) s = (if a < length (fcAdapters s) then Some (takeHooks a s) else None)"
| "factoryStep (HookRun a) s = (if a < length (fcAdapters s) then runPending a s else None)"
| "factoryStep (Configured e) s = Some (snd (ConfigureEgress e s))"
| "factoryStep CloseBegun s = beginClose s"
| "factoryStep CloseContinued s = continueClose s"

inductive factoryReachable :: "Factory \<Rightarrow> Factory \<Rightarrow> bool" for start where
  refl: "factoryReachable start start"
| step: "factoryReachable start s \<Longrightarrow> factoryStep ev s = Some s' \<Longrightarrow> factoryReachable start s'"

section \<open>Adapters exist before they are used\<close>

lemma goto_fields [simp]:
  "fcSlots (goto i p s) = fcSlots s" "fcSessions (goto i p s) = fcSessions s" "fcClosed (goto i p s) = fcClosed s"
  "fcEgress (goto i p s) = fcEgress s" "fcPool (goto i p s) = fcPool s" "fcSessionLease (goto i p s) = fcSessionLease s"
  "fcNextLease (goto i p s) = fcNextLease s" "fcLeases (goto i p s) = fcLeases s" "fcProfiles (goto i p s) = fcProfiles s"
  "fcAdapters (goto i p s) = fcAdapters s" "fcOpens (goto i p s) = (fcOpens s)[i := p]" "fcCloser (goto i p s) = fcCloser s"
  by (simp_all add: goto_def)

lemma releaseHeld_fields [simp]:
  "fcClosed (releaseHeld h s) = fcClosed s" "fcEgress (releaseHeld h s) = fcEgress s" "fcPool (releaseHeld h s) = fcPool s"
  "fcSessionLease (releaseHeld h s) = fcSessionLease s" "fcAdapters (releaseHeld h s) = fcAdapters s"
  "fcOpens (releaseHeld h s) = fcOpens s" "fcCloser (releaseHeld h s) = fcCloser s"
  by (simp_all add: releaseHeld_def)

lemma onPool_fields [simp]:
  "fcSlots (onPool f s) = fcSlots s" "fcSessions (onPool f s) = fcSessions s" "fcClosed (onPool f s) = fcClosed s"
  "fcPool (onPool f s) = map_option f (fcPool s)" "fcSessionLease (onPool f s) = fcSessionLease s"
  "fcLeases (onPool f s) = fcLeases s" "fcProfiles (onPool f s) = fcProfiles s"
  "fcAdapters (onPool f s) = fcAdapters s" "fcOpens (onPool f s) = fcOpens s" "fcCloser (onPool f s) = fcCloser s"
  by (simp_all add: onPool_def)

lemma closeLease_fields [simp]:
  "fcClosed (closeLease l s) = fcClosed s" "fcPool (closeLease l s) = fcPool s" "fcSessionLease (closeLease l s) = fcSessionLease s"
  "fcProfiles (closeLease l s) = fcProfiles s" "fcAdapters (closeLease l s) = fcAdapters s" "fcOpens (closeLease l s) = fcOpens s" "fcCloser (closeLease l s) = fcCloser s"
  by (simp_all add: closeLease_def split: option.split)

lemma runHook_fields [simp]:
  "fcClosed (runHook k s) = fcClosed s" "fcSessionLease (runHook k s) = fcSessionLease s" "fcAdapters (runHook k s) = fcAdapters s"
  "fcOpens (runHook k s) = fcOpens s" "fcCloser (runHook k s) = fcCloser s"
  by (cases k; simp)+

lemma AddCloseHook_fields [simp]:
  "fcOpens (AddCloseHook a k s) = fcOpens s" "fcCloser (AddCloseHook a k s) = fcCloser s" "fcSessionLease (AddCloseHook a k s) = fcSessionLease s"
  "fcClosed (AddCloseHook a k s) = fcClosed s" "length (fcAdapters (AddCloseHook a k s)) = length (fcAdapters s)"
  by (simp_all add: AddCloseHook_def Let_def)

lemma takeHooks_fields [simp]:
  "fcSlots (takeHooks a s) = fcSlots s" "fcSessions (takeHooks a s) = fcSessions s" "fcClosed (takeHooks a s) = fcClosed s"
  "fcPool (takeHooks a s) = fcPool s" "fcSessionLease (takeHooks a s) = fcSessionLease s"
  "fcLeases (takeHooks a s) = fcLeases s" "fcProfiles (takeHooks a s) = fcProfiles s"
  "fcOpens (takeHooks a s) = fcOpens s" "fcCloser (takeHooks a s) = fcCloser s" "length (fcAdapters (takeHooks a s)) = length (fcAdapters s)"
  by (simp_all add: takeHooks_def Let_def)

fun adapterOf :: "openPhase \<Rightarrow> nat option" where
  "adapterOf (Launched _ a) = Some a"
| "adapterOf (Registered _ a) = Some a"
| "adapterOf (Adopted _ a) = Some a"
| "adapterOf (OpenReturned a) = Some a"
| "adapterOf _ = None"

fun closerAdapters :: "closer \<Rightarrow> nat list" where
  "closerAdapters (AwaitOpenings as _) = as"
| "closerAdapters (CloseAdapters as _) = as"
| "closerAdapters _ = []"

definition adapterOk :: "Adapter \<Rightarrow> bool" where
  "adapterOk ad \<longleftrightarrow> (adClosed ad \<longrightarrow> adHooks ad = []) \<and> (\<not> adClosed ad \<longrightarrow> adPending ad = [])"

definition factoryWf :: "Factory \<Rightarrow> bool" where
  "factoryWf s \<longleftrightarrow> (\<forall>ad \<in> set (fcAdapters s). adapterOk ad)
    \<and> (\<forall>p \<in> set (fcOpens s). \<forall>a. adapterOf p = Some a \<longrightarrow> a < length (fcAdapters s))
    \<and> (\<forall>a \<in> set (closerAdapters (fcCloser s)). a < length (fcAdapters s))
    \<and> (\<forall>p. fcPool s = Some p \<longrightarrow> (\<forall>a \<in> set (bpActive p). a < length (fcAdapters s)))"

text \<open>The definitions of the steps of an opening, of a closing and of the resources they use.\<close>

lemmas opening_defs = cancelWait_def refuseWait_def takeSession_def takeSlot_def enterSlot_def
lemmas leasing_defs = leaseForTask_def renewLease_def publishLease_def takeLease_def
lemmas pooling_defs = browserPool_def makeProfile_def takePoolSlot_def enterPool_def launch_def registerAdapter_def hookPool_def hookFactory_def
lemmas failing_defs = failOpen_def failInPool_def
lemmas closing_defs = ConfigureEgress_def beginClose_def continueClose_def

lemma atOpenE:
  assumes "atOpen i f s = Some s'"
  obtains "i < length (fcOpens s)" "f (fcOpens s ! i) s = Some s'" "fcOpens s ! i \<in> set (fcOpens s)"
  using assms by (auto simp: atOpen_def split: if_splits)

lemma releaseAdapter_active: "set (bpActive (releaseAdapter a p)) \<subseteq> set (bpActive p)"
  by (auto simp: releaseAdapter_def putPoolSlot_def)

lemma wf_runHook:
  assumes "factoryWf s" shows "factoryWf (runHook k s)"
proof (cases k)
  case (PoolHook a)
  have "\<forall>b \<in> set (bpActive (releaseAdapter a p)). b < length (fcAdapters s)" if "fcPool s = Some p" for p
    using assms that releaseAdapter_active[of a p] by (auto simp: factoryWf_def)
  then show ?thesis using assms by (auto simp: PoolHook factoryWf_def)
next
  case (FactoryHook h)
  then show ?thesis using assms by (simp add: factoryWf_def)
qed

lemma adapters_update_ok:
  "\<forall>ad \<in> set ads. adapterOk ad \<Longrightarrow> adapterOk ad' \<Longrightarrow> \<forall>ad \<in> set (ads[a := ad']). adapterOk ad"
  using set_update_subset_insert[of ads a ad'] by blast

lemma wf_adapters:
  assumes "factoryWf s" "adapterOk ad" shows "factoryWf (s\<lparr>fcAdapters := (fcAdapters s)[a := ad]\<rparr>)"
  using assms adapters_update_ok[of "fcAdapters s" ad a] by (simp add: factoryWf_def)

lemma wf_goto:
  assumes "factoryWf s" "\<forall>a. adapterOf p = Some a \<longrightarrow> a < length (fcAdapters s)" shows "factoryWf (goto i p s)"
  using assms set_update_subset_insert[of "fcOpens s" i p] by (fastforce simp: factoryWf_def)

lemma wf_takeHooks: "factoryWf s \<Longrightarrow> factoryWf (takeHooks a s)"
  by (simp add: takeHooks_def Let_def wf_adapters adapterOk_def)

lemma wf_AddCloseHook:
  assumes "factoryWf s" "a < length (fcAdapters s)" shows "factoryWf (AddCloseHook a k s)"
  using assms nth_mem[OF assms(2)]
  by (auto simp: AddCloseHook_def Let_def wf_runHook intro!: wf_adapters) (auto simp: factoryWf_def adapterOk_def)

lemma wf_fields [simp]:
  "factoryWf (s\<lparr>fcSlots := a\<rparr>) = factoryWf s" "factoryWf (s\<lparr>fcSessions := b\<rparr>) = factoryWf s"
  "factoryWf (s\<lparr>fcSessionLease := c\<rparr>) = factoryWf s" "factoryWf (s\<lparr>fcNextLease := n\<rparr>) = factoryWf s"
  "factoryWf (s\<lparr>fcLeases := ls\<rparr>) = factoryWf s" "factoryWf (s\<lparr>fcProfiles := ps\<rparr>) = factoryWf s" "factoryWf (s\<lparr>fcEgress := e\<rparr>) = factoryWf s"
  "factoryWf (releaseHeld h s) = factoryWf s" "factoryWf (closeLease l s) = factoryWf s"
  by (simp_all add: factoryWf_def)

lemma wf_onPool:
  assumes "factoryWf s" "\<And>p. fcPool s = Some p \<Longrightarrow> \<forall>a \<in> set (bpActive (f p)). a < length (fcAdapters s)"
  shows "factoryWf (onPool f s)"
  using assms by (auto simp: factoryWf_def)

lemma wf_onPool_same:
  assumes "factoryWf s" "\<And>p. bpActive (f p) = bpActive p" shows "factoryWf (onPool f s)"
  using assms by (intro wf_onPool) (auto simp: factoryWf_def)

lemma wf_openingDone [simp]: "factoryWf s \<Longrightarrow> factoryWf (onPool openingDone s)"
  by (rule wf_onPool_same) (simp_all add: openingDone_def)

lemma wf_fail [simp]: "factoryWf s \<Longrightarrow> factoryWf (failOpen i e h s)"
  by (simp add: failOpen_def wf_goto)

lemma wf_failInPool [simp]: "factoryWf s \<Longrightarrow> factoryWf (failInPool i e h s)"
  by (simp add: failInPool_def wf_onPool_same putPoolSlot_def)

lemma wf_opening:
  assumes "factoryWf s" "f (fcOpens s ! i) s = Some s'"
    "f = cancelWait i e \<or> f = refuseWait i \<or> f = takeSession i \<or> f = takeSlot i \<or> f = enterSlot i ce"
  shows "factoryWf s'"
  using assms by (cases "fcOpens s ! i") (auto simp: opening_defs wf_goto split: if_splits option.splits list.splits)

lemma wf_leasing:
  assumes "factoryWf s" "f (fcOpens s ! i) s = Some s'"
    "f = leaseForTask i alive ce \<or> f = renewLease i ce \<or> f = publishLease i"
  shows "factoryWf s'"
  using assms by (cases "fcOpens s ! i") (auto simp: leasing_defs wf_goto Let_def split: if_splits option.splits prod.splits)

lemma wf_pooling:
  assumes "factoryWf s" "f (fcOpens s ! i) s = Some s'"
    "f = browserPool i ce \<or> f = makeProfile i r \<or> f = takePoolSlot i \<or> f = enterPool i ce"
  shows "factoryWf s'"
proof -
  have new: "factoryWf (s\<lparr>fcPool := Some (NewBrowserPool n)\<rparr>)" for n using assms(1) by (simp add: factoryWf_def NewBrowserPool_def)
  show ?thesis using assms new
    by (cases "fcOpens s ! i") (auto simp: pooling_defs wf_goto wf_onPool_same split: if_splits option.splits sum.splits)
qed

lemma wf_launch:
  assumes "factoryWf s" "launch i ce (fcOpens s ! i) s = Some s'" shows "factoryWf s'"
proof -
  have new: "factoryWf (s\<lparr>fcAdapters := fcAdapters s @ [\<lparr>adClosed = False, adHooks = [], adPending = []\<rparr>]\<rparr>)"
    using assms(1) by (fastforce simp: factoryWf_def adapterOk_def)
  show ?thesis using assms new
    by (cases "fcOpens s ! i") (auto simp: launch_def wf_goto split: option.splits)
qed

lemma wf_hooking:
  assumes "factoryWf s" "fcOpens s ! i \<in> set (fcOpens s)" "f (fcOpens s ! i) s = Some s'"
    "f = registerAdapter i \<or> f = hookPool i \<or> f = hookFactory i"
  shows "factoryWf s'"
proof -
  have a: "adapterOf (fcOpens s ! i) = Some a \<Longrightarrow> a < length (fcAdapters s)" for a using assms(1,2) by (auto simp: factoryWf_def)
  have act: "fcPool s = Some p \<Longrightarrow> \<forall>a \<in> set (bpActive p). a < length (fcAdapters s)" for p using assms(1) by (auto simp: factoryWf_def)
  show ?thesis
  proof (cases "fcOpens s ! i")
    case (Launched h x)
    then show ?thesis using assms a act
      by (auto simp: registerAdapter_def hookPool_def hookFactory_def wf_takeHooks split: option.splits if_splits
          intro!: wf_goto wf_onPool)
  next
    case (Registered h x)
    then show ?thesis using assms a
      by (auto simp: registerAdapter_def hookPool_def hookFactory_def intro!: wf_goto wf_openingDone wf_AddCloseHook)
  next
    case (Adopted h x)
    then show ?thesis using assms a
      by (auto simp: registerAdapter_def hookPool_def hookFactory_def intro!: wf_goto wf_AddCloseHook)
  qed (use assms in \<open>auto simp: registerAdapter_def hookPool_def hookFactory_def\<close>)
qed

lemma wf_closing:
  assumes "factoryWf s" "continueClose s = Some s'" shows "factoryWf s'"
proof -
  have closer: "factoryWf (s1\<lparr>fcCloser := c\<rparr>)" if "factoryWf s1" "\<forall>a \<in> set (closerAdapters c). a < length (fcAdapters s1)" for s1 c
    using that by (simp add: factoryWf_def)
  show ?thesis
  proof (cases "fcCloser s")
    case (ClosePool lease)
    then show ?thesis using assms by (auto simp: continueClose_def factoryWf_def split: option.splits)
  next
    case (AwaitOpenings as lease)
    then show ?thesis using assms by (auto simp: continueClose_def factoryWf_def split: option.splits if_splits)
  next
    case (CloseAdapters as lease)
    then have "\<forall>a \<in> set as. a < length (fcAdapters s)" using assms(1) by (simp add: factoryWf_def)
    then show ?thesis using assms CloseAdapters
      by (cases as) (auto simp: continueClose_def Let_def wf_takeHooks intro!: closer)
  qed (use assms in \<open>auto simp: continueClose_def intro!: closer\<close>)
qed

lemma factoryStep_wf:
  assumes "factoryStep ev s = Some s'" "factoryWf s"
  shows "factoryWf s'"
proof (cases ev)
  case (OpenCalled t e)
  then show ?thesis using assms by (auto simp: factoryWf_def startOpen_def split: option.splits if_splits)
next
  case (HookRun a)
  then obtain k rest where "a < length (fcAdapters s)" "adPending (fcAdapters s ! a) = k # rest"
    "s' = runHook k (s\<lparr>fcAdapters := (fcAdapters s)[a := (fcAdapters s ! a)\<lparr>adPending := rest\<rparr>]\<rparr>)"
    using assms(1) by (auto simp: runPending_def Let_def split: if_splits list.splits)
  moreover have "adapterOk (fcAdapters s ! a)" using calculation(1) assms(2) by (simp add: factoryWf_def)
  ultimately show ?thesis using assms(2) by (auto simp: adapterOk_def intro!: wf_runHook wf_adapters)
next
  case CloseBegun
  then show ?thesis using assms by (auto simp: beginClose_def factoryWf_def Let_def split: closer.splits if_splits)
qed (use assms in \<open>auto elim!: atOpenE simp: ConfigureEgress_def split: if_splits option.splits
    dest: wf_opening wf_leasing wf_pooling wf_launch wf_hooking wf_closing wf_takeHooks\<close>)

section \<open>Slots and the session token are conserved\<close>

fun heldOf :: "openPhase \<Rightarrow> held option" where
  "heldOf (InSlot _ h) = Some h"
| "heldOf (HasManager _ h _) = Some h"
| "heldOf (Renewing _ h _ _) = Some h"
| "heldOf (Publishing _ h _ _) = Some h"
| "heldOf (Leased _ h) = Some h"
| "heldOf (HasPool _ h) = Some h"
| "heldOf (AwaitPool h) = Some h"
| "heldOf (InPool h) = Some h"
| "heldOf (Launching h) = Some h"
| "heldOf (Launched h _) = Some h"
| "heldOf (Registered h _) = Some h"
| "heldOf (Adopted h _) = Some h"
| "heldOf _ = None"

fun hookHeld :: "hook \<Rightarrow> held option" where
  "hookHeld (PoolHook _) = None"
| "hookHeld (FactoryHook h) = Some h"

definition allHooks :: "Adapter \<Rightarrow> hook list" where
  "allHooks ad = adHooks ad @ adPending ad"

lemma allHooks_simps [simp]:
  "allHooks \<lparr>adClosed = c, adHooks = xs, adPending = ys\<rparr> = xs @ ys"
  "allHooks (ad\<lparr>adHooks := xs\<rparr>) = xs @ adPending ad" "allHooks (ad\<lparr>adPending := ys\<rparr>) = adHooks ad @ ys"
  by (simp_all add: allHooks_def)

lemma sum_list_map_update:
  fixes f :: "'a \<Rightarrow> 'm :: cancel_comm_monoid_add"
  assumes "i < length xs"
  shows "sum_list (map f (xs[i := x])) + f (xs ! i) = sum_list (map f xs) + f x"
  using assms
proof (induction xs arbitrary: i)
  case (Cons y ys)
  then show ?case by (cases i) (simp_all add: ac_simps)
qed simp

text \<open>
  A resource that travels from the factory to an opening, from there to the hook of an adapter and
  back: what is free, what a holder of a slot has of it and what a wait for a slot has of it. Every
  step then keeps the total.
\<close>

locale resource =
  fixes free :: "nat list \<Rightarrow> nat \<Rightarrow> 'm :: cancel_comm_monoid_add"
    and weight :: "held \<Rightarrow> 'm"
    and waiting :: "bool \<Rightarrow> 'm"
  assumes free_release: "free (slots @ [hdSlot h]) (n + (if hdSession h then 1 else 0)) = free slots n + weight h"
    and weight_lease: "weight (h\<lparr>hdLease := l\<rparr>) = weight h"
    and weight_profile: "weight (h\<lparr>hdProfile := p\<rparr>) = weight h"
    and waiting_False: "waiting False = 0"
    and free_session: "free slots (Suc n) = free slots n + waiting True"
    and free_slot: "free (slot # slots) n + waiting b = free slots n + weight (initialHeld slot b)"
begin

definition ofHeld :: "held option \<Rightarrow> 'm" where
  "ofHeld h = (case h of None \<Rightarrow> 0 | Some x \<Rightarrow> weight x)"

definition ofPhase :: "openPhase \<Rightarrow> 'm" where
  "ofPhase p = (case p of AwaitSlot _ b \<Rightarrow> waiting b | _ \<Rightarrow> ofHeld (heldOf p))"

definition ofAdapter :: "Adapter \<Rightarrow> 'm" where
  "ofAdapter ad = sum_list (map (\<lambda>hook. ofHeld (hookHeld hook)) (allHooks ad))"

definition total :: "Factory \<Rightarrow> 'm" where
  "total s = free (fcSlots s) (fcSessions s) + sum_list (map ofPhase (fcOpens s)) + sum_list (map ofAdapter (fcAdapters s))"

lemma ofHeld_simps [simp]: "ofHeld None = 0" "ofHeld (Some h) = weight h"
  by (simp_all add: ofHeld_def)

lemma total_fields [simp]:
  "total (s\<lparr>fcPool := a\<rparr>) = total s" "total (s\<lparr>fcSessionLease := b\<rparr>) = total s" "total (s\<lparr>fcNextLease := n\<rparr>) = total s"
  "total (s\<lparr>fcLeases := ls\<rparr>) = total s" "total (s\<lparr>fcProfiles := ps\<rparr>) = total s" "total (s\<lparr>fcEgress := e\<rparr>) = total s"
  "total (s\<lparr>fcCloser := c\<rparr>) = total s" "total (s\<lparr>fcClosed := d, fcCloser := c\<rparr>) = total s" "total (onPool f s) = total s"
  "total (closeLease l s) = total s"
  by (simp_all add: total_def onPool_def closeLease_def split: option.split)

lemma total_goto:
  assumes "i < length (fcOpens s)"
  shows "total (goto i p s) + ofPhase (fcOpens s ! i) = total s + ofPhase p"
  using sum_list_map_update[OF assms, of ofPhase p] by (simp add: total_def goto_def add.assoc add.left_commute add.commute)

lemma total_goto_same:
  assumes "i < length (fcOpens s)" "ofPhase p = ofPhase (fcOpens s ! i)"
  shows "total (goto i p s) = total s"
  using total_goto[OF assms(1), of p] assms(2) by simp

lemma total_release: "total (releaseHeld h s) = total s + weight h"
  by (simp add: total_def releaseHeld_def free_release ac_simps)

lemma total_fail:
  assumes "i < length (fcOpens s)" "heldOf (fcOpens s ! i) = Some h"
  shows "total (failOpen i e h s) = total s"
proof -
  have "ofPhase (fcOpens s ! i) = weight h" using assms(2) by (cases "fcOpens s ! i") (simp_all add: ofPhase_def)
  then show ?thesis using total_goto[of i "releaseHeld h s" "OpenError e"] assms(1)
    by (simp add: failOpen_def total_release ofPhase_def[of "OpenError e"])
qed

lemma total_adapter:
  assumes "a < length (fcAdapters s)"
  shows "total (s\<lparr>fcAdapters := (fcAdapters s)[a := ad]\<rparr>) + ofAdapter (fcAdapters s ! a) = total s + ofAdapter ad"
  using sum_list_map_update[OF assms, of ofAdapter ad] by (simp add: total_def add.assoc)

lemma total_runHook: "total (runHook hook s) = total s + ofHeld (hookHeld hook)"
  by (cases hook) (simp_all add: total_release)

lemma total_addHook:
  assumes "a < length (fcAdapters s)"
  shows "total (AddCloseHook a hook s) = total s + ofHeld (hookHeld hook)"
proof (cases "adClosed (fcAdapters s ! a)")
  case False
  let ?ad = "fcAdapters s ! a"
  have "ofAdapter (?ad\<lparr>adHooks := adHooks ?ad @ [hook]\<rparr>) = ofHeld (hookHeld hook) + ofAdapter ?ad"
    by (simp add: ofAdapter_def allHooks_def ac_simps)
  with total_adapter[OF assms, of "?ad\<lparr>adHooks := adHooks ?ad @ [hook]\<rparr>"]
  have "total (AddCloseHook a hook s) + ofAdapter ?ad = (total s + ofHeld (hookHeld hook)) + ofAdapter ?ad"
    using False by (simp add: AddCloseHook_def Let_def add.assoc)
  then show ?thesis by simp
qed (simp add: AddCloseHook_def Let_def total_runHook)

lemma total_takeHooks:
  assumes "a < length (fcAdapters s)" "adapterOk (fcAdapters s ! a)"
  shows "total (takeHooks a s) = total s"
  using total_adapter[OF assms(1), of "\<lparr>adClosed = True, adHooks = [], adPending = adHooks (fcAdapters s ! a)\<rparr>"] assms(2)
  by (auto simp: takeHooks_def Let_def ofAdapter_def allHooks_def adapterOk_def)

lemma total_runPending:
  assumes "a < length (fcAdapters s)" "runPending a s = Some s'"
  shows "total s' = total s"
proof -
  obtain hook rest where p: "adPending (fcAdapters s ! a) = hook # rest"
    and s': "s' = runHook hook (s\<lparr>fcAdapters := (fcAdapters s)[a := (fcAdapters s ! a)\<lparr>adPending := rest\<rparr>]\<rparr>)"
    using assms(2) by (auto simp: runPending_def Let_def split: list.splits)
  let ?s1 = "s\<lparr>fcAdapters := (fcAdapters s)[a := (fcAdapters s ! a)\<lparr>adPending := rest\<rparr>]\<rparr>"
  have "ofAdapter (fcAdapters s ! a) = ofHeld (hookHeld hook) + ofAdapter ((fcAdapters s ! a)\<lparr>adPending := rest\<rparr>)"
    using p by (simp add: ofAdapter_def allHooks_def ac_simps)
  with total_adapter[OF assms(1), of "(fcAdapters s ! a)\<lparr>adPending := rest\<rparr>"]
  have "(total ?s1 + ofHeld (hookHeld hook)) + ofAdapter ((fcAdapters s ! a)\<lparr>adPending := rest\<rparr>)
      = total s + ofAdapter ((fcAdapters s ! a)\<lparr>adPending := rest\<rparr>)"
    by (simp add: add.assoc)
  then show ?thesis by (simp add: s' total_runHook)
qed

lemma total_sessions: "total (s\<lparr>fcSessions := Suc n\<rparr>) = total (s\<lparr>fcSessions := n\<rparr>) + waiting True"
  by (simp add: total_def free_session ac_simps)

lemma ofPhase_held: "heldOf p = Some h \<Longrightarrow> ofPhase p = weight h"
  by (cases p) (simp_all add: ofPhase_def)

lemma total_failInPool:
  assumes "i < length (fcOpens s)" "heldOf (fcOpens s ! i) = Some h"
  shows "total (failInPool i e h s) = total s"
  using total_fail[of i "onPool putPoolSlot s"] assms by (simp add: failInPool_def)

lemma total_move:
  assumes "i < length (fcOpens s)" "heldOf (fcOpens s ! i) = Some h" "heldOf p = Some h'" "weight h' = weight h"
  shows "total (goto i p s) = total s"
  using assms by (intro total_goto_same) (simp_all add: ofPhase_held)

lemmas total_moves = total_move total_fail total_failInPool weight_lease weight_profile

lemma total_wait:
  assumes "i < length (fcOpens s)" "f (fcOpens s ! i) s = Some s'"
    "f = cancelWait i e \<or> f = refuseWait i \<or> f = takeSession i \<or> f = takeSlot i"
  shows "total s' = total s"
proof -
  have give: "total (goto i (OpenError x) (s\<lparr>fcSessions := fcSessions s + (if b then 1 else 0)\<rparr>)) = total s"
    if "fcOpens s ! i = AwaitSlot t b" for t b x
    using total_goto[of i "s\<lparr>fcSessions := fcSessions s + (if b then 1 else 0)\<rparr>" "OpenError x"] assms(1) that
      total_sessions[where s=s and n="fcSessions s"]
    by (cases b) (simp_all add: ofPhase_def waiting_False)
  have leave: "total (goto i (OpenError x) s) = total s" if "fcOpens s ! i = AwaitSession t" for t x
    using assms(1) that by (intro total_goto_same) (simp_all add: ofPhase_def)
  have take: "total (goto i (AwaitSlot t True) (s\<lparr>fcSessions := fcSessions s - 1\<rparr>)) = total s"
    if "fcOpens s ! i = AwaitSession t" "0 < fcSessions s" for t
    using total_goto[of i "s\<lparr>fcSessions := fcSessions s - 1\<rparr>" "AwaitSlot t True"] assms(1) that
      total_sessions[where s=s and n="fcSessions s - 1"]
    by (simp add: ofPhase_def)
  have slot: "total (goto i (InSlot t (initialHeld x b)) (s\<lparr>fcSlots := rest\<rparr>)) = total s"
    if "fcOpens s ! i = AwaitSlot t b" "fcSlots s = x # rest" for t b x rest
  proof -
    let ?used = "sum_list (map ofPhase (fcOpens s)) + sum_list (map ofAdapter (fcAdapters s))"
    have "total (s\<lparr>fcSlots := rest\<rparr>) + weight (initialHeld x b) = (free rest (fcSessions s) + weight (initialHeld x b)) + ?used"
      by (simp add: total_def ac_simps)
    also have "\<dots> = (free (x # rest) (fcSessions s) + waiting b) + ?used" by (simp only: free_slot)
    also have "\<dots> = total s + waiting b" by (simp add: total_def that(2) ac_simps)
    finally have "total (s\<lparr>fcSlots := rest\<rparr>) + weight (initialHeld x b) = total s + waiting b" .
    then show ?thesis using total_goto[of i "s\<lparr>fcSlots := rest\<rparr>" "InSlot t (initialHeld x b)"] assms(1) that(1)
      by (simp add: ofPhase_def)
  qed
  show ?thesis using assms give leave take slot
    by (cases "fcOpens s ! i") (auto simp: opening_defs total_fail split: if_splits list.splits)
qed

lemma total_held:
  assumes "i < length (fcOpens s)" "f (fcOpens s ! i) s = Some s'"
    "f = enterSlot i ce \<or> f = leaseForTask i alive ce \<or> f = renewLease i ce \<or> f = publishLease i"
  shows "total s' = total s"
  using assms by (cases "fcOpens s ! i")
    (auto simp: opening_defs leasing_defs total_moves Let_def split: if_splits option.splits prod.splits)

lemma total_pool:
  assumes "i < length (fcOpens s)" "f (fcOpens s ! i) s = Some s'"
    "f = browserPool i ce \<or> f = makeProfile i r \<or> f = takePoolSlot i \<or> f = enterPool i ce"
  shows "total s' = total s"
  using assms by (cases "fcOpens s ! i")
    (auto simp: pooling_defs total_moves split: if_splits option.splits sum.splits)

end

lemma factoryWf_adapter:
  assumes "factoryWf s" "i < length (fcOpens s)" "adapterOf (fcOpens s ! i) = Some a"
  shows "a < length (fcAdapters s) \<and> adapterOk (fcAdapters s ! a)"
proof -
  have "a < length (fcAdapters s)" using assms nth_mem[OF assms(2)] by (auto simp: factoryWf_def)
  then show ?thesis using assms(1) by (simp add: factoryWf_def)
qed

context resource
begin

lemma total_launch:
  assumes "i < length (fcOpens s)" "launch i ce (fcOpens s ! i) s = Some s'"
  shows "total s' = total s"
proof -
  have new: "total (s\<lparr>fcAdapters := fcAdapters s @ [\<lparr>adClosed = False, adHooks = [], adPending = []\<rparr>]\<rparr>) = total s"
    by (simp add: total_def ofAdapter_def)
  show ?thesis using assms new
    by (cases "fcOpens s ! i") (auto simp: launch_def total_failInPool total_move split: option.splits)
qed

lemma total_hooking:
  assumes "i < length (fcOpens s)" "f (fcOpens s ! i) s = Some s'" "factoryWf s"
    "f = registerAdapter i \<or> f = hookPool i \<or> f = hookFactory i"
  shows "total s' = total s"
proof -
  have wf: "adapterOf (fcOpens s ! i) = Some a \<Longrightarrow> a < length (fcAdapters s) \<and> adapterOk (fcAdapters s ! a)" for a
    by (rule factoryWf_adapter[OF assms(3,1)])
  show ?thesis
  proof (cases "fcOpens s ! i")
    case (Launched h a)
    then show ?thesis using assms wf[of a]
      by (auto simp: registerAdapter_def hookPool_def hookFactory_def total_failInPool total_takeHooks total_move
          split: option.splits if_splits)
  next
    case (Registered h a)
    then show ?thesis using assms wf[of a]
      by (auto simp: registerAdapter_def hookPool_def hookFactory_def total_addHook total_move)
  next
    case (Adopted h a)
    then have s': "s' = goto i (OpenReturned a) (AddCloseHook a (FactoryHook h) s)" using assms
      by (auto simp: registerAdapter_def hookPool_def hookFactory_def)
    have "total s' + weight h = total s + weight h"
      using total_goto[of i "AddCloseHook a (FactoryHook h) s" "OpenReturned a"] assms(1) Adopted wf[of a]
      by (simp add: s' total_addHook ofPhase_def)
    then show ?thesis by simp
  qed (use assms in \<open>auto simp: registerAdapter_def hookPool_def hookFactory_def\<close>)
qed

lemma total_close:
  assumes "continueClose s = Some s'" "factoryWf s" shows "total s' = total s"
proof (cases "fcCloser s")
  case (CloseAdapters as lease)
  then have "a < length (fcAdapters s) \<and> adapterOk (fcAdapters s ! a)" if "a \<in> set as" for a
    using assms(2) that by (auto simp: factoryWf_def)
  then show ?thesis using assms(1) CloseAdapters
    by (cases as) (auto simp: continueClose_def Let_def total_takeHooks)
qed (use assms in \<open>auto simp: continueClose_def split: option.splits if_splits\<close>)

lemma step_total:
  assumes "factoryStep ev s = Some s'" "factoryWf s"
  shows "total s' = total s"
proof (cases ev)
  case (OpenCalled t e)
  then show ?thesis using assms by (auto simp: total_def startOpen_def ofPhase_def waiting_False split: option.splits if_splits)
next
  case (AdapterClosed a)
  then have "a < length (fcAdapters s)" "adapterOk (fcAdapters s ! a)" "s' = takeHooks a s"
    using assms by (auto simp: factoryWf_def split: if_splits)
  then show ?thesis by (simp add: total_takeHooks)
next
  case CloseBegun
  then show ?thesis using assms by (auto simp: beginClose_def Let_def total_def split: closer.splits)
qed (use assms in \<open>auto elim!: atOpenE simp: ConfigureEgress_def split: if_splits option.splits
    dest: total_wait total_held total_pool total_launch total_hooking total_close total_runPending\<close>)

lemma reachable_total:
  assumes "factoryReachable start s" "factoryWf start" shows "factoryWf s \<and> total s = total start"
  using assms by (induction rule: factoryReachable.induct) (auto simp: step_total dest: factoryStep_wf)

end

text \<open>The slots, each with its number, and the single token of the authenticated session.\<close>

interpretation slots: resource "\<lambda>slots _. mset slots" "\<lambda>h. {#hdSlot h#}" "\<lambda>_. {#}"
  by unfold_locales (simp_all add: initialHeld_def)

interpretation sessions: resource "\<lambda>_ n. n" "\<lambda>h. if hdSession h then 1 else 0 :: nat" "\<lambda>b. if b then 1 else 0"
  by unfold_locales (simp_all add: initialHeld_def)

text \<open>Everything held by openings under way and by hooks that have not run yet.\<close>

definition runningHeld :: "Factory \<Rightarrow> held list" where
  "runningHeld s = List.map_filter heldOf (fcOpens s) @ List.map_filter hookHeld (concat (map allHooks (fcAdapters s)))"

definition heldSlots :: "Factory \<Rightarrow> nat list" where
  "heldSlots s = map hdSlot (runningHeld s)"

definition waitsWithSession :: "openPhase \<Rightarrow> bool" where
  "waitsWithSession p = (case p of AwaitSlot _ b \<Rightarrow> b | _ \<Rightarrow> False)"

definition heldSessions :: "Factory \<Rightarrow> nat" where
  "heldSessions s = length (filter hdSession (runningHeld s)) + length (filter waitsWithSession (fcOpens s))"

lemma map_filter_simps2 [simp]: "List.map_filter f [] = []"
  "List.map_filter f (x # xs) = (case f x of None \<Rightarrow> List.map_filter f xs | Some y \<Rightarrow> y # List.map_filter f xs)"
  "List.map_filter f (xs @ ys) = List.map_filter f xs @ List.map_filter f ys"
  by (simp_all add: List.map_filter_def split: option.split)

lemma slots_total: "slots.total s = mset (fcSlots s) + mset (heldSlots s)"
proof -
  have phases: "sum_list (map slots.ofPhase ps) = mset (map hdSlot (List.map_filter heldOf ps))" for ps
  proof (induction ps)
    case (Cons p ps)
    then show ?case by (cases p) (simp_all add: slots.ofPhase_def)
  qed simp
  have hook: "sum_list (map (\<lambda>k. slots.ofHeld (hookHeld k)) ks) = mset (map hdSlot (List.map_filter hookHeld ks))" for ks
    by (induction ks) (simp_all split: option.split)
  have adapters: "sum_list (map slots.ofAdapter ads) = mset (map hdSlot (List.map_filter hookHeld (concat (map allHooks ads))))" for ads
    by (induction ads) (simp_all add: slots.ofAdapter_def hook)
  show ?thesis by (simp add: slots.total_def phases adapters heldSlots_def runningHeld_def)
qed

lemma sessions_total: "sessions.total s = fcSessions s + heldSessions s"
proof -
  have phases: "sum_list (map sessions.ofPhase ps) = length (filter hdSession (List.map_filter heldOf ps)) + length (filter waitsWithSession ps)" for ps
  proof (induction ps)
    case (Cons p ps)
    then show ?case by (cases p) (simp_all add: sessions.ofPhase_def waitsWithSession_def)
  qed simp
  have hook: "sum_list (map (\<lambda>k. sessions.ofHeld (hookHeld k)) ks) = length (filter hdSession (List.map_filter hookHeld ks))" for ks
    by (induction ks) (simp_all split: option.split)
  have adapters: "sum_list (map sessions.ofAdapter ads) = length (filter hdSession (List.map_filter hookHeld (concat (map allHooks ads))))" for ads
    by (induction ads) (simp_all add: sessions.ofAdapter_def hook)
  show ?thesis by (simp add: sessions.total_def phases adapters heldSessions_def runningHeld_def)
qed

lemma initial_ok: "factoryWf (initialFactory dir)" "slots.total (initialFactory dir) = mset [0..<defaultCapacity]"
  "sessions.total (initialFactory dir) = maximumSessionCapacity"
  by (simp_all add: initialFactory_def factoryWf_def slots.total_def sessions.total_def)

text \<open>
  C3. The factory never loses or duplicates a slot: in every interleaving of openings, closings,
  renewals and hooks, failures on every path included, the free slots and those held by openings and
  by hooks still to run are exactly the three slots, no two holders have the same one, and at most one
  holder has the authenticated session, whose token is otherwise free or with the one opening that
  waits for a slot.
\<close>

theorem factory_slots_conserved:
  assumes "NewFactory hasManager dir = Inr start" "factoryReachable start s"
  shows "mset (fcSlots s @ heldSlots s) = mset [0..<defaultCapacity] \<and> distinct (heldSlots s)
    \<and> fcSessions s + heldSessions s = maximumSessionCapacity \<and> length (filter hdSession (runningHeld s)) \<le> 1"
proof -
  have start: "start = initialFactory dir" using assms(1) by (simp add: NewFactory_def split: if_splits)
  have m: "mset (fcSlots s @ heldSlots s) = mset [0..<defaultCapacity]"
    using slots.reachable_total[OF assms(2)] initial_ok[of dir] by (simp add: start slots_total)
  have "distinct (fcSlots s @ heldSlots s)" using mset_eq_imp_distinct_iff[OF m] by simp
  moreover have n: "fcSessions s + heldSessions s = maximumSessionCapacity"
    using sessions.reachable_total[OF assms(2)] initial_ok[of dir] by (simp add: start sessions_total)
  moreover have "length (filter hdSession (runningHeld s)) \<le> 1"
    using n by (simp add: heldSessions_def maximumSessionCapacity_def)
  ultimately show ?thesis using m by simp
qed

section \<open>Leases and profiles have an owner\<close>

datatype thing = LeaseThing nat | ProfileThing string

definition things :: "Factory \<Rightarrow> thing set" where
  "things s = LeaseThing ` set (fcLeases s) \<union> ProfileThing ` set (fcProfiles s)"

definition heldThings :: "held \<Rightarrow> thing set" where
  "heldThings h = LeaseThing ` set_option (hdLease h) \<union> ProfileThing ` set_option (hdProfile h)"

definition leaseThings :: "nat option \<Rightarrow> thing set" where
  "leaseThings l = LeaseThing ` set_option l"

definition phaseThings :: "openPhase \<Rightarrow> thing set" where
  "phaseThings p = (case heldOf p of None \<Rightarrow> {} | Some h \<Rightarrow> heldThings h)
    \<union> (case p of Renewing _ _ _ old \<Rightarrow> leaseThings old | Publishing _ _ _ l \<Rightarrow> {LeaseThing l} | _ \<Rightarrow> {})"

definition hookThings :: "hook \<Rightarrow> thing set" where
  "hookThings k = (case hookHeld k of None \<Rightarrow> {} | Some h \<Rightarrow> heldThings h)"

definition adapterThings :: "Adapter \<Rightarrow> thing set" where
  "adapterThings ad = (\<Union>k \<in> set (allHooks ad). hookThings k)"

text \<open>The factory itself owns its session lease until its closing has closed it.\<close>

definition sessionThings :: "Factory \<Rightarrow> thing set" where
  "sessionThings s = (if fcCloser s = CloseReturned then {} else leaseThings (map_option fst (fcSessionLease s)))"

definition owned :: "Factory \<Rightarrow> thing set" where
  "owned s = (\<Union>p \<in> set (fcOpens s). phaseThings p) \<union> (\<Union>ad \<in> set (fcAdapters s). adapterThings ad) \<union> sessionThings s"

fun closerLease :: "closer \<Rightarrow> nat option option" where
  "closerLease (ClosePool l) = Some l"
| "closerLease (AwaitOpenings _ l) = Some l"
| "closerLease (CloseAdapters _ l) = Some l"
| "closerLease (CloseSession l) = Some l"
| "closerLease _ = None"

definition ownedInv :: "Factory \<Rightarrow> bool" where
  "ownedInv s \<longleftrightarrow> things s \<subseteq> owned s \<and> (fcClosed s \<longleftrightarrow> fcCloser s \<noteq> NotClosing)
    \<and> (\<forall>l. closerLease (fcCloser s) = Some l \<longrightarrow> fcSessionLease s = None \<or> map_option fst (fcSessionLease s) = l)"

lemma UN_list_update:
  assumes "i < length xs"
  shows "(\<Union>x \<in> set xs. f x) \<subseteq> (\<Union>x \<in> set (xs[i := y]). f x) \<union> f (xs ! i)" "f y \<subseteq> (\<Union>x \<in> set (xs[i := y]). f x)"
proof -
  show "f y \<subseteq> (\<Union>x \<in> set (xs[i := y]). f x)" using assms set_update_memI[OF assms, of y] by blast
  show "(\<Union>x \<in> set xs. f x) \<subseteq> (\<Union>x \<in> set (xs[i := y]). f x) \<union> f (xs ! i)"
  proof
    fix t assume "t \<in> (\<Union>x \<in> set xs. f x)"
    then obtain j where j: "j < length xs" "t \<in> f (xs ! j)" by (auto simp: in_set_conv_nth)
    then show "t \<in> (\<Union>x \<in> set (xs[i := y]). f x) \<union> f (xs ! i)"
      by (cases "j = i") (auto simp: in_set_conv_nth intro!: bexI[of _ "xs ! j"] exI[of _ j])
  qed
qed

lemma things_release [simp]: "things (releaseHeld h s) = things s - heldThings h"
  by (auto simp: things_def releaseHeld_def heldThings_def split: option.splits)

lemma things_closeLease [simp]: "things (closeLease l s) = things s - leaseThings l"
  by (auto simp: things_def closeLease_def leaseThings_def split: option.splits)

lemma things_fields [simp]: "things (goto i p s) = things s" "things (onPool f s) = things s" "things (s\<lparr>fcCloser := c\<rparr>) = things s"
  "things (s\<lparr>fcClosed := b, fcCloser := c\<rparr>) = things s" "things (s\<lparr>fcSessionLease := x\<rparr>) = things s" "things (s\<lparr>fcAdapters := ads\<rparr>) = things s"
  "things (s\<lparr>fcPool := po\<rparr>) = things s" "things (s\<lparr>fcSessions := n\<rparr>) = things s" "things (s\<lparr>fcSlots := sl\<rparr>) = things s" "things (s\<lparr>fcOpens := os\<rparr>) = things s"
  "things (s\<lparr>fcEgress := eg\<rparr>) = things s" "things (s\<lparr>fcNextLease := n\<rparr>) = things s" "things (takeHooks a s) = things s"
  by (simp_all add: things_def takeHooks_def Let_def)

lemma things_new [simp]: "things (s\<lparr>fcLeases := l # fcLeases s\<rparr>) = insert (LeaseThing l) (things s)"
  "things (s\<lparr>fcNextLease := n, fcLeases := l # fcLeases s\<rparr>) = insert (LeaseThing l) (things s)"
  "things (s\<lparr>fcProfiles := p # fcProfiles s\<rparr>) = insert (ProfileThing p) (things s)"
  by (auto simp: things_def)

lemma owned_goto: "i < length (fcOpens s) \<Longrightarrow> owned s \<subseteq> owned (goto i p s) \<union> phaseThings (fcOpens s ! i)"
  "i < length (fcOpens s) \<Longrightarrow> phaseThings p \<subseteq> owned (goto i p s)"
  using UN_list_update[of i "fcOpens s" phaseThings p] by (auto simp: owned_def sessionThings_def)

lemma owned_cong:
  assumes "fcOpens s' = fcOpens s" "fcAdapters s' = fcAdapters s" "fcSessionLease s' = fcSessionLease s" "fcCloser s' = fcCloser s"
  shows "owned s' = owned s"
  using assms by (simp add: owned_def sessionThings_def)

text \<open>An opening that moves on, and one that fails.\<close>

lemma ownedInv_move:
  assumes "ownedInv s" "i < length (fcOpens s)" "things s1 \<subseteq> (things s - gone) \<union> phaseThings p" "phaseThings (fcOpens s ! i) \<subseteq> gone \<union> phaseThings p"
    "fcOpens s1 = fcOpens s" "fcAdapters s1 = fcAdapters s" "fcSessionLease s1 = fcSessionLease s" "fcCloser s1 = fcCloser s" "fcClosed s1 = fcClosed s"
  shows "ownedInv (goto i p s1)"
proof -
  have "owned s1 = owned s" by (rule owned_cong[OF assms(5-8)])
  then have "owned s \<subseteq> owned (goto i p s1) \<union> phaseThings (fcOpens s ! i)" "phaseThings p \<subseteq> owned (goto i p s1)"
    using owned_goto[of i s1 p] assms(2,5) by auto
  then have "things s1 \<subseteq> owned (goto i p s1)" using assms(1,3,4) unfolding ownedInv_def by blast
  then show ?thesis using assms(1,7-9) by (simp add: ownedInv_def)
qed

lemma ownedInv_fail:
  assumes "ownedInv s" "i < length (fcOpens s)" "things s1 \<subseteq> things s - gone" "phaseThings (fcOpens s ! i) \<subseteq> gone \<union> heldThings h"
    "fcOpens s1 = fcOpens s" "fcAdapters s1 = fcAdapters s" "fcSessionLease s1 = fcSessionLease s" "fcCloser s1 = fcCloser s" "fcClosed s1 = fcClosed s"
  shows "ownedInv (failOpen i e h s1)"
  unfolding failOpen_def
  by (rule ownedInv_move[OF assms(1,2), where gone = "gone \<union> heldThings h"]) (use assms in auto)

lemma ownedInv_adapter:
  assumes "ownedInv s" "a < length (fcAdapters s)" "things s1 \<subseteq> things s - gone" "adapterThings (fcAdapters s ! a) \<subseteq> gone \<union> adapterThings ad"
    "fcOpens s1 = fcOpens s" "fcAdapters s1 = (fcAdapters s)[a := ad]" "fcSessionLease s1 = fcSessionLease s" "fcCloser s1 = fcCloser s" "fcClosed s1 = fcClosed s"
  shows "ownedInv s1"
proof -
  have "owned s \<subseteq> owned s1 \<union> adapterThings (fcAdapters s ! a)" "adapterThings ad \<subseteq> owned s1"
    using UN_list_update[OF assms(2), of adapterThings ad] assms(5-8) by (auto simp: owned_def sessionThings_def)
  then have "things s1 \<subseteq> owned s1" using assms(1,3,4) unfolding ownedInv_def by blast
  then show ?thesis using assms(1,7-9) by (simp add: ownedInv_def)
qed

lemma ownedInv_shrink:
  assumes "ownedInv s" "things s1 \<subseteq> things s"
    "fcOpens s1 = fcOpens s" "fcAdapters s1 = fcAdapters s" "fcSessionLease s1 = fcSessionLease s" "fcCloser s1 = fcCloser s" "fcClosed s1 = fcClosed s"
  shows "ownedInv s1"
  using assms owned_cong[OF assms(3-6)] by (auto simp: ownedInv_def)

lemma things_runHook [simp]: "things (runHook k s) = things s - hookThings k"
  by (cases k) (simp_all add: hookThings_def)

lemma ownedInv_takeHooks:
  assumes "ownedInv s" "a < length (fcAdapters s)" "adapterOk (fcAdapters s ! a)"
  shows "ownedInv (takeHooks a s)"
proof (cases "adClosed (fcAdapters s ! a)")
  case False
  then show ?thesis using assms
    by (intro ownedInv_adapter[OF assms(1,2), where gone = "{}" and ad = "\<lparr>adClosed = True, adHooks = [], adPending = adHooks (fcAdapters s ! a)\<rparr>"])
      (auto simp: takeHooks_def Let_def adapterThings_def allHooks_def adapterOk_def)
qed (use assms in \<open>simp add: takeHooks_def Let_def\<close>)

lemma ownedInv_runPending:
  assumes "ownedInv s" "a < length (fcAdapters s)" "runPending a s = Some s'"
  shows "ownedInv s'"
proof -
  obtain k rest where p: "adPending (fcAdapters s ! a) = k # rest"
    and s': "s' = runHook k (s\<lparr>fcAdapters := (fcAdapters s)[a := (fcAdapters s ! a)\<lparr>adPending := rest\<rparr>]\<rparr>)"
    using assms(3) by (auto simp: runPending_def Let_def split: list.splits)
  show ?thesis unfolding s'
    by (rule ownedInv_adapter[OF assms(1,2), where gone = "hookThings k"]) (auto simp: adapterThings_def allHooks_def p)
qed

text \<open>A hook for an adapter that is closed already runs at once.\<close>

lemma ownedInv_AddCloseHook:
  assumes "ownedInv s" "a < length (fcAdapters s)" "i < length (fcOpens s)" "phaseThings (fcOpens s ! i) \<subseteq> hookThings k \<union> phaseThings p"
  shows "ownedInv (goto i p (AddCloseHook a k s))"
proof (cases "adClosed (fcAdapters s ! a)")
  case True
  show ?thesis
    by (rule ownedInv_move[OF assms(1,3), where gone = "hookThings k"]) (use assms(4) True in \<open>auto simp: AddCloseHook_def Let_def\<close>)
next
  case False
  let ?ad = "(fcAdapters s ! a)\<lparr>adHooks := adHooks (fcAdapters s ! a) @ [k]\<rparr>"
  let ?s1 = "s\<lparr>fcAdapters := (fcAdapters s)[a := ?ad]\<rparr>"
  have ad: "adapterThings (fcAdapters s ! a) \<union> hookThings k \<subseteq> adapterThings ?ad" by (auto simp: adapterThings_def allHooks_def)
  have "owned s \<union> hookThings k \<subseteq> owned ?s1"
    using UN_list_update[OF assms(2), of adapterThings ?ad] ad by (auto simp: owned_def sessionThings_def)
  moreover have "owned ?s1 \<subseteq> owned (goto i p ?s1) \<union> phaseThings (fcOpens s ! i)" "phaseThings p \<subseteq> owned (goto i p ?s1)"
    using owned_goto[of i ?s1 p] assms(3) by auto
  moreover have "hookThings k \<subseteq> owned (goto i p ?s1)"
    using UN_list_update(2)[OF assms(2), of adapterThings ?ad] ad by (auto simp: owned_def)
  ultimately have "owned s \<subseteq> owned (goto i p ?s1)" using assms(4) by blast
  then show ?thesis using assms(1) False by (auto simp: AddCloseHook_def Let_def ownedInv_def)
qed

lemma ownedInv_opening:
  assumes "ownedInv s" "i < length (fcOpens s)" "f (fcOpens s ! i) s = Some s'"
    "f = cancelWait i e \<or> f = refuseWait i \<or> f = takeSession i \<or> f = takeSlot i \<or> f = enterSlot i ce"
  shows "ownedInv s'"
  using assms
  by (cases "fcOpens s ! i")
    (auto simp: opening_defs phaseThings_def heldThings_def initialHeld_def split: if_splits option.splits list.splits
      intro!: ownedInv_move[OF assms(1,2), where gone = "{}"] ownedInv_fail[OF assms(1,2), where gone = "{}"])

text \<open>
  The session lease is replaced by the one opening that holds the session; while it does, the factory
  has none.
\<close>

fun phaseOk :: "openPhase \<Rightarrow> bool" where
  "phaseOk (AwaitSession t) \<longleftrightarrow> btPurpose t = PurposeSession"
| "phaseOk (AwaitSlot t b) \<longleftrightarrow> (b \<longleftrightarrow> btPurpose t = PurposeSession)"
| "phaseOk (InSlot t h) \<longleftrightarrow> (hdSession h \<longleftrightarrow> btPurpose t = PurposeSession) \<and> hdLease h = None \<and> hdProfile h = None"
| "phaseOk (HasManager t h _) \<longleftrightarrow> (hdSession h \<longleftrightarrow> btPurpose t = PurposeSession) \<and> hdLease h = None \<and> hdProfile h = None"
| "phaseOk (Renewing _ h _ _) \<longleftrightarrow> hdSession h \<and> hdProfile h = None"
| "phaseOk (Publishing _ h _ _) \<longleftrightarrow> hdSession h \<and> hdProfile h = None"
| "phaseOk (Leased _ h) \<longleftrightarrow> hdProfile h = None"
| "phaseOk (HasPool _ h) \<longleftrightarrow> hdProfile h = None"
| "phaseOk _ \<longleftrightarrow> True"

fun replacing :: "openPhase \<Rightarrow> bool" where
  "replacing (Renewing _ _ _ _) \<longleftrightarrow> True"
| "replacing (Publishing _ _ _ _) \<longleftrightarrow> True"
| "replacing _ \<longleftrightarrow> False"

definition sessionInv :: "Factory \<Rightarrow> bool" where
  "sessionInv s \<longleftrightarrow> (\<forall>p \<in> set (fcOpens s). phaseOk p \<and> (replacing p \<longrightarrow> fcSessionLease s = None))"

lemma one_replacing:
  assumes "sessions.total s = 1" "i < length (fcOpens s)" "j < length (fcOpens s)" "i \<noteq> j"
    "replacing (fcOpens s ! i)" "replacing (fcOpens s ! j)" "sessionInv s"
  shows False
proof -
  let ?f = sessions.ofPhase and ?xs = "fcOpens s"
  have one: "?f p = 1" if "replacing p" "phaseOk p" for p using that by (cases p) (simp_all add: sessions.ofPhase_def)
  have p: "phaseOk (?xs ! i)" "phaseOk (?xs ! j)" using assms(2,3,7) by (auto simp: sessionInv_def)
  have "sum_list (map ?f (?xs[i := OpenError e])) + ?f (?xs ! i) = sum_list (map ?f ?xs)" for e
    using sum_list_map_update[OF assms(2), of ?f "OpenError e"] by (simp add: sessions.ofPhase_def)
  moreover have "?f (?xs ! j) \<in> set (map ?f (?xs[i := OpenError e]))" for e
    using assms(3,4) by (auto simp: in_set_conv_nth intro!: image_eqI[of _ _ "?xs ! j"] exI[of _ j])
  then have "?f (?xs ! j) \<le> sum_list (map ?f (?xs[i := OpenError e]))" for e using member_le_sum_list by blast
  ultimately have "2 \<le> sum_list (map ?f ?xs)" using one[OF assms(5) p(1)] one[OF assms(6) p(2)] by (metis add_le_mono le_refl one_add_one)
  then show False using assms(1) by (simp add: sessions.total_def)
qed

lemma sessionInv_goto:
  assumes "sessionInv s" "phaseOk p" "replacing p \<longrightarrow> fcSessionLease s = None"
  shows "sessionInv (goto i p s)"
  using assms set_update_subset_insert[of "fcOpens s" i p] by (auto simp: sessionInv_def)

lemma sessionInv_cong:
  assumes "sessionInv s" "fcOpens s' = fcOpens s" "fcSessionLease s' = fcSessionLease s" shows "sessionInv s'"
  using assms by (simp add: sessionInv_def)

lemma sessionInv_fail [simp]: "sessionInv s \<Longrightarrow> sessionInv (failOpen i e h s)"
  by (simp add: failOpen_def sessionInv_goto sessionInv_cong[of s "releaseHeld h s"])

lemma sessionInv_fields [simp]:
  "sessionInv (s\<lparr>fcSlots := a\<rparr>) = sessionInv s" "sessionInv (s\<lparr>fcSessions := b\<rparr>) = sessionInv s"
  "sessionInv (s\<lparr>fcNextLease := n\<rparr>) = sessionInv s" "sessionInv (s\<lparr>fcLeases := ls\<rparr>) = sessionInv s" "sessionInv (s\<lparr>fcProfiles := ps\<rparr>) = sessionInv s"
  "sessionInv (s\<lparr>fcEgress := e\<rparr>) = sessionInv s" "sessionInv (s\<lparr>fcCloser := c\<rparr>) = sessionInv s" "sessionInv (s\<lparr>fcPool := po\<rparr>) = sessionInv s"
  "sessionInv (s\<lparr>fcClosed := b\<^sub>1\<rparr>) = sessionInv s"
  "sessionInv (s\<lparr>fcAdapters := ads\<rparr>) = sessionInv s" "sessionInv (onPool f s) = sessionInv s" "sessionInv (closeLease l s) = sessionInv s"
  "sessionInv (takeHooks x s) = sessionInv s" "sessionInv (AddCloseHook x k s) = sessionInv s" "sessionInv (runHook k s) = sessionInv s"
  by (simp_all add: sessionInv_def)

lemma sessionInv_clear: "sessionInv s \<Longrightarrow> sessionInv (s\<lparr>fcSessionLease := None\<rparr>)"
  by (simp add: sessionInv_def)

lemma sessionInv_opening:
  assumes "sessionInv s" "fcOpens s ! i \<in> set (fcOpens s)" "f (fcOpens s ! i) s = Some s'"
    "f = cancelWait i e \<or> f = refuseWait i \<or> f = takeSession i \<or> f = takeSlot i \<or> f = enterSlot i ce
      \<or> f = leaseForTask i alive ce \<or> f = renewLease i ce"
  shows "sessionInv s'"
proof -
  have "phaseOk (fcOpens s ! i)" "replacing (fcOpens s ! i) \<longrightarrow> fcSessionLease s = None" using assms(1,2) by (auto simp: sessionInv_def)
  then show ?thesis using assms(1,3,4)
    by (cases "fcOpens s ! i")
      (auto simp: opening_defs leasing_defs initialHeld_def Let_def sessionInv_goto sessionInv_clear split: if_splits option.splits list.splits prod.splits)
qed

lemma sessionInv_publish:
  assumes "sessionInv s" "i < length (fcOpens s)" "publishLease i (fcOpens s ! i) s = Some s'" "sessions.total s = 1"
  shows "sessionInv s'"
proof -
  obtain task h m l where ph: "fcOpens s ! i = Publishing task h m l" using assms(3) by (cases "fcOpens s ! i") (auto simp: publishLease_def)
  have ok: "hdProfile h = None" using assms(1) nth_mem[OF assms(2)] by (auto simp: sessionInv_def ph)
  have "sessionInv (goto i (Leased task h) (s\<lparr>fcSessionLease := x\<rparr>))" for x
  proof -
    have "\<not> replacing (fcOpens s ! j)" if "j < length (fcOpens s)" "j \<noteq> i" for j
      using one_replacing[OF assms(4) that(1) assms(2) that(2)] assms(1) by (auto simp: ph)
    then have "\<forall>p \<in> set ((fcOpens s)[i := Leased task h]). \<not> replacing p"
      using assms(2) by (auto simp: all_set_conv_all_nth nth_list_update)
    moreover have "\<forall>p \<in> set ((fcOpens s)[i := Leased task h]). phaseOk p"
      using assms(1) set_update_subset_insert[of "fcOpens s" i "Leased task h"] ok by (auto simp: sessionInv_def)
    ultimately show ?thesis by (simp add: sessionInv_def)
  qed
  then show ?thesis using assms(1,3) by (auto simp: ph publishLease_def split: if_splits)
qed

lemma sessionInv_pooling:
  assumes "sessionInv s" "fcOpens s ! i \<in> set (fcOpens s)" "f (fcOpens s ! i) s = Some s'"
    "f = browserPool i ce \<or> f = makeProfile i r \<or> f = takePoolSlot i \<or> f = enterPool i ce \<or> f = launch i ce
      \<or> f = registerAdapter i \<or> f = hookPool i \<or> f = hookFactory i"
  shows "sessionInv s'"
proof -
  have "phaseOk (fcOpens s ! i)" using assms(1,2) by (auto simp: sessionInv_def)
  then show ?thesis using assms(1,3,4)
    by (cases "fcOpens s ! i") (auto simp: pooling_defs failInPool_def sessionInv_goto split: if_splits option.splits sum.splits)
qed

lemma sessionInv_close: "continueClose s = Some s' \<Longrightarrow> sessionInv s \<Longrightarrow> sessionInv s'"
  by (auto simp: continueClose_def Let_def split: closer.splits option.splits list.splits if_splits)

lemma sessionInv_step:
  assumes "factoryStep ev s = Some s'" "sessionInv s" "sessions.total s = 1"
  shows "sessionInv s'"
proof (cases ev)
  case (OpenCalled t e)
  then show ?thesis using assms by (auto simp: sessionInv_def startOpen_def split: option.splits if_splits)
next
  case (HookRun a)
  then show ?thesis using assms by (auto simp: runPending_def Let_def split: if_splits list.splits)
next
  case CloseBegun
  then show ?thesis using assms by (auto simp: beginClose_def Let_def split: closer.splits)
qed (use assms in \<open>auto elim!: atOpenE simp: ConfigureEgress_def split: if_splits option.splits
    dest: sessionInv_opening sessionInv_publish sessionInv_pooling sessionInv_close\<close>)

lemma ownedInv_leaseForTask:
  assumes "ownedInv s" "i < length (fcOpens s)" "leaseForTask i alive ce (fcOpens s ! i) s = Some s'" "phaseOk (fcOpens s ! i)"
  shows "ownedInv s'"
proof -
  obtain task h m where ph: "fcOpens s ! i = HasManager task h m" using assms(3) by (cases "fcOpens s ! i") (auto simp: leaseForTask_def)
  have t: "phaseThings (fcOpens s ! i) = heldThings h" by (simp add: ph phaseThings_def)
  have none: "heldThings h = {}" using assms(4) by (simp add: ph heldThings_def)
  show ?thesis
  proof (cases "btPurpose task = PurposeSession")
    case False
    have fail: "ownedInv (failOpen i e h s)" for e by (rule ownedInv_fail[OF assms(1,2), where gone = "{}"]) (simp_all add: t)
    have move: "ownedInv (goto i (Leased task (h\<lparr>hdLease := Some (fcNextLease s)\<rparr>)) (snd (takeLease s)))"
      by (rule ownedInv_move[OF assms(1,2), where gone = "{}"]) (auto simp: ph assms(4)[unfolded ph, simplified] takeLease_def phaseThings_def heldThings_def)
    show ?thesis using assms(3) False fail move
      by (auto simp: ph leaseForTask_def takeLease_def Let_def split: option.splits)
  next
    case True
    show ?thesis
    proof (cases "fcSessionLease s")
      case None
      then show ?thesis using assms(3) True t
        by (auto simp: ph leaseForTask_def phaseThings_def leaseThings_def intro!: ownedInv_move[OF assms(1,2), where gone = "{}"])
    next
      case (Some lm)
      then obtain l m' where lm: "fcSessionLease s = Some (l, m')" by (cases lm) auto
      let ?p = "Renewing task h m (Some l)" and ?s1 = "s\<lparr>fcSessionLease := None\<rparr>"
      have "things s \<subseteq> owned (goto i ?p ?s1)"
      proof -
        have "owned s \<subseteq> owned ?s1 \<union> {LeaseThing l}" by (auto simp: owned_def sessionThings_def leaseThings_def lm)
        moreover have "owned ?s1 \<subseteq> owned (goto i ?p ?s1) \<union> heldThings h" "phaseThings ?p \<subseteq> owned (goto i ?p ?s1)"
          using owned_goto[of i ?s1 ?p] assms(2) t by auto
        ultimately show ?thesis using assms(1) by (auto simp: ownedInv_def phaseThings_def leaseThings_def)
      qed
      then have clear: "ownedInv (goto i ?p ?s1)" using assms(1) by (simp add: ownedInv_def)
      have keep: "ownedInv (goto i (Leased task h) s)"
        by (rule ownedInv_move[OF assms(1,2), where gone = "{}"]) (auto simp: ph phaseThings_def)
      show ?thesis using assms(3) True clear keep by (auto simp: ph leaseForTask_def lm split: if_splits)
    qed
  qed
qed

lemma ownedInv_renewLease:
  assumes "ownedInv s" "i < length (fcOpens s)" "renewLease i ce (fcOpens s ! i) s = Some s'"
  shows "ownedInv s'"
proof -
  obtain task h m old where ph: "fcOpens s ! i = Renewing task h m old" using assms(3) by (cases "fcOpens s ! i") (auto simp: renewLease_def)
  have t: "phaseThings (fcOpens s ! i) = heldThings h \<union> leaseThings old" by (simp add: ph phaseThings_def)
  have fail: "ownedInv (failOpen i e h (closeLease old s))" for e
    by (rule ownedInv_fail[OF assms(1,2), where gone = "leaseThings old"]) (simp_all add: t)
  have move: "ownedInv (goto i (Publishing task h m l) (snd (takeLease (closeLease old s))))" if "l = fcNextLease (closeLease old s)" for l
    by (rule ownedInv_move[OF assms(1,2), where gone = "leaseThings old"]) (auto simp: ph takeLease_def phaseThings_def that)
  show ?thesis using assms(3) fail move
    by (auto simp: ph renewLease_def takeLease_def Let_def split: option.splits)
qed

lemma ownedInv_publishLease:
  assumes "ownedInv s" "i < length (fcOpens s)" "publishLease i (fcOpens s ! i) s = Some s'" "fcSessionLease s = None"
  shows "ownedInv s'"
proof -
  obtain task h m l where ph: "fcOpens s ! i = Publishing task h m l" using assms(3) by (cases "fcOpens s ! i") (auto simp: publishLease_def)
  have t: "phaseThings (fcOpens s ! i) = insert (LeaseThing l) (heldThings h)" by (simp add: ph phaseThings_def)
  show ?thesis
  proof (cases "fcClosed s")
    case True
    have "ownedInv (failOpen i e h (closeLease (Some l) s))" for e
      by (rule ownedInv_fail[OF assms(1,2), where gone = "{LeaseThing l}"]) (simp_all add: t leaseThings_def)
    then show ?thesis using assms(3) True by (auto simp: ph publishLease_def)
  next
    case False
    then have open0: "fcCloser s = NotClosing" using assms(1) by (simp add: ownedInv_def)
    let ?s1 = "s\<lparr>fcSessionLease := Some (l, m)\<rparr>" and ?p = "Leased task h"
    have "owned s \<subseteq> owned ?s1" "LeaseThing l \<in> sessionThings ?s1"
      using assms(4) open0 by (auto simp: owned_def sessionThings_def leaseThings_def)
    moreover have "owned ?s1 \<subseteq> owned (goto i ?p ?s1) \<union> phaseThings (fcOpens s ! i)" "heldThings h \<subseteq> owned (goto i ?p ?s1)"
      using owned_goto[of i ?s1 ?p] assms(2) by (auto simp: phaseThings_def)
    moreover have "sessionThings ?s1 \<subseteq> owned (goto i ?p ?s1)" by (auto simp: owned_def sessionThings_def)
    moreover have "things s \<subseteq> owned s" using assms(1) by (simp add: ownedInv_def)
    ultimately have "things s \<subseteq> owned (goto i ?p ?s1)" unfolding t by blast
    then show ?thesis using assms(1,3) False open0 by (auto simp: ph publishLease_def ownedInv_def)
  qed
qed

lemma ownedInv_pooling:
  assumes "ownedInv s" "i < length (fcOpens s)" "f (fcOpens s ! i) s = Some s'" "phaseOk (fcOpens s ! i)"
    "f = browserPool i ce \<or> f = makeProfile i r \<or> f = takePoolSlot i \<or> f = enterPool i ce"
  shows "ownedInv s'"
  using assms(3-5)
  by (cases "fcOpens s ! i")
    (auto simp: pooling_defs failInPool_def phaseThings_def heldThings_def split: if_splits option.splits sum.splits
      intro!: ownedInv_move[OF assms(1,2), where gone = "{}"] ownedInv_fail[OF assms(1,2), where gone = "{}"])

lemma ownedInv_launch:
  assumes "ownedInv s" "i < length (fcOpens s)" "launch i ce (fcOpens s ! i) s = Some s'"
  shows "ownedInv s'"
proof -
  obtain h where ph: "fcOpens s ! i = Launching h" using assms(3) by (cases "fcOpens s ! i") (auto simp: launch_def)
  have t: "phaseThings (fcOpens s ! i) = heldThings h" by (simp add: ph phaseThings_def)
  let ?s1 = "s\<lparr>fcAdapters := fcAdapters s @ [\<lparr>adClosed = False, adHooks = [], adPending = []\<rparr>]\<rparr>"
  have new: "ownedInv ?s1" using assms(1) by (auto simp: ownedInv_def owned_def sessionThings_def)
  have move: "ownedInv (goto i (Launched h a) ?s1)" for a
    by (rule ownedInv_move[OF new, where gone = "{}"]) (simp_all add: assms(2) ph phaseThings_def)
  have fail: "ownedInv (failInPool i e h (onPool openingDone s))" for e
    unfolding failInPool_def by (rule ownedInv_fail[OF assms(1,2), where gone = "{}"]) (simp_all add: t)
  show ?thesis using assms(3) move fail by (auto simp: ph launch_def split: option.splits)
qed

lemma ownedInv_onPool [simp]: "ownedInv (onPool f s) = ownedInv s"
  by (simp add: ownedInv_def owned_def sessionThings_def)

lemma goto_onPool: "goto i p (onPool f s) = onPool f (goto i p s)"
  by (simp add: goto_def onPool_def)

lemma ownedInv_hooking:
  assumes "ownedInv s" "i < length (fcOpens s)" "f (fcOpens s ! i) s = Some s'" "factoryWf s"
    "f = registerAdapter i \<or> f = hookPool i \<or> f = hookFactory i"
  shows "ownedInv s'"
proof -
  have wf: "adapterOf (fcOpens s ! i) = Some a \<Longrightarrow> a < length (fcAdapters s) \<and> adapterOk (fcAdapters s ! a)" for a
    by (rule factoryWf_adapter[OF assms(4,2)])
  show ?thesis
  proof (cases "fcOpens s ! i")
    case (Launched h a)
    have t: "phaseThings (fcOpens s ! i) = heldThings h" by (simp add: Launched phaseThings_def)
    have take: "ownedInv (takeHooks a s)" using ownedInv_takeHooks[OF assms(1)] wf[of a] Launched by simp
    have fail: "ownedInv (failInPool i e h (onPool openingDone (takeHooks a s)))" for e
      unfolding failInPool_def by (rule ownedInv_fail[OF take, where gone = "{}"]) (simp_all add: t assms(2))
    have move: "ownedInv (goto i (Registered h a) s)"
      by (rule ownedInv_move[OF assms(1,2), where gone = "{}"]) (auto simp: t phaseThings_def Launched)
    show ?thesis using assms(3,5) fail move Launched
      by (auto simp: registerAdapter_def hookPool_def hookFactory_def goto_onPool split: option.splits if_splits)
  next
    case (Registered h a)
    then have "ownedInv (goto i (Adopted h a) (AddCloseHook a (PoolHook a) s))"
      using wf[of a] by (intro ownedInv_AddCloseHook[OF assms(1) _ assms(2)]) (simp_all add: phaseThings_def)
    then show ?thesis using assms(3,5) Registered
      by (auto simp: registerAdapter_def hookPool_def hookFactory_def goto_onPool)
  next
    case (Adopted h a)
    then have "ownedInv (goto i (OpenReturned a) (AddCloseHook a (FactoryHook h) s))"
      using wf[of a] by (intro ownedInv_AddCloseHook[OF assms(1) _ assms(2)]) (simp_all add: phaseThings_def hookThings_def)
    then show ?thesis using assms(3,5) Adopted by (auto simp: registerAdapter_def hookPool_def hookFactory_def)
  qed (use assms(3,5) in \<open>auto simp: registerAdapter_def hookPool_def hookFactory_def\<close>)
qed

lemma ownedInv_closer:
  assumes "ownedInv s" "fcCloser s \<noteq> NotClosing" "closerLease c = closerLease (fcCloser s)" "c \<noteq> CloseReturned" "c \<noteq> NotClosing"
  shows "ownedInv (s\<lparr>fcCloser := c\<rparr>)"
  using assms by (auto simp: ownedInv_def owned_def sessionThings_def split: if_splits)

lemma ownedInv_close:
  assumes "ownedInv s" "continueClose s = Some s'" "factoryWf s"
  shows "ownedInv s'"
proof (cases "fcCloser s")
  case (CloseAdapters as lease)
  have wf: "a < length (fcAdapters s) \<and> adapterOk (fcAdapters s ! a)" if "a \<in> set as" for a
    using assms(3) that CloseAdapters by (auto simp: factoryWf_def)
  show ?thesis
  proof (cases as)
    case Nil
    then show ?thesis using assms CloseAdapters by (auto simp: continueClose_def intro!: ownedInv_closer)
  next
    case (Cons a rest)
    then have "ownedInv (takeHooks a s)" using ownedInv_takeHooks[OF assms(1)] wf by simp
    then show ?thesis using assms(2) CloseAdapters Cons
      by (auto simp: continueClose_def Let_def intro!: ownedInv_closer split: if_splits)
  qed
next
  case (CloseSession lease)
  have s': "s' = closeLease lease (s\<lparr>fcCloser := CloseReturned\<rparr>)" using assms(2) CloseSession by (simp add: continueClose_def)
  have l: "fcSessionLease s = None \<or> map_option fst (fcSessionLease s) = lease" using assms(1) CloseSession by (simp add: ownedInv_def)
  have "owned s \<subseteq> owned s' \<union> leaseThings lease"
    using l by (auto simp: s' owned_def sessionThings_def leaseThings_def CloseSession)
  then show ?thesis using assms(1) by (auto simp: s' ownedInv_def CloseSession)
qed (use assms in \<open>auto simp: continueClose_def split: option.splits if_splits intro!: ownedInv_closer\<close>)

lemma ownedInv_step:
  assumes "factoryStep ev s = Some s'" "ownedInv s" "factoryWf s" "sessionInv s"
  shows "ownedInv s'"
proof -
  have ok: "phaseOk (fcOpens s ! i)" "replacing (fcOpens s ! i) \<longrightarrow> fcSessionLease s = None" if "i < length (fcOpens s)" for i
    using assms(4) that by (auto simp: sessionInv_def)
  show ?thesis
  proof (cases ev)
    case (OpenCalled t e)
    have "owned s \<subseteq> owned (s\<lparr>fcOpens := fcOpens s @ [p]\<rparr>)" for p by (auto simp: owned_def sessionThings_def)
    then show ?thesis using assms(1,2) OpenCalled by (force simp: ownedInv_def)
  next
    case (LeasePublished i)
    then have i: "i < length (fcOpens s)" "publishLease i (fcOpens s ! i) s = Some s'" using assms(1) by (auto elim!: atOpenE)
    moreover have "replacing (fcOpens s ! i)" using i(2) by (cases "fcOpens s ! i") (auto simp: publishLease_def)
    ultimately show ?thesis using ownedInv_publishLease[OF assms(2)] ok by blast
  next
    case (AdapterClosed a)
    then show ?thesis using assms ownedInv_takeHooks[OF assms(2), of a] by (auto simp: factoryWf_def split: if_splits)
  next
    case CloseBegun
    then obtain c where s': "s' = s\<lparr>fcClosed := True, fcCloser := c\<rparr>" "fcCloser s = NotClosing" "c \<noteq> CloseReturned" "c \<noteq> NotClosing"
      "closerLease c = Some (map_option fst (fcSessionLease s))"
      using assms(1) by (auto simp: beginClose_def Let_def split: closer.splits if_splits)
    then have "owned s' = owned s" by (simp add: owned_def sessionThings_def)
    moreover have "things s' = things s" by (simp add: s'(1) things_def)
    ultimately show ?thesis using assms(2) s' by (simp add: ownedInv_def)
  next
    case (Configured e)
    then show ?thesis using assms ownedInv_shrink[OF assms(2), of "s\<lparr>fcEgress := fcEgress s + 1\<rparr>"]
      by (auto simp: ConfigureEgress_def split: option.splits)
  qed (use assms(1-3) ok in \<open>auto elim!: atOpenE split: if_splits
      dest: ownedInv_opening ownedInv_leaseForTask ownedInv_renewLease ownedInv_pooling ownedInv_launch ownedInv_hooking ownedInv_close ownedInv_runPending\<close>)
qed

lemma factoryReachable_inv:
  assumes "factoryReachable (initialFactory dir) s"
  shows "factoryWf s \<and> sessions.total s = 1 \<and> sessionInv s \<and> ownedInv s"
  using assms
proof (induction rule: factoryReachable.induct)
  case refl
  show ?case using initial_ok[of dir]
    by (simp add: maximumSessionCapacity_def) (simp add: initialFactory_def sessionInv_def ownedInv_def things_def)
next
  case (step s ev s')
  then show ?case using factoryStep_wf sessions.step_total sessionInv_step ownedInv_step by metis
qed






text \<open>Runs as lists of events.\<close>

fun runFactory :: "factoryEvent list \<Rightarrow> Factory \<Rightarrow> Factory option" where
  "runFactory [] s = Some s"
| "runFactory (ev # evs) s = Option.bind (factoryStep ev s) (runFactory evs)"

lemma runFactory_reachable:
  "runFactory evs s = Some s' \<Longrightarrow> factoryReachable start s \<Longrightarrow> factoryReachable start s'"
  by (induction evs arbitrary: s) (auto split: Option.bind_splits intro: factoryReachable.step)

definition sampleScan :: browserTask where
  "sampleScan = \<lparr>btPurpose = PurposeScan, btEgressPolicyID = PolicyScanDefault, btSessionKey = [], btHeadless = True,
     btStartMinimized = False, btLocale = ''ko-KR'', btTimeZone = ''Asia/Seoul''\<rparr>"

definition sampleLogin :: browserTask where
  "sampleLogin = sampleScan\<lparr>btPurpose := PurposeSession\<rparr>"

text \<open>A scan and a session open together; the launch of the session fails; the scan is closed and the factory, too.\<close>

definition sampleOpening :: "factoryEvent list" where
  "sampleOpening = [OpenCalled sampleScan None, OpenCalled sampleLogin None, SlotTaken 0, SessionTaken 1, SlotTaken 1, SlotEntered 0 None,
     LeaseAsked 0 True None, PoolAsked 0 None, SlotEntered 1 None, LeaseAsked 1 True None, ProfileMade 0 (Inr ''42''), PoolSlotTaken 0,
     PoolEntered 0 None, LeaseRenewed 1 None, BrowserLaunched 0 None, LeasePublished 1, AdapterRegistered 0, PoolHooked 0, FactoryHooked 0]"

definition sampleEnding :: "factoryEvent list" where
  "sampleEnding = [PoolAsked 1 None, ProfileMade 1 (Inr []), PoolSlotTaken 1, PoolEntered 1 None, BrowserLaunched 1 (Some (errNew ''no display'')),
     AdapterClosed 0, CloseBegun, CloseContinued, HookRun 0, HookRun 0, CloseContinued, CloseContinued, CloseContinued, CloseContinued]"

definition sampleOpened :: Factory where
  "sampleOpened = the (runFactory sampleOpening (initialFactory ''/data/chrome-profile''))"

definition sampleEnded :: Factory where
  "sampleEnded = the (runFactory sampleEnding sampleOpened)"

lemma sample_runs: "runFactory sampleOpening (initialFactory ''/data/chrome-profile'') = Some sampleOpened" "runFactory sampleEnding sampleOpened = Some sampleEnded"
proof -
  have "runFactory sampleOpening (initialFactory ''/data/chrome-profile'') \<noteq> None" by code_simp
  then show "runFactory sampleOpening (initialFactory ''/data/chrome-profile'') = Some sampleOpened" by (auto simp: sampleOpened_def)
  have "runFactory sampleEnding sampleOpened \<noteq> None" by code_simp
  then show "runFactory sampleEnding sampleOpened = Some sampleEnded" by (auto simp: sampleEnded_def)
qed

lemma sample_reachable:
  "factoryReachable (initialFactory ''/data/chrome-profile'') sampleOpened" "factoryReachable (initialFactory ''/data/chrome-profile'') sampleEnded"
  using runFactory_reachable[OF sample_runs(1) factoryReachable.refl] runFactory_reachable[OF sample_runs(2)] by blast+

theorem factory_slots_conserved_witness:
  "heldSlots sampleOpened = [1, 0] \<and> distinct (heldSlots sampleOpened) \<and> length (filter hdSession (runningHeld sampleOpened)) \<le> 1"
proof -
  have "NewFactory True ''/data/chrome-profile'' = Inr (initialFactory ''/data/chrome-profile'')" by (simp add: NewFactory_def)
  from factory_slots_conserved[OF this sample_reachable(1)] have "distinct (heldSlots sampleOpened) \<and> length (filter hdSession (runningHeld sampleOpened)) \<le> 1"
    by blast
  moreover have "heldSlots sampleOpened = [1, 0]" by code_simp
  ultimately show ?thesis by blast
qed


section \<open>Closing stops every browser\<close>

fun openingOf :: "openPhase \<Rightarrow> nat" where
  "openingOf (Launching _) = 1"
| "openingOf (Launched _ _) = 1"
| "openingOf (Registered _ _) = 1"
| "openingOf _ = 0"

definition openings :: "Factory \<Rightarrow> nat" where
  "openings s = sum_list (map openingOf (fcOpens s))"

fun poolClosing :: "closer \<Rightarrow> bool" where
  "poolClosing NotClosing \<longleftrightarrow> False"
| "poolClosing (ClosePool _) \<longleftrightarrow> False"
| "poolClosing _ \<longleftrightarrow> True"

fun drained :: "closer \<Rightarrow> bool" where
  "drained (CloseAdapters _ _) \<longleftrightarrow> True"
| "drained (CloseSession _) \<longleftrightarrow> True"
| "drained CloseReturned \<longleftrightarrow> True"
| "drained _ \<longleftrightarrow> False"

text \<open>An adapter that runs is being registered, or is in the pool, or on the list of the closing pool.\<close>

definition supervised :: "Factory \<Rightarrow> BrowserPool \<Rightarrow> nat \<Rightarrow> bool" where
  "supervised s p a \<longleftrightarrow> (\<exists>h. Launched h a \<in> set (fcOpens s)) \<or> a \<in> set (if bpClosed p then closerAdapters (fcCloser s) else bpActive p)"

definition closeInv :: "Factory \<Rightarrow> bool" where
  "closeInv s \<longleftrightarrow> (case fcPool s of
       None \<Rightarrow> fcAdapters s = [] \<and> openings s = 0
     | Some p \<Rightarrow> bpOpenings p = openings s \<and> (bpClosed p \<longleftrightarrow> poolClosing (fcCloser s)) \<and> (drained (fcCloser s) \<longrightarrow> openings s = 0)
         \<and> (\<forall>a < length (fcAdapters s). \<not> adClosed (fcAdapters s ! a) \<longrightarrow> supervised s p a)
         \<and> (\<forall>a < length (fcAdapters s). \<forall>b. PoolHook b \<in> set (allHooks (fcAdapters s ! a)) \<longrightarrow> b = a))"

definition samePool :: "BrowserPool \<Rightarrow> BrowserPool \<Rightarrow> bool" where
  "samePool p q \<longleftrightarrow> bpActive q = bpActive p \<and> bpClosed q = bpClosed p \<and> bpOpenings q = bpOpenings p"

lemma samePool_refl [simp]: "samePool p p" "rel_option samePool x x"
  by (simp add: samePool_def) (cases x; simp add: samePool_def)

lemma samePool_map [simp]: "\<forall>p. samePool p (f p) \<Longrightarrow> rel_option samePool x (map_option f x)"
  by (cases x) simp_all

lemma openings_goto: "i < length (fcOpens s) \<Longrightarrow> openings (goto i p s) + openingOf (fcOpens s ! i) = openings s + openingOf p"
  using sum_list_map_update[of i "fcOpens s" openingOf p] by (simp add: openings_def)

lemma Launched_goto:
  assumes "i < length (fcOpens s)" "Launched h a \<in> set (fcOpens s)" "fcOpens s ! i \<noteq> Launched h a"
  shows "Launched h a \<in> set (fcOpens (goto i p s))"
  using assms UN_list_update(1)[OF assms(1), of "\<lambda>q. {q}" p] by auto

text \<open>A step of an opening that is not between the two counts of \<open>openings\<close>.\<close>

lemma closeInv_goto:
  assumes "closeInv s" "i < length (fcOpens s)" "openingOf (fcOpens s ! i) = 0" "openingOf p = 0"
    "fcOpens s1 = fcOpens s" "fcAdapters s1 = fcAdapters s" "fcCloser s1 = fcCloser s"
    "rel_option samePool (fcPool s) (fcPool s1)"
  shows "closeInv (goto i p s1)"
proof -
  have o: "openings (goto i p s1) = openings s" using openings_goto[of i s1 p] assms(2-5) by (simp add: openings_def)
  have l: "Launched h a \<in> set ((fcOpens s)[i := p])" if "Launched h a \<in> set (fcOpens s)" for h a
  proof -
    have "fcOpens s ! i \<noteq> Launched h a" using assms(3) by auto
    then show ?thesis using Launched_goto[OF assms(2) that, of p] by simp
  qed
  have sup: "supervised (goto i p s1) q' a" if "supervised s q a" "bpClosed q' = bpClosed q" "bpActive q' = bpActive q" for q q' a
    using that l assms(5,7) by (auto simp: supervised_def)
  show ?thesis
  proof (cases "fcPool s")
    case None
    then show ?thesis using assms(1,6,8) by (auto simp: closeInv_def o)
  next
    case (Some q)
    then obtain q' where q': "fcPool s1 = Some q'" "bpActive q' = bpActive q" "bpClosed q' = bpClosed q" "bpOpenings q' = bpOpenings q"
      using assms(8) by (auto simp: option_rel_Some1 samePool_def)
    have "\<forall>a < length (fcAdapters s). \<not> adClosed (fcAdapters s ! a) \<longrightarrow> supervised (goto i p s1) q' a"
      using assms(1) sup q'(2,3) by (auto simp: closeInv_def Some)
    then show ?thesis using assms(1,6,7) q' by (simp add: closeInv_def Some o)
  qed
qed

lemma closeInv_fail:
  assumes "closeInv s" "i < length (fcOpens s)" "openingOf (fcOpens s ! i) = 0"
    "fcOpens s1 = fcOpens s" "fcAdapters s1 = fcAdapters s" "fcCloser s1 = fcCloser s"
    "rel_option samePool (fcPool s) (fcPool s1)"
  shows "closeInv (failOpen i e h s1)"
  unfolding failOpen_def by (rule closeInv_goto[OF assms(1-3)]) (use assms in auto)

lemma closeInv_early:
  assumes "closeInv s" "i < length (fcOpens s)" "f (fcOpens s ! i) s = Some s'"
    "f = cancelWait i e \<or> f = refuseWait i \<or> f = takeSession i \<or> f = takeSlot i \<or> f = enterSlot i ce
      \<or> f = leaseForTask i alive ce \<or> f = renewLease i ce \<or> f = publishLease i \<or> f = makeProfile i r"
  shows "closeInv s'"
  using assms(3,4)
  by (cases "fcOpens s ! i")
    (auto simp: opening_defs leasing_defs makeProfile_def Let_def split: if_splits option.splits list.splits prod.splits sum.splits
      intro!: closeInv_goto[OF assms(1,2)] closeInv_fail[OF assms(1,2)])

lemma closeInv_pool:
  assumes "closeInv s" "i < length (fcOpens s)" "f (fcOpens s ! i) s = Some s'" "f = browserPool i ce \<or> f = takePoolSlot i"
    "fcClosed s \<longleftrightarrow> fcCloser s \<noteq> NotClosing"
  shows "closeInv s'"
proof -
  have new: "closeInv (s\<lparr>fcPool := Some (NewBrowserPool n)\<rparr>)" if "fcPool s = None" "fcCloser s = NotClosing" for n
    using assms(1) that by (simp add: closeInv_def NewBrowserPool_def openings_def)
  have make: "closeInv (goto i (HasPool t h) (s\<lparr>fcPool := Some (NewBrowserPool n)\<rparr>))"
    if "fcPool s = None" "fcCloser s = NotClosing" "fcOpens s ! i = Leased t h" for n t h
    by (rule closeInv_goto[OF new[OF that(1,2), of n], where i = i]) (use assms(2) that(3) in auto)
  show ?thesis
  proof (cases "fcOpens s ! i")
    case (Leased t h)
    have keep: "closeInv (goto i (HasPool t h) s)" by (rule closeInv_goto[OF assms(1,2)]) (simp_all add: Leased)
    have fail: "closeInv (failOpen i e h s)" for e by (rule closeInv_fail[OF assms(1,2)]) (simp_all add: Leased)
    show ?thesis using assms(3-5) make keep fail Leased
      by (auto simp: browserPool_def takePoolSlot_def split: if_splits option.splits)
  next
    case (AwaitPool h)
    then show ?thesis using assms(3,4)
      by (auto simp: browserPool_def takePoolSlot_def samePool_def split: if_splits option.splits intro!: closeInv_goto[OF assms(1,2)])
  qed (use assms(3,4) in \<open>auto simp: browserPool_def takePoolSlot_def split: option.splits\<close>)
qed

lemma closeInv_cong:
  assumes "fcOpens s' = fcOpens s" "fcAdapters s' = fcAdapters s" "fcCloser s' = fcCloser s" "fcPool s' = fcPool s"
  shows "closeInv s' = closeInv s"
  by (cases "fcPool s") (simp_all add: closeInv_def openings_def supervised_def assms)

lemma poolHook_adapters:
  assumes "closeInv s" "fcPool s = Some p" "PoolHook b \<in> set (allHooks (fcAdapters s ! a))" "a < length (fcAdapters s)"
  shows "b = a"
  using assms by (simp add: closeInv_def)

text \<open>Hooks run on closed adapters only, so an adapter leaves the pool after it was closed.\<close>

lemma closeInv_releaseAdapter:
  assumes "closeInv s" "a < length (fcAdapters s)" "adClosed (fcAdapters s ! a)"
  shows "closeInv (onPool (releaseAdapter a) s)"
proof (cases "fcPool s")
  case None
  then show ?thesis using assms by (simp add: closeInv_def openings_def)
next
  case (Some p)
  let ?p = "releaseAdapter a p"
  have f: "bpOpenings ?p = bpOpenings p" "bpClosed ?p = bpClosed p" "set (bpActive p) - {a} \<subseteq> set (bpActive ?p)"
    by (auto simp: releaseAdapter_def putPoolSlot_def)
  have "supervised (onPool (releaseAdapter a) s) ?p b" if "supervised s p b" "b \<noteq> a" for b
    using that f(2,3) by (auto simp: supervised_def)
  then show ?thesis using assms f(1,2) by (auto simp: closeInv_def Some openings_def)
qed

lemma closeInv_runHook:
  assumes "closeInv s" "a < length (fcAdapters s)" "adClosed (fcAdapters s ! a)" "\<And>b. k = PoolHook b \<Longrightarrow> b = a"
  shows "closeInv (runHook k s)"
proof (cases k)
  case (PoolHook b)
  then have "b = a" using assms(4) by blast
  then show ?thesis using closeInv_releaseAdapter[OF assms(1-3)] PoolHook by simp
next
  case (FactoryHook h)
  then show ?thesis using assms(1) by (simp add: closeInv_cong[of "releaseHeld h s" s])
qed

lemma closeInv_adapter:
  assumes "closeInv s" "a < length (fcAdapters s)" "adClosed (fcAdapters s ! a) \<longrightarrow> adClosed ad"
    "\<And>b. PoolHook b \<in> set (allHooks ad) \<Longrightarrow> b = a"
  shows "closeInv (s\<lparr>fcAdapters := (fcAdapters s)[a := ad]\<rparr>)"
proof (cases "fcPool s")
  case None
  then show ?thesis using assms by (simp add: closeInv_def openings_def)
next
  case (Some p)
  let ?s = "s\<lparr>fcAdapters := (fcAdapters s)[a := ad]\<rparr>"
  have sup: "supervised ?s p b = supervised s p b" for b by (simp add: supervised_def)
  have "\<not> adClosed ((fcAdapters s)[a := ad] ! b) \<Longrightarrow> b < length (fcAdapters s) \<Longrightarrow> \<not> adClosed (fcAdapters s ! b)" for b
    using assms(3) by (cases "b = a") auto
  moreover have "\<forall>b < length (fcAdapters s). \<forall>c. PoolHook c \<in> set (allHooks ((fcAdapters s)[a := ad] ! b)) \<longrightarrow> c = b"
    using assms(1,2,4) by (auto simp: closeInv_def Some nth_list_update)
  ultimately show ?thesis using assms(1) by (simp add: closeInv_def Some openings_def sup)
qed

lemma closeInv_takeHooks:
  assumes "closeInv s" "a < length (fcAdapters s)" shows "closeInv (takeHooks a s)"
proof (cases "fcPool s")
  case (Some p)
  then have "b = a" if "PoolHook b \<in> set (adHooks (fcAdapters s ! a))" for b
    using poolHook_adapters[OF assms(1) Some _ assms(2)] that by (simp add: allHooks_def)
  then show ?thesis using assms by (auto simp: takeHooks_def Let_def intro!: closeInv_adapter)
qed (use assms in \<open>simp add: closeInv_def\<close>)

lemma closeInv_runPending:
  assumes "closeInv s" "a < length (fcAdapters s)" "runPending a s = Some s'" "adapterOk (fcAdapters s ! a)"
  shows "closeInv s'"
proof -
  obtain k rest where p: "adPending (fcAdapters s ! a) = k # rest"
    and s': "s' = runHook k (s\<lparr>fcAdapters := (fcAdapters s)[a := (fcAdapters s ! a)\<lparr>adPending := rest\<rparr>]\<rparr>)"
    using assms(3) by (auto simp: runPending_def Let_def split: list.splits)
  have closed: "adClosed (fcAdapters s ! a)" using assms(4) p by (auto simp: adapterOk_def)
  obtain q where q: "fcPool s = Some q" using assms(1,2) by (cases "fcPool s") (auto simp: closeInv_def)
  have mine: "b = a" if "PoolHook b \<in> set (allHooks (fcAdapters s ! a))" for b using poolHook_adapters[OF assms(1) q that assms(2)] .
  have "closeInv (s\<lparr>fcAdapters := (fcAdapters s)[a := (fcAdapters s ! a)\<lparr>adPending := rest\<rparr>]\<rparr>)"
    by (rule closeInv_adapter[OF assms(1,2)]) (use mine p in \<open>auto simp: allHooks_def\<close>)
  then show ?thesis unfolding s'
    by (rule closeInv_runHook[where a = a]) (use assms(2) closed mine p in \<open>auto simp: allHooks_def\<close>)
qed

text \<open>A step between the two counts: the number of openings, the adapters and the pool change together.\<close>

lemma closeInv_swap:
  assumes "closeInv s" "i < length (fcOpens s)" "fcPool s = Some p" "fcPool s1 = Some p'" "fcOpens s1 = fcOpens s" "fcCloser s1 = fcCloser s"
    "bpClosed p' = bpClosed p" "bpOpenings p' + openingOf (fcOpens s ! i) = bpOpenings p + openingOf q"
    "openingOf q \<le> openingOf (fcOpens s ! i) \<or> \<not> bpClosed p"
    "\<And>a. a < length (fcAdapters s1) \<Longrightarrow> \<not> adClosed (fcAdapters s1 ! a) \<Longrightarrow> (\<exists>h. q = Launched h a) \<or> a \<in> set (bpActive p') \<and> \<not> bpClosed p
       \<or> a < length (fcAdapters s) \<and> \<not> adClosed (fcAdapters s ! a) \<and> (\<forall>h. fcOpens s ! i \<noteq> Launched h a) \<and> (a \<in> set (bpActive p) \<longrightarrow> a \<in> set (bpActive p'))"
    "\<And>a b. a < length (fcAdapters s1) \<Longrightarrow> PoolHook b \<in> set (allHooks (fcAdapters s1 ! a)) \<Longrightarrow> b = a"
  shows "closeInv (goto i q s1)"
proof -
  have inv: "bpOpenings p = openings s" "bpClosed p \<longleftrightarrow> poolClosing (fcCloser s)" "drained (fcCloser s) \<longrightarrow> openings s = 0"
    "\<And>a. a < length (fcAdapters s) \<Longrightarrow> \<not> adClosed (fcAdapters s ! a) \<Longrightarrow> supervised s p a" using assms(1,3) by (simp_all add: closeInv_def)
  have o: "openings (goto i q s1) + openingOf (fcOpens s ! i) = openings s + openingOf q"
    using openings_goto[of i s1 q] assms(2,5) by (simp add: openings_def)
  have closing: "drained c \<Longrightarrow> poolClosing c" for c by (cases c) auto
  have "openings (goto i q s1) = 0" if "drained (fcCloser s)" using that o inv(2,3) assms(9) closing by auto
  moreover have "supervised (goto i q s1) p' a" if "a < length (fcAdapters s1)" "\<not> adClosed (fcAdapters s1 ! a)" for a
    using assms(10)[OF that]
  proof (elim disjE)
    assume "\<exists>h. q = Launched h a"
    then show ?thesis using set_update_memI[OF assms(2), of q] by (auto simp: supervised_def assms(5))
  next
    assume "a \<in> set (bpActive p') \<and> \<not> bpClosed p"
    then show ?thesis using assms(7) by (simp add: supervised_def)
  next
    assume a: "a < length (fcAdapters s) \<and> \<not> adClosed (fcAdapters s ! a) \<and> (\<forall>h. fcOpens s ! i \<noteq> Launched h a) \<and> (a \<in> set (bpActive p) \<longrightarrow> a \<in> set (bpActive p'))"
    then have "supervised s p a" using inv(4) by simp
    then show ?thesis using a Launched_goto[OF assms(2), of _ a q] assms(5-7) by (auto simp: supervised_def)
  qed
  ultimately show ?thesis using inv(1,2) o assms(4,6-8,11) by (auto simp: closeInv_def)
qed

lemma openings_ge: "i < length (fcOpens s) \<Longrightarrow> openingOf (fcOpens s ! i) \<le> openings s"
  unfolding openings_def by (rule member_le_sum_list) simp_all

lemma closeInv_hooks:
  assumes "closeInv s" "fcPool s = Some p"
  shows "\<And>a b. a < length (fcAdapters s) \<Longrightarrow> PoolHook b \<in> set (allHooks (fcAdapters s ! a)) \<Longrightarrow> b = a"
  using assms by (simp add: closeInv_def)

lemma closeInv_enterPool:
  assumes "closeInv s" "i < length (fcOpens s)" "enterPool i ce (fcOpens s ! i) s = Some s'"
  shows "closeInv s'"
proof -
  obtain h p where ph: "fcOpens s ! i = InPool h" "fcPool s = Some p" using assms(3) by (cases "fcOpens s ! i") (auto simp: enterPool_def split: option.splits)
  have fail: "closeInv (failInPool i e h s)" for e
    unfolding failInPool_def by (rule closeInv_fail[OF assms(1,2)]) (simp_all add: ph samePool_def putPoolSlot_def)
  have move: "closeInv (goto i (Launching h) (onPool (\<lambda>p. p\<lparr>bpOpenings := bpOpenings p + 1\<rparr>) s))" if "\<not> bpClosed p"
    by (rule closeInv_swap[OF assms(1,2) ph(2), where p' = "p\<lparr>bpOpenings := bpOpenings p + 1\<rparr>"]) (use that ph closeInv_hooks[OF assms(1) ph(2)] in auto)
  show ?thesis using assms(3) fail move by (auto simp: enterPool_def ph split: option.splits if_splits)
qed

lemma closeInv_launch:
  assumes "closeInv s" "i < length (fcOpens s)" "launch i ce (fcOpens s ! i) s = Some s'"
  shows "closeInv s'"
proof -
  obtain h where ph: "fcOpens s ! i = Launching h" using assms(3) by (cases "fcOpens s ! i") (auto simp: launch_def)
  have pos: "0 < openings s" using openings_ge[OF assms(2)] ph by simp
  then obtain p where p: "fcPool s = Some p" "bpOpenings p = openings s" using assms(1) by (cases "fcPool s") (auto simp: closeInv_def)
  have fail: "closeInv (failInPool i e h (onPool openingDone s))" for e
    unfolding failInPool_def failOpen_def
    by (rule closeInv_swap[OF assms(1,2) p(1), where p' = "putPoolSlot (openingDone p)"]) (use pos p ph closeInv_hooks[OF assms(1) p(1)] in \<open>auto simp: openingDone_def putPoolSlot_def\<close>)
  have move: "closeInv (goto i (Launched h (length (fcAdapters s))) (s\<lparr>fcAdapters := fcAdapters s @ [\<lparr>adClosed = False, adHooks = [], adPending = []\<rparr>]\<rparr>))"
    by (rule closeInv_swap[OF assms(1,2) p(1), where p' = p])
      (use p ph closeInv_hooks[OF assms(1) p(1)] in \<open>auto simp: nth_append less_Suc_eq allHooks_def split: if_splits\<close>)
  show ?thesis using assms(3) fail move by (auto simp: launch_def ph split: option.splits)
qed

lemma closeInv_AddCloseHook:
  assumes "closeInv s" "a < length (fcAdapters s)" "\<And>b. k = PoolHook b \<Longrightarrow> b = a" "fcPool s = Some p"
  shows "closeInv (AddCloseHook a k s)"
proof (cases "adClosed (fcAdapters s ! a)")
  case True
  then show ?thesis using closeInv_runHook[OF assms(1,2) True, of k] assms(3) by (auto simp: AddCloseHook_def Let_def)
next
  case False
  have "closeInv (s\<lparr>fcAdapters := (fcAdapters s)[a := (fcAdapters s ! a)\<lparr>adHooks := adHooks (fcAdapters s ! a) @ [k]\<rparr>]\<rparr>)"
    by (rule closeInv_adapter[OF assms(1,2)]) (use assms(3) closeInv_hooks[OF assms(1,4,2)] in \<open>auto simp: allHooks_def\<close>)
  then show ?thesis using False by (simp add: AddCloseHook_def Let_def)
qed

lemma closeInv_poolSome: "closeInv s \<Longrightarrow> a < length (fcAdapters s) \<Longrightarrow> \<exists>p. fcPool s = Some p \<and> bpOpenings p = openings s"
  by (cases "fcPool s") (auto simp: closeInv_def)

lemma AddCloseHook_pool:
  "fcPool s = Some p \<Longrightarrow> \<exists>p'. fcPool (AddCloseHook a k s) = Some p' \<and> bpOpenings p' = bpOpenings p"
  by (cases k) (auto simp: AddCloseHook_def Let_def releaseAdapter_def putPoolSlot_def)

lemma closeInv_hooking:
  assumes "closeInv s" "i < length (fcOpens s)" "f (fcOpens s ! i) s = Some s'" "factoryWf s"
    "f = registerAdapter i \<or> f = hookPool i \<or> f = hookFactory i"
  shows "closeInv s'"
proof -
  have wf: "adapterOf (fcOpens s ! i) = Some a \<Longrightarrow> a < length (fcAdapters s)" for a
    using factoryWf_adapter[OF assms(4,2)] by blast
  show ?thesis
  proof (cases "fcOpens s ! i")
    case (Launched h a)
    then obtain p where p: "fcPool s = Some p" "bpOpenings p = openings s" using closeInv_poolSome[OF assms(1) wf] by auto
    have pos: "0 < openings s" using openings_ge[OF assms(2)] Launched by simp
    have take: "closeInv (takeHooks a s)" "adClosed (fcAdapters (takeHooks a s) ! a)"
      using closeInv_takeHooks[OF assms(1)] wf[of a] Launched by (auto simp: takeHooks_def Let_def)
    have fail: "closeInv (failInPool i e h (onPool openingDone (takeHooks a s)))" for e
      unfolding failInPool_def failOpen_def
      by (rule closeInv_swap[OF take(1), where p = p and p' = "putPoolSlot (openingDone p)"])
        (use pos p Launched take assms(2) closeInv_hooks[OF take(1)] in \<open>auto simp: openingDone_def putPoolSlot_def\<close>)
    have move: "closeInv (goto i (Registered h a) (onPool (\<lambda>p. p\<lparr>bpActive := a # bpActive p\<rparr>) s))" if "\<not> bpClosed p"
      by (rule closeInv_swap[OF assms(1,2) p(1), where p' = "p\<lparr>bpActive := a # bpActive p\<rparr>"])
        (use that p Launched closeInv_hooks[OF assms(1) p(1)] in auto)
    show ?thesis using assms(3,5) fail move p(1) Launched by (auto simp: registerAdapter_def hookPool_def hookFactory_def split: if_splits)
  next
    case (Registered h a)
    then obtain p where p: "fcPool s = Some p" "bpOpenings p = openings s" using closeInv_poolSome[OF assms(1) wf] by auto
    let ?s1 = "AddCloseHook a (PoolHook a) s"
    have pos: "0 < openings s" using openings_ge[OF assms(2)] Registered by simp
    have inv: "closeInv ?s1" by (rule closeInv_AddCloseHook[OF assms(1) wf _ p(1)]) (simp_all add: Registered)
    obtain p1 where p1: "fcPool ?s1 = Some p1" "bpOpenings p1 = bpOpenings p" using AddCloseHook_pool[OF p(1)] by blast
    have "closeInv (goto i (Adopted h a) (onPool openingDone ?s1))"
      by (rule closeInv_swap[OF inv _ p1(1), where p' = "openingDone p1"])
        (use pos p p1 Registered assms(2) closeInv_hooks[OF inv p1(1)] in \<open>auto simp: openingDone_def\<close>)
    then show ?thesis using assms(3,5) Registered by (auto simp: registerAdapter_def hookPool_def hookFactory_def)
  next
    case (Adopted h a)
    then obtain p where p: "fcPool s = Some p" using closeInv_poolSome[OF assms(1) wf] by auto
    have "closeInv (AddCloseHook a (FactoryHook h) s)" by (rule closeInv_AddCloseHook[OF assms(1) wf _ p]) (simp_all add: Adopted)
    then have "closeInv (goto i (OpenReturned a) (AddCloseHook a (FactoryHook h) s))"
      by (rule closeInv_goto) (use assms(2) Adopted in auto)
    then show ?thesis using assms(3,5) Adopted by (auto simp: registerAdapter_def hookPool_def hookFactory_def)
  qed (use assms(3,5) in \<open>auto simp: registerAdapter_def hookPool_def hookFactory_def\<close>)
qed

lemma closeInv_close:
  assumes "closeInv s" "continueClose s = Some s'" "factoryWf s"
  shows "closeInv s'"
proof (cases "fcCloser s")
  case (ClosePool lease)
  then obtain p where p: "fcPool s = Some p" using assms(2) by (auto simp: continueClose_def split: option.splits)
  then show ?thesis using assms(1,2) ClosePool by (auto simp: continueClose_def closeInv_def openings_def supervised_def)
next
  case (AwaitOpenings as lease)
  then obtain p where p: "fcPool s = Some p" "bpOpenings p = 0" using assms(2) by (auto simp: continueClose_def split: option.splits if_splits)
  then show ?thesis using assms(1,2) AwaitOpenings by (auto simp: continueClose_def closeInv_def openings_def supervised_def)
next
  case (CloseAdapters as lease)
  show ?thesis
  proof (cases as)
    case Nil
    then show ?thesis using assms(1,2) CloseAdapters
      by (cases "fcPool s") (auto simp: continueClose_def closeInv_def openings_def supervised_def)
  next
    case (Cons a rest)
    then have a: "a < length (fcAdapters s)" using assms(3) CloseAdapters by (simp add: factoryWf_def)
    have t: "closeInv (takeHooks a s)" "adClosed (fcAdapters (takeHooks a s) ! a)"
      using closeInv_takeHooks[OF assms(1) a] a by (auto simp: takeHooks_def Let_def)
    obtain p where p: "fcPool s = Some p" using closeInv_poolSome[OF assms(1) a] by blast
    have "bpClosed p" using assms(1) CloseAdapters by (simp add: closeInv_def p)
    then have "closeInv (takeHooks a s\<lparr>fcCloser := CloseAdapters rest lease\<rparr>)"
      using t CloseAdapters Cons by (auto simp: closeInv_def p openings_def supervised_def)
    then show ?thesis using assms(2) t CloseAdapters Cons by (auto simp: continueClose_def Let_def split: if_splits)
  qed
next
  case (CloseSession lease)
  have "closeInv (s\<lparr>fcCloser := CloseReturned\<rparr>)"
    using assms(1) CloseSession by (cases "fcPool s") (auto simp: closeInv_def openings_def supervised_def)
  then show ?thesis using assms(2) CloseSession closeInv_cong[of "closeLease lease (s\<lparr>fcCloser := CloseReturned\<rparr>)" "s\<lparr>fcCloser := CloseReturned\<rparr>"]
    by (auto simp: continueClose_def)
qed (use assms in \<open>auto simp: continueClose_def\<close>)

lemma closeInv_step:
  assumes "factoryStep ev s = Some s'" "closeInv s" "factoryWf s" "fcClosed s \<longleftrightarrow> fcCloser s \<noteq> NotClosing"
  shows "closeInv s'"
proof (cases ev)
  case (OpenCalled t e)
  have "openingOf (startOpen t e) = 0" by (simp add: startOpen_def split: option.split)
  then have o: "openings (s\<lparr>fcOpens := fcOpens s @ [startOpen t e]\<rparr>) = openings s" by (simp add: openings_def)
  have "supervised s p a \<Longrightarrow> supervised (s\<lparr>fcOpens := fcOpens s @ [startOpen t e]\<rparr>) p a" for p a by (auto simp: supervised_def)
  then show ?thesis using assms(1,2) OpenCalled o by (cases "fcPool s") (auto simp: closeInv_def)
next
  case (AdapterClosed a)
  then show ?thesis using assms closeInv_takeHooks[OF assms(2), of a] by (auto split: if_splits)
next
  case (HookRun a)
  then have a: "a < length (fcAdapters s)" "runPending a s = Some s'" using assms(1) by (auto split: if_splits)
  then have "adapterOk (fcAdapters s ! a)" using assms(3) by (simp add: factoryWf_def)
  then show ?thesis using closeInv_runPending[OF assms(2) a] by blast
next
  case CloseBegun
  then show ?thesis using assms(1,2)
    by (cases "fcPool s") (auto simp: beginClose_def Let_def closeInv_def openings_def supervised_def split: closer.splits)
next
  case (Configured e)
  then show ?thesis using assms closeInv_cong[of "s\<lparr>fcEgress := fcEgress s + 1\<rparr>" s] by (auto simp: ConfigureEgress_def split: option.splits)
qed (use assms in \<open>auto elim!: atOpenE dest: closeInv_early closeInv_pool closeInv_enterPool closeInv_launch closeInv_hooking closeInv_close\<close>)

text \<open>
  C5. Closing the factory stops every browser: when \<open>Close\<close> has returned, every adapter that was ever
  launched is closed, those launched or registered while it ran included, and no call of \<open>Open\<close> is
  between the launch of a browser and its registration.
\<close>

theorem factory_close_stops_browsers:
  assumes "NewFactory hasManager dir = Inr start" "factoryReachable start s" "fcCloser s = CloseReturned"
  shows "(\<forall>ad \<in> set (fcAdapters s). adClosed ad) \<and> (\<forall>p \<in> set (fcOpens s). openingOf p = 0)"
proof -
  have start: "start = initialFactory dir" using assms(1) by (simp add: NewFactory_def split: if_splits)
  have "closeInv s" using assms(2) unfolding start
  proof (induction rule: factoryReachable.induct)
    case refl
    show ?case by (simp add: initialFactory_def closeInv_def openings_def)
  next
    case (step s ev s')
    from factoryReachable_inv[OF step(1)] have "factoryWf s" "fcClosed s \<longleftrightarrow> fcCloser s \<noteq> NotClosing" by (simp_all add: ownedInv_def)
    then show ?case using closeInv_step[OF step(2)] step by blast
  qed
  then have o: "openings s = 0" and live: "\<forall>a < length (fcAdapters s). \<not> adClosed (fcAdapters s ! a) \<longrightarrow> (\<exists>h. Launched h a \<in> set (fcOpens s))"
    using assms(3) by (auto simp: closeInv_def supervised_def split: option.splits)
  have none: "\<forall>p \<in> set (fcOpens s). openingOf p = 0" using o by (simp add: openings_def)
  then have "Launched h a \<notin> set (fcOpens s)" for h a by (metis openingOf.simps(2) zero_neq_one)
  then show ?thesis using live none by (auto simp: all_set_conv_all_nth)
qed

theorem factory_close_stops_browsers_witness:
  "length (fcAdapters sampleEnded) = 1 \<and> list_all adClosed (fcAdapters sampleEnded)"
proof -
  have new: "NewFactory True ''/data/chrome-profile'' = Inr (initialFactory ''/data/chrome-profile'')" by (simp add: NewFactory_def)
  have "fcCloser sampleEnded = CloseReturned" "length (fcAdapters sampleEnded) = 1" by code_simp+
  then show ?thesis using factory_close_stops_browsers[OF new sample_reachable(2)] by (simp add: list_all_iff)
qed

end
