(* ===== verification/BrowserIdentity.thy ===== *)
theory BrowserIdentity
  imports BrowserFactory
begin

text \<open>
  The identity a browser shows (\<open>internal/provider/cgv/user_agent.go\<close>, \<open>session_identity.go\<close> and the
  request headers of \<open>browser.go\<close>): the Chrome version a task runs as, the user agent reduced to it, the
  brands of the client hints, and the checks on an identity before it is stored or used again. The
  output of \<open>chrome --version\<close>, the random draw, the operating system and architecture and what the page
  answers are arguments. The scripts handed to the page are not modelled.
\<close>


section \<open>Versions\<close>

record browserUserAgent =
  uaValue :: string
  uaMajor :: string
  uaFullVersion :: string

record uaBrandVersion =
  ubBrand :: string
  ubVersion :: string

definition invalidChromeVersion :: "string \<Rightarrow> goerr" where
  "invalidChromeVersion version = errNew (''invalid Chrome version '' @ quoteGo version)"

definition chromeMajor :: "string \<Rightarrow> int result" where
  "chromeMajor version =
    (let parts = Split (CHR ''.'') version in
     if length parts \<noteq> 4 then Inl (invalidChromeVersion version)
     else if \<exists>p \<in> set parts. p = [] \<or> Atoi p = None then Inl (invalidChromeVersion version)
     else case Atoi (hd parts) of
         None \<Rightarrow> Inl (invalidChromeVersion version)
       | Some major \<Rightarrow> if major \<le> 0 then Inl (invalidChromeVersion version) else Inr major)"

definition makeBrowserUserAgent :: "string \<Rightarrow> browserUserAgent result" where
  "makeBrowserUserAgent fullVersion =
    bindR (chromeMajor fullVersion) (\<lambda>major. Inr \<lparr>uaValue = [], uaMajor = Itoa major, uaFullVersion = fullVersion\<rparr>)"

definition scanVersionPlatform :: "string \<Rightarrow> string \<Rightarrow> string" where
  "scanVersionPlatform goos goarch =
    (if goos = ''darwin'' then (if goarch = ''arm64'' then ''mac_arm64'' else ''mac'')
     else if goos = ''linux'' then ''linux'' else if goos = ''windows'' then ''win64'' else [])"

definition verifiedScanChromeVersions :: "string \<Rightarrow> string list" where
  "verifiedScanChromeVersions platform =
    (if platform = ''linux'' then [''151.0.7922.137'', ''150.0.7871.186'', ''149.0.7827.200'']
     else if platform \<in> {''mac'', ''mac_arm64'', ''win64''} then [''151.0.7922.138'', ''150.0.7871.189'', ''149.0.7827.201'']
     else [])"

text \<open>The versions are read once per executable; the cache keeps what was read.\<close>

definition installedChromeVersion :: "string \<Rightarrow> string result \<Rightarrow> (string \<rightharpoonup> string) \<Rightarrow> string result \<times> (string \<rightharpoonup> string)" where
  "installedChromeVersion chromePath output cache =
    (case cache chromePath of
       Some version \<Rightarrow> (Inr version, cache)
     | None \<Rightarrow>
         (case output of
            Inl e \<Rightarrow> (Inl (wrapE ''read Chrome version'' e), cache)
          | Inr text \<Rightarrow>
              if Fields text = [] then (Inl (errNew ''read Chrome version: empty output''), cache)
              else (let version = last (Fields text) in
                    case chromeMajor version of
                      Inl e \<Rightarrow> (Inl (wrapE ''read Chrome version'' e), cache)
                    | Inr _ \<Rightarrow> (Inr version, cache(chromePath \<mapsto> version)))))"

definition scanCandidate :: "int \<Rightarrow> string \<Rightarrow> bool" where
  "scanCandidate installedMajor version =
    (case chromeMajor version of Inl _ \<Rightarrow> False | Inr major \<Rightarrow> major \<le> installedMajor \<and> installedMajor - major \<le> 2)"

definition scanCandidates :: "string \<Rightarrow> int \<Rightarrow> string list \<Rightarrow> string list" where
  "scanCandidates installed installedMajor versions =
    keepFirst id (installed # filter (scanCandidate installedMajor) versions)"

text \<open>\<open>draw n\<close> is the answer of \<open>rand.Int\<close> for the bound \<open>n\<close>.\<close>

definition selectBrowserUserAgent ::
  "string \<Rightarrow> string \<Rightarrow> string result \<Rightarrow> string \<Rightarrow> (int \<Rightarrow> int result) \<Rightarrow> browserUserAgent result" where
  "selectBrowserUserAgent goos goarch installedVersion mode draw =
    bindR installedVersion (\<lambda>installed.
    if mode = [] \<or> mode = UserAgentSession then makeBrowserUserAgent installed
    else if mode \<noteq> UserAgentRandomizedScan then Inl (errNew (''unsupported user agent mode '' @ quoteGo mode))
    else
      bindR (chromeMajor installed) (\<lambda>installedMajor.
      let candidates = scanCandidates installed installedMajor (verifiedScanChromeVersions (scanVersionPlatform goos goarch)) in
      bindR (mapErr (wrapE ''select randomized scan user agent'') (draw (int (length candidates)))) (\<lambda>index.
      makeBrowserUserAgent (candidates ! nat index))))"


section \<open>The user agent\<close>

definition chromeToken :: "string \<Rightarrow> bool" where
  "chromeToken field \<longleftrightarrow> HasPrefix field ''HeadlessChrome/'' \<or> HasPrefix field ''Chrome/''"

text \<open>The first product token of Chrome is replaced; \<open>None\<close> when there is none.\<close>

fun reduceFields :: "string \<Rightarrow> string list \<Rightarrow> string list option" where
  "reduceFields token [] = None"
| "reduceFields token (f # fs) = (if chromeToken f then Some (token # fs) else map_option ((#) f) (reduceFields token fs))"

definition productToken :: "string \<Rightarrow> string" where
  "productToken major = ''Chrome/'' @ major @ ''.0.0.0''"

text \<open>What the page answers for \<open>navigator.userAgent\<close>: an error, or a value that may be no string.\<close>

definition readNativeReducedUserAgent :: "string option result \<Rightarrow> string \<Rightarrow> string result" where
  "readNativeReducedUserAgent page major =
    bindR (mapErr (wrapE ''read native browser user agent'') page) (\<lambda>value.
    case value of
      None \<Rightarrow> Inl (errNew ''native browser user agent is empty'')
    | Some native \<Rightarrow>
        if TrimSpace native = [] then Inl (errNew ''native browser user agent is empty'')
        else case reduceFields (productToken major) (Fields native) of
            None \<Rightarrow> Inl (errNew ''native browser user agent has no Chrome product token'')
          | Some reduced \<Rightarrow> Inr (Join reduced '' ''))"


section \<open>Client hints\<close>

record userAgentBootstrapIdentity =
  uiBrands :: "uaBrandVersion list"
  uiFullVersionList :: "uaBrandVersion list"
  uiPlatform :: string
  uiPlatformVersion :: string
  uiArchitecture :: string
  uiBitness :: string
  uiMobile :: bool
  uiWow64 :: bool
  uiFormFactors :: "string list"

definition browserArchitecture :: "string \<Rightarrow> string" where
  "browserArchitecture goarch = (if goarch = ''arm64'' then ''arm'' else ''x86'')"

definition browserUADataPlatform :: "string \<Rightarrow> string" where
  "browserUADataPlatform goos = (if goos = ''darwin'' then ''macOS'' else if goos = ''windows'' then ''Windows'' else ''Linux'')"

definition replaceBrand :: "string \<Rightarrow> uaBrandVersion \<Rightarrow> uaBrandVersion" where
  "replaceBrand version b = (if ubBrand b \<in> {''Chromium'', ''Google Chrome''} then b\<lparr>ubVersion := version\<rparr> else b)"

definition replaceBrowserProductVersions :: "string \<Rightarrow> uaBrandVersion list \<Rightarrow> bool \<times> uaBrandVersion list" where
  "replaceBrowserProductVersions version brands =
    (\<exists>b \<in> set brands. ubBrand b = ''Chromium'', map (replaceBrand version) brands)"

text \<open>The checks of \<open>readNativeUserAgentIdentity\<close> on what the page reported; \<open>||\<close> stops at the first list without Chromium.\<close>

definition readNativeUserAgentIdentity ::
  "userAgentBootstrapIdentity result \<Rightarrow> browserUserAgent \<Rightarrow> userAgentBootstrapIdentity result" where
  "readNativeUserAgentIdentity reported selected =
    bindR reported (\<lambda>identity.
    let (found1, brands) = replaceBrowserProductVersions (uaMajor selected) (uiBrands identity);
        (found2, versions) = replaceBrowserProductVersions (uaFullVersion selected) (uiFullVersionList identity)
    in if \<not> found1 \<or> \<not> found2 then Inl (errNew ''native browser UA metadata has no Chromium brand'')
       else if TrimSpace (uiPlatform identity) = [] \<or> TrimSpace (uiArchitecture identity) = [] \<or> TrimSpace (uiBitness identity) = []
       then Inl (errNew ''native browser UA metadata is incomplete'')
       else Inr (identity\<lparr>uiBrands := brands, uiFullVersionList := versions\<rparr>))"

definition formatBrandHeader :: "uaBrandVersion list \<Rightarrow> string" where
  "formatBrandHeader brands = Join (map (\<lambda>b. quoteGo (ubBrand b) @ '';v='' @ quoteGo (ubVersion b)) brands) '', ''"

definition conditionalHeaders :: "browserUserAgent \<Rightarrow> userAgentBootstrapIdentity \<Rightarrow> (string \<times> string) list" where
  "conditionalHeaders selected identity =
    [(''sec-ch-ua-full-version-list'', formatBrandHeader (uiFullVersionList identity)),
     (''sec-ch-ua-full-version'', quoteGo (uaFullVersion selected)),
     (''sec-ch-ua-platform-version'', quoteGo (uiPlatformVersion identity)),
     (''sec-ch-ua-arch'', quoteGo (uiArchitecture identity)),
     (''sec-ch-ua-bitness'', quoteGo (uiBitness identity)),
     (''sec-ch-ua-model'', [CHR 0x22, CHR 0x22]),
     (''sec-ch-ua-wow64'', ''?0''),
     (''sec-ch-ua-form-factors'', quoteGo ''Desktop'')]"

definition applyUserAgentHeaders ::
  "(string \<rightharpoonup> string) \<Rightarrow> browserUserAgent \<Rightarrow> userAgentBootstrapIdentity \<Rightarrow> (string \<rightharpoonup> string)" where
  "applyUserAgentHeaders headers selected identity =
    (let h1 = headers(''user-agent'' \<mapsto> uaValue selected, ''sec-ch-ua'' \<mapsto> formatBrandHeader (uiBrands identity),
                      ''sec-ch-ua-mobile'' \<mapsto> ''?0'', ''sec-ch-ua-platform'' \<mapsto> quoteGo (uiPlatform identity))
     in fold (\<lambda>(name, value) h. if h name \<noteq> None then h(name \<mapsto> value) else h) (conditionalHeaders selected identity) h1)"

section \<open>The stored identity\<close>

record webGLIdentity =
  wgVendor :: string
  wgRenderer :: string

definition sessionIdentityVersion :: int where "sessionIdentityVersion = 1"

record persistentBrowserIdentity =
  piVersion :: int
  piUserAgent :: browserUserAgent
  piMetadata :: userAgentBootstrapIdentity
  piLanguages :: "string list"
  piWebGL :: webGLIdentity

definition userAgentMatchesPlatform :: "string \<Rightarrow> string \<Rightarrow> bool" where
  "userAgentMatchesPlatform value platform =
    (if platform = ''macOS'' then Contains value ''(Macintosh;'' \<and> \<not> Contains value ''Windows NT'' \<and> \<not> Contains value ''X11; Linux''
     else if platform = ''Windows'' then Contains value ''(Windows NT'' \<and> \<not> Contains value ''Macintosh;'' \<and> \<not> Contains value ''X11; Linux''
     else if platform = ''Linux'' then Contains value ''X11; Linux'' \<and> \<not> Contains value ''Macintosh;'' \<and> \<not> Contains value ''Windows NT''
     else False)"

definition validateUserAgent :: "persistentBrowserIdentity \<Rightarrow> unit result" where
  "validateUserAgent identity =
    (let ua = piUserAgent identity in
     if TrimSpace (uaValue ua) = [] \<or> TrimSpace (uaMajor ua) = [] \<or> TrimSpace (uaFullVersion ua) = [] then Inl (errNew ''user agent is incomplete'')
     else if (case chromeMajor (uaFullVersion ua) of Inl _ \<Rightarrow> True | Inr major \<Rightarrow> uaMajor ua \<noteq> Itoa major) then Inl (errNew ''user agent version is inconsistent'')
     else if \<not> Contains (uaValue ua) (productToken (uaMajor ua)) then Inl (errNew ''user agent product version is inconsistent'')
     else guardR (userAgentMatchesPlatform (uaValue ua) (uiPlatform (piMetadata identity))) (errNew ''user agent platform is inconsistent''))"

definition hasBrandVersion :: "uaBrandVersion list \<Rightarrow> string \<Rightarrow> string \<Rightarrow> bool" where
  "hasBrandVersion brands brand version \<longleftrightarrow> (\<exists>b \<in> set brands. ubBrand b = brand \<and> ubVersion b = version)"

definition validateMetadata :: "string \<Rightarrow> string \<Rightarrow> persistentBrowserIdentity \<Rightarrow> unit result" where
  "validateMetadata goos goarch identity =
    (let m = piMetadata identity in
     if TrimSpace (uiPlatform m) = [] \<or> TrimSpace (uiArchitecture m) = [] \<or> TrimSpace (uiBitness m) = [] \<or> uiBrands m = [] \<or> uiFullVersionList m = []
     then Inl (errNew ''user agent metadata is incomplete'')
     else if uiPlatform m \<noteq> browserUADataPlatform goos \<or> uiArchitecture m \<noteq> browserArchitecture goarch \<or> uiBitness m \<noteq> ''64'' \<or> uiMobile m
     then Inl (errNew ''user agent metadata does not match this browser runtime'')
     else guardR (hasBrandVersion (uiBrands m) ''Chromium'' (uaMajor (piUserAgent identity))
                  \<and> hasBrandVersion (uiFullVersionList m) ''Chromium'' (uaFullVersion (piUserAgent identity)))
            (errNew ''user agent brands are inconsistent''))"

definition validateBrowserSurfaces :: "string \<Rightarrow> persistentBrowserIdentity \<Rightarrow> unit result" where
  "validateBrowserSurfaces goos identity =
    (let w = piWebGL identity in
     if piLanguages identity = [] \<or> TrimSpace (hd (piLanguages identity)) = [] then Inl (errNew ''languages are incomplete'')
     else if TrimSpace (wgVendor w) = [] \<or> TrimSpace (wgRenderer w) = [] then Inl (errNew ''WebGL identity is incomplete'')
     else guardR (\<not> (browserUADataPlatform goos = ''macOS'' \<and> uiArchitecture (piMetadata identity) = ''arm''
                     \<and> (\<not> Contains (wgVendor w) ''Apple'' \<or> \<not> Contains (wgRenderer w) ''Apple'')))
            (errNew ''WebGL identity is incompatible with macOS ARM''))"

definition validateIdentity :: "string \<Rightarrow> string \<Rightarrow> persistentBrowserIdentity \<Rightarrow> unit result" where
  "validateIdentity goos goarch identity =
    (if piVersion identity \<noteq> sessionIdentityVersion then Inl (errNew (''unsupported version '' @ Itoa (piVersion identity)))
     else bindR (validateUserAgent identity) (\<lambda>_. bindR (validateMetadata goos goarch identity) (\<lambda>_. validateBrowserSurfaces goos identity)))"

text \<open>\<open>browserLocale\<close>; the primary language of the profile is an argument.\<close>

definition browserLocale :: "BrowserConfig \<Rightarrow> persistentBrowserIdentity option \<Rightarrow> string \<Rightarrow> string" where
  "browserLocale config persisted profileLanguage =
    (if bcLocale config \<noteq> [] then bcLocale config
     else case persisted of
         Some identity \<Rightarrow> (case piLanguages identity of [] \<Rightarrow> [] | l # _ \<Rightarrow> l)
       | None \<Rightarrow> if bcUserAgentMode config = UserAgentSession then profileLanguage else [])"

text \<open>The languages of the page, without blanks and without repetitions up to case.\<close>

definition nativeLanguages :: "string list \<Rightarrow> string list result" where
  "nativeLanguages languages =
    (let unique = keepFirst ToLower (filter (\<lambda>l. l \<noteq> []) (map TrimSpace languages)) in
     if unique = [] then Inl (errNew ''browser returned no languages'') else Inr unique)"


section \<open>One version everywhere\<close>

lemma chromeMajor_pos: "chromeMajor v = Inr m \<Longrightarrow> 0 < m"
  by (auto simp: chromeMajor_def Let_def split: if_splits option.splits)

lemma scanCandidates_ok:
  assumes "chromeMajor installed = Inr m" "v \<in> set (scanCandidates installed m versions)"
  shows "\<exists>k. chromeMajor v = Inr k \<and> k \<le> m \<and> m - 2 \<le> k"
proof -
  have "set (scanCandidates installed m versions) \<subseteq> insert installed (set (filter (scanCandidate m) versions))"
    unfolding scanCandidates_def by (rule subset_trans[OF keepFirst_subset]) simp
  then have "v = installed \<or> scanCandidate m v" using assms(2) by auto
  then show ?thesis using assms(1) by (cases "chromeMajor v") (auto simp: scanCandidate_def)
qed

text \<open>
  The answer of \<open>rand.Int\<close> lies below the bound.
\<close>

definition drawBelow :: "(int \<Rightarrow> int result) \<Rightarrow> bool" where
  "drawBelow draw \<longleftrightarrow> (\<forall>n v. 0 < n \<longrightarrow> draw n = Inr v \<longrightarrow> 0 \<le> v \<and> v < n)"

lemma scanCandidates_nonempty: "scanCandidates installed m versions \<noteq> []"
  by (simp add: scanCandidates_def keepFirst_def)

lemma makeBrowserUserAgent_ok:
  "makeBrowserUserAgent v = Inr ua \<longleftrightarrow> (\<exists>m. chromeMajor v = Inr m \<and> ua = \<lparr>uaValue = [], uaMajor = Itoa m, uaFullVersion = v\<rparr>)"
  by (cases "chromeMajor v") (auto simp: makeBrowserUserAgent_def)

lemma selectBrowserUserAgent_version:
  assumes "selectBrowserUserAgent goos goarch (Inr installed) mode draw = Inr ua" "drawBelow draw"
  obtains m k where "chromeMajor installed = Inr m" "chromeMajor (uaFullVersion ua) = Inr k" "uaMajor ua = Itoa k" "m - 2 \<le> k" "k \<le> m"
    "mode = [] \<or> mode = UserAgentSession \<longrightarrow> uaFullVersion ua = installed"
proof (cases "mode = [] \<or> mode = UserAgentSession")
  case True
  then have "makeBrowserUserAgent installed = Inr ua" using assms(1) by (auto simp: selectBrowserUserAgent_def)
  then show ?thesis using that by (auto simp: makeBrowserUserAgent_ok)
next
  case False
  let ?cs = "\<lambda>m. scanCandidates installed m (verifiedScanChromeVersions (scanVersionPlatform goos goarch))"
  obtain m v where m: "chromeMajor installed = Inr m" "draw (int (length (?cs m))) = Inr v" "makeBrowserUserAgent (?cs m ! nat v) = Inr ua"
    using False assms(1) by (auto simp: selectBrowserUserAgent_def Let_def bindR_def mapErr_def split: if_splits sum.splits)
  have "0 < int (length (?cs m))" using scanCandidates_nonempty by simp
  then have "0 \<le> v" "v < int (length (?cs m))" using assms(2) m(2) unfolding drawBelow_def by blast+
  then have "?cs m ! nat v \<in> set (?cs m)" by (intro nth_mem) simp
  from scanCandidates_ok[OF m(1) this] show ?thesis using m that False by (auto simp: makeBrowserUserAgent_ok)
qed

lemma reduceFields_token:
  "reduceFields token fs = Some gs \<Longrightarrow> \<exists>a f b. fs = a @ f # b \<and> gs = a @ token # b \<and> chromeToken f \<and> (\<forall>x \<in> set a. \<not> chromeToken x)"
proof (induction fs arbitrary: gs)
  case (Cons f fs)
  show ?case
  proof (cases "chromeToken f")
    case True
    then show ?thesis using Cons.prems by (intro exI[of _ "[]"] exI[of _ f] exI[of _ fs]) auto
  next
    case False
    then obtain hs where hs: "reduceFields token fs = Some hs" "gs = f # hs" using Cons.prems by auto
    from Cons.IH[OF hs(1)] obtain a x b where "fs = a @ x # b" "hs = a @ token # b" "chromeToken x" "\<forall>y \<in> set a. \<not> chromeToken y" by blast
    then show ?thesis using hs(2) False by (intro exI[of _ "f # a"] exI[of _ x] exI[of _ b]) auto
  qed
qed simp

lemma Contains_Join: "x \<in> set xs \<Longrightarrow> Contains (Join xs sep) x"
proof (induction xs sep rule: Join.induct)
  case (2 y sep)
  then show ?case using Contains_append[of "[]" y "[]"] by simp
next
  case (3 y z zs sep)
  show ?case
  proof (cases "x = y")
    case True
    then show ?thesis using Contains_append[of "[]" y "sep @ Join (z # zs) sep"] by simp
  next
    case False
    then have "Contains (Join (z # zs) sep) x" using 3 by simp
    then obtain a b where "Join (z # zs) sep = a @ x @ b" by (auto simp: Contains_iff)
    then show ?thesis using Contains_append[of "y @ sep @ a" x b] by simp
  qed
qed simp

lemma replaceBrands_ok:
  assumes "replaceBrowserProductVersions v brands = (True, bs)"
  shows "hasBrandVersion bs ''Chromium'' v \<and> bs \<noteq> []"
proof -
  obtain b where b: "b \<in> set brands" "ubBrand b = ''Chromium''" using assms by (auto simp: replaceBrowserProductVersions_def)
  have "replaceBrand v b \<in> set bs" "ubBrand (replaceBrand v b) = ''Chromium''" "ubVersion (replaceBrand v b) = v"
    using assms b by (auto simp: replaceBrowserProductVersions_def replaceBrand_def)
  then show ?thesis unfolding hasBrandVersion_def by (metis empty_iff list.set(1))
qed

text \<open>A printable character survives trimming.\<close>

lemma dropSpaces_keeps:
  assumes "plainChar c"
  shows "c \<in> set s \<Longrightarrow> \<forall>w \<in> set ws. c \<notin> set w \<Longrightarrow> c \<in> set (dropSpaces ws s)"
proof (induction ws s rule: dropSpaces.induct)
  case (1 ws s)
  show ?case
  proof (cases "spaceLen ws s = 0 \<or> s = []")
    case True
    then show ?thesis using 1 by (simp add: dropSpaces.simps[of ws s])
  next
    case False
    have "c \<notin> set (take (spaceLen ws s) s)"
    proof -
      obtain d t where s: "s = d # t" using False by (cases s) auto
      show ?thesis
      proof (cases "asciiSpace d")
        case True
        then show ?thesis using plainChar_not_space[OF assms(1)] by (auto simp: s spaceLen_def)
      next
        case no: False
        then obtain w where w: "List.find (\<lambda>w. take (length w) s = w) ws = Some w" "spaceLen ws s = length w"
          using False by (auto simp: s spaceLen_def split: option.splits)
        then have "w \<in> set ws" "take (length w) s = w" by (auto simp: find_Some_iff)
        then show ?thesis using 1(3) w(2) by simp
      qed
    qed
    then have "c \<in> set (drop (spaceLen ws s) s)" using 1(2) by (metis Un_iff append_take_drop_id set_append)
    then show ?thesis using 1(1)[OF False] 1(3) False by (simp add: dropSpaces.simps[of ws s])
  qed
qed

lemma TrimSpace_keeps: "plainChar c \<Longrightarrow> c \<in> set s \<Longrightarrow> TrimSpace s \<noteq> []"
proof -
  assume c: "plainChar c" "c \<in> set s"
  have w: "\<forall>w \<in> set wideSpaces. c \<notin> set w" using c(1) by (auto simp: wideSpaces_def plainChar_def)
  have "c \<in> set (trimLeft s)" unfolding trimLeft_def by (rule dropSpaces_keeps[OF c w])
  then have "c \<in> set (TrimSpace s)" unfolding TrimSpace_def trimRight_def using dropSpaces_keeps[OF c(1), of "rev (trimLeft s)" "map rev wideSpaces"] w by simp
  then show ?thesis by auto
qed

lemma chromeMajor_dot: "chromeMajor v = Inr m \<Longrightarrow> CHR ''.'' \<in> set v"
  using Split_no_sep[of "CHR ''.''" v] by (cases "CHR ''.'' \<in> set v") (auto simp: chromeMajor_def Let_def)

lemma Itoa_plain: "0 \<le> k \<Longrightarrow> TrimSpace (Itoa k) \<noteq> []"
proof -
  assume "0 \<le> k"
  then have "Itoa k \<noteq> []" "hd (Itoa k) \<in> set (Itoa k)" "isDigit (hd (Itoa k))"
    using natStr_digits[of "nat k"] natStr_ne[of "nat k"] by (auto simp: Itoa_def list_all_iff)
  then show ?thesis using TrimSpace_keeps[of "hd (Itoa k)" "Itoa k"] by (simp add: isDigit_def plainChar_def)
qed

lemma readNativeUserAgentIdentity_ok:
  assumes "readNativeUserAgentIdentity reported ua = Inr metadata"
  shows "\<exists>i bs vs. replaceBrowserProductVersions (uaMajor ua) (uiBrands i) = (True, bs)
    \<and> replaceBrowserProductVersions (uaFullVersion ua) (uiFullVersionList i) = (True, vs)
    \<and> metadata = i\<lparr>uiBrands := bs, uiFullVersionList := vs\<rparr> \<and> TrimSpace (uiPlatform i) \<noteq> [] \<and> TrimSpace (uiArchitecture i) \<noteq> [] \<and> TrimSpace (uiBitness i) \<noteq> []"
proof -
  obtain i where i: "reported = Inr i" using assms by (cases reported) (auto simp: readNativeUserAgentIdentity_def)
  obtain f bs where b: "replaceBrowserProductVersions (uaMajor ua) (uiBrands i) = (f, bs)" by (cases "replaceBrowserProductVersions (uaMajor ua) (uiBrands i)")
  obtain g vs where v: "replaceBrowserProductVersions (uaFullVersion ua) (uiFullVersionList i) = (g, vs)"
    by (cases "replaceBrowserProductVersions (uaFullVersion ua) (uiFullVersionList i)")
  show ?thesis using assms b v by (intro exI[of _ i] exI[of _ bs] exI[of _ vs]) (simp add: readNativeUserAgentIdentity_def i split: if_splits)
qed

text \<open>
  C33. A browser shows one Chrome version everywhere: the version selected for a task is the installed
  one for a session and for a scan at most two majors older and never newer, and the identity built
  from it, with the user agent reduced to it and the brands replaced, passes every version check made
  before an identity is stored or used again: it is refused only for a platform or a runtime that does
  not match.
\<close>

theorem identity_one_version:
  assumes "selectBrowserUserAgent goos goarch (Inr installed) mode draw = Inr selected" "drawBelow draw"
    "readNativeReducedUserAgent page (uaMajor selected) = Inr value" "ua = selected\<lparr>uaValue := value\<rparr>"
    "readNativeUserAgentIdentity reported ua = Inr metadata"
    "piUserAgent identity = ua" "piMetadata identity = metadata"
  shows "(\<exists>m k. chromeMajor installed = Inr m \<and> chromeMajor (uaFullVersion ua) = Inr k \<and> uaMajor ua = Itoa k \<and> m - 2 \<le> k \<and> k \<le> m
      \<and> (mode = UserAgentSession \<longrightarrow> uaFullVersion ua = installed))
    \<and> validateUserAgent identity = guardR (userAgentMatchesPlatform value (uiPlatform metadata)) (errNew ''user agent platform is inconsistent'')
    \<and> validateMetadata goos goarch identity = guardR (uiPlatform metadata = browserUADataPlatform goos
        \<and> uiArchitecture metadata = browserArchitecture goarch \<and> uiBitness metadata = ''64'' \<and> \<not> uiMobile metadata)
        (errNew ''user agent metadata does not match this browser runtime'')"
proof -
  obtain m k where v: "chromeMajor installed = Inr m" "chromeMajor (uaFullVersion selected) = Inr k" "uaMajor selected = Itoa k" "m - 2 \<le> k" "k \<le> m"
    "mode = [] \<or> mode = UserAgentSession \<longrightarrow> uaFullVersion selected = installed"
    using selectBrowserUserAgent_version[OF assms(1,2)] by blast
  obtain native reduced where r: "reduceFields (productToken (Itoa k)) (Fields native) = Some reduced" "value = Join reduced '' ''"
    using assms(3) v(3) by (auto simp: readNativeReducedUserAgent_def result_simps split: option.splits if_splits)
  have token: "Contains value (productToken (Itoa k))"
    using reduceFields_token[OF r(1)] r(2) Contains_Join[of "productToken (Itoa k)" reduced] by auto
  then have "CHR ''C'' \<in> set value" by (auto simp: Contains_iff productToken_def)
  then have full: "TrimSpace value \<noteq> []" using TrimSpace_keeps[of "CHR ''C''"] by (simp add: plainChar_def)
  have version: "TrimSpace (uaFullVersion selected) \<noteq> []"
    using TrimSpace_keeps[OF _ chromeMajor_dot[OF v(2)]] by (simp add: plainChar_def)
  have major: "TrimSpace (Itoa k) \<noteq> []" using Itoa_plain chromeMajor_pos[OF v(2)] by simp
  have "validateUserAgent identity = guardR (userAgentMatchesPlatform value (uiPlatform metadata)) (errNew ''user agent platform is inconsistent'')"
    using full version major token v(2,3) by (simp add: validateUserAgent_def assms(4,6,7))
  moreover obtain i bs vs where i: "replaceBrowserProductVersions (uaMajor ua) (uiBrands i) = (True, bs)"
      "replaceBrowserProductVersions (uaFullVersion ua) (uiFullVersionList i) = (True, vs)"
      "metadata = i\<lparr>uiBrands := bs, uiFullVersionList := vs\<rparr>" "TrimSpace (uiPlatform i) \<noteq> []" "TrimSpace (uiArchitecture i) \<noteq> []" "TrimSpace (uiBitness i) \<noteq> []"
    using readNativeUserAgentIdentity_ok[OF assms(5)] by (elim exE conjE) (rule that)
  then have "validateMetadata goos goarch identity = guardR (uiPlatform metadata = browserUADataPlatform goos
        \<and> uiArchitecture metadata = browserArchitecture goarch \<and> uiBitness metadata = ''64'' \<and> \<not> uiMobile metadata)
        (errNew ''user agent metadata does not match this browser runtime'')"
    using replaceBrands_ok[OF i(1)] replaceBrands_ok[OF i(2)] by (simp add: validateMetadata_def assms(6,7) guardR_def)
  ultimately show ?thesis using v by (auto simp: assms(4))
qed

definition sampleIdentity :: userAgentBootstrapIdentity where
  "sampleIdentity = \<lparr>uiBrands = [\<lparr>ubBrand = ''Not;A=Brand'', ubVersion = ''8''\<rparr>, \<lparr>ubBrand = ''Chromium'', ubVersion = ''152''\<rparr>],
     uiFullVersionList = [\<lparr>ubBrand = ''Chromium'', ubVersion = ''152.0.1.2''\<rparr>], uiPlatform = ''Linux'', uiPlatformVersion = ''6.1'',
     uiArchitecture = ''x86'', uiBitness = ''64'', uiMobile = False, uiWow64 = False, uiFormFactors = [''Desktop'']\<rparr>"

definition sampleNativeUA :: string where
  "sampleNativeUA = ''Mozilla/5.0 (X11; Linux x86_64) HeadlessChrome/152.0.1.2 Safari/537.36''"

definition sampleUA :: browserUserAgent where
  "sampleUA = \<lparr>uaValue = ''Mozilla/5.0 (X11; Linux x86_64) Chrome/150.0.0.0 Safari/537.36'', uaMajor = ''150'', uaFullVersion = ''150.0.7871.186''\<rparr>"

definition sampleMetadata :: userAgentBootstrapIdentity where
  "sampleMetadata = sampleIdentity\<lparr>uiBrands := [\<lparr>ubBrand = ''Not;A=Brand'', ubVersion = ''8''\<rparr>, \<lparr>ubBrand = ''Chromium'', ubVersion = ''150''\<rparr>],
     uiFullVersionList := [\<lparr>ubBrand = ''Chromium'', ubVersion = ''150.0.7871.186''\<rparr>]\<rparr>"

definition sampleStored :: persistentBrowserIdentity where
  "sampleStored = \<lparr>piVersion = 1, piUserAgent = sampleUA, piMetadata = sampleMetadata, piLanguages = [''ko-KR''], piWebGL = \<lparr>wgVendor = ''Mesa'', wgRenderer = ''llvmpipe''\<rparr>\<rparr>"

lemma sample_majors: "chromeMajor ''152.0.1.2'' = Inr 152" "chromeMajor ''151.0.7922.137'' = Inr 151" "chromeMajor ''150.0.7871.186'' = Inr 150"
    "chromeMajor ''149.0.7827.200'' = Inr 149"
  by (simp_all add: chromeMajor_def Let_def Atoi_def ParseInt_def isDigit_def digitVal_def)

theorem identity_one_version_witness:
  "validateMetadata ''linux'' ''amd64'' sampleStored = Inr () \<and> validateUserAgent sampleStored = Inr ()"
proof -
  let ?selected = "\<lparr>uaValue = [], uaMajor = ''150'', uaFullVersion = ''150.0.7871.186''\<rparr>"
  have itoa: "Itoa 150 = ''150''" by code_simp
  have sel: "selectBrowserUserAgent ''linux'' ''amd64'' (Inr ''152.0.1.2'') UserAgentRandomizedScan (\<lambda>n. if 2 < n then Inr 2 else Inr 0) = Inr ?selected"
    by (simp add: selectBrowserUserAgent_def sample_majors scanVersionPlatform_def verifiedScanChromeVersions_def scanCandidates_def scanCandidate_def
        keepFirst_def UserAgentRandomizedScan_def UserAgentSession_def makeBrowserUserAgent_def itoa)
  have draw: "drawBelow (\<lambda>n. if 2 < n then Inr 2 else Inr 0)" by (simp add: drawBelow_def)
  have read: "readNativeReducedUserAgent (Inr (Some sampleNativeUA)) (uaMajor ?selected) = Inr (uaValue sampleUA)" by code_simp
  have meta: "readNativeUserAgentIdentity (Inr sampleIdentity) sampleUA = Inr sampleMetadata" by code_simp
  have ua: "sampleUA = ?selected\<lparr>uaValue := uaValue sampleUA\<rparr>" by (simp add: sampleUA_def)
  have id: "piUserAgent sampleStored = sampleUA" "piMetadata sampleStored = sampleMetadata" by (simp_all add: sampleStored_def)
  have match: "userAgentMatchesPlatform (uaValue sampleUA) (uiPlatform sampleMetadata)" by code_simp
  have runtime: "uiPlatform sampleMetadata = browserUADataPlatform ''linux''" "uiArchitecture sampleMetadata = browserArchitecture ''amd64''"
    "uiBitness sampleMetadata = ''64''" "\<not> uiMobile sampleMetadata" by code_simp+
  from identity_one_version[OF sel draw read ua meta id] match runtime show ?thesis by (simp add: guardR_def)
qed

end
