(* ===== verification/SessionIdentity.thy ===== *)
theory SessionIdentity
  imports BrowserIdentity
begin

text \<open>
  The identity file of a browser profile (\<open>loadSessionIdentity\<close> and \<open>saveSessionIdentity\<close> of
  \<open>internal/provider/cgv/session_identity.go\<close>): what is written, how it is read back, and what a fault of
  any file operation leaves behind. The contents of a file are a \<open>jsonBody\<close>; the text of a tree is the
  argument of its length only.
\<close>


section \<open>Encoding\<close>

text \<open>\<open>encoding/json\<close> writes every byte that is no valid UTF-8 as the replacement character.\<close>

lemma dropRune_length: "length (drop (runeLen (c # s)) (c # s)) < length (c # s)"
  using runeLen_pos[of c s] by (simp del: runeLen_pos)

function toValidUTF8 :: "string \<Rightarrow> string" where
  "toValidUTF8 [] = []"
| "toValidUTF8 (c # s) =
     (if runeLen (c # s) = 1 \<and> 128 \<le> (of_char c :: nat) then [CHR 0xEF, CHR 0xBF, CHR 0xBD] @ toValidUTF8 s
      else take (runeLen (c # s)) (c # s) @ toValidUTF8 (drop (runeLen (c # s)) (c # s)))"
  by pat_completeness auto
termination
  using dropRune_length by (relation "measure length") (simp_all del: length_drop drop_Cons)

definition validUTF8 :: "string \<Rightarrow> bool" where
  "validUTF8 s \<longleftrightarrow> toValidUTF8 s = s"

definition encodeString :: "string \<Rightarrow> json" where
  "encodeString s = JString (toValidUTF8 s)"

definition encodeUserAgent :: "browserUserAgent \<Rightarrow> json" where
  "encodeUserAgent ua = JObject [(''Value'', encodeString (uaValue ua)), (''Major'', encodeString (uaMajor ua)), (''FullVersion'', encodeString (uaFullVersion ua))]"

definition encodeBrand :: "uaBrandVersion \<Rightarrow> json" where
  "encodeBrand b = JObject [(''brand'', encodeString (ubBrand b)), (''version'', encodeString (ubVersion b))]"

text \<open>An empty slice is written as an empty array; a nil slice, written as null, reads the same.\<close>

definition encodeMetadata :: "userAgentBootstrapIdentity \<Rightarrow> json" where
  "encodeMetadata m = JObject
    [(''brands'', JArray (map encodeBrand (uiBrands m))), (''fullVersionList'', JArray (map encodeBrand (uiFullVersionList m))),
     (''platform'', encodeString (uiPlatform m)), (''platformVersion'', encodeString (uiPlatformVersion m)),
     (''architecture'', encodeString (uiArchitecture m)), (''bitness'', encodeString (uiBitness m)),
     (''mobile'', JBool (uiMobile m)), (''wow64'', JBool (uiWow64 m)), (''formFactors'', JArray (map encodeString (uiFormFactors m)))]"

definition encodeWebGL :: "webGLIdentity \<Rightarrow> json" where
  "encodeWebGL w = JObject [(''vendor'', encodeString (wgVendor w)), (''renderer'', encodeString (wgRenderer w))]"

definition encodeIdentity :: "persistentBrowserIdentity \<Rightarrow> json" where
  "encodeIdentity i = JObject
    [(''version'', JNumber (Itoa (piVersion i))), (''userAgent'', encodeUserAgent (piUserAgent i)), (''metadata'', encodeMetadata (piMetadata i)),
     (''languages'', JArray (map encodeString (piLanguages i))), (''webgl'', encodeWebGL (piWebGL i))]"


section \<open>Decoding\<close>

definition decodeUserAgent :: "browserUserAgent decoder" where
  "decodeUserAgent = decodeStruct (fieldTable
    [(''Value'', onField uaValue (\<lambda>x v. v\<lparr>uaValue := x\<rparr>) decodeString), (''Major'', onField uaMajor (\<lambda>x v. v\<lparr>uaMajor := x\<rparr>) decodeString),
     (''FullVersion'', onField uaFullVersion (\<lambda>x v. v\<lparr>uaFullVersion := x\<rparr>) decodeString)])"

definition decodeBrand :: "uaBrandVersion decoder" where
  "decodeBrand = decodeStruct (fieldTable
    [(''brand'', onField ubBrand (\<lambda>x v. v\<lparr>ubBrand := x\<rparr>) decodeString), (''version'', onField ubVersion (\<lambda>x v. v\<lparr>ubVersion := x\<rparr>) decodeString)])"

definition zeroBrand :: uaBrandVersion where "zeroBrand = \<lparr>ubBrand = [], ubVersion = []\<rparr>"

definition decodeMetadata :: "userAgentBootstrapIdentity decoder" where
  "decodeMetadata = decodeStruct (fieldTable
    [(''brands'', onField uiBrands (\<lambda>x v. v\<lparr>uiBrands := x\<rparr>) (decodeSlice decodeBrand zeroBrand)),
     (''fullVersionList'', onField uiFullVersionList (\<lambda>x v. v\<lparr>uiFullVersionList := x\<rparr>) (decodeSlice decodeBrand zeroBrand)),
     (''platform'', onField uiPlatform (\<lambda>x v. v\<lparr>uiPlatform := x\<rparr>) decodeString),
     (''platformVersion'', onField uiPlatformVersion (\<lambda>x v. v\<lparr>uiPlatformVersion := x\<rparr>) decodeString),
     (''architecture'', onField uiArchitecture (\<lambda>x v. v\<lparr>uiArchitecture := x\<rparr>) decodeString),
     (''bitness'', onField uiBitness (\<lambda>x v. v\<lparr>uiBitness := x\<rparr>) decodeString),
     (''mobile'', onField uiMobile (\<lambda>x v. v\<lparr>uiMobile := x\<rparr>) decodeBool),
     (''wow64'', onField uiWow64 (\<lambda>x v. v\<lparr>uiWow64 := x\<rparr>) decodeBool),
     (''formFactors'', onField uiFormFactors (\<lambda>x v. v\<lparr>uiFormFactors := x\<rparr>) (decodeSlice decodeString []))])"

definition decodeWebGL :: "webGLIdentity decoder" where
  "decodeWebGL = decodeStruct (fieldTable
    [(''vendor'', onField wgVendor (\<lambda>x v. v\<lparr>wgVendor := x\<rparr>) decodeString), (''renderer'', onField wgRenderer (\<lambda>x v. v\<lparr>wgRenderer := x\<rparr>) decodeString)])"

definition decodeIdentity :: "persistentBrowserIdentity decoder" where
  "decodeIdentity = decodeStruct (fieldTable
    [(''version'', onField piVersion (\<lambda>x v. v\<lparr>piVersion := x\<rparr>) decodeInt),
     (''userAgent'', onField piUserAgent (\<lambda>x v. v\<lparr>piUserAgent := x\<rparr>) decodeUserAgent),
     (''metadata'', onField piMetadata (\<lambda>x v. v\<lparr>piMetadata := x\<rparr>) decodeMetadata),
     (''languages'', onField piLanguages (\<lambda>x v. v\<lparr>piLanguages := x\<rparr>) (decodeSlice decodeString [])),
     (''webgl'', onField piWebGL (\<lambda>x v. v\<lparr>piWebGL := x\<rparr>) decodeWebGL)])"

definition zeroWebGL :: webGLIdentity where "zeroWebGL = \<lparr>wgVendor = [], wgRenderer = []\<rparr>"

definition zeroMetadata :: userAgentBootstrapIdentity where
  "zeroMetadata = \<lparr>uiBrands = [], uiFullVersionList = [], uiPlatform = [], uiPlatformVersion = [], uiArchitecture = [],
     uiBitness = [], uiMobile = False, uiWow64 = False, uiFormFactors = []\<rparr>"

definition zeroIdentity :: persistentBrowserIdentity where
  "zeroIdentity = \<lparr>piVersion = 0, piUserAgent = \<lparr>uaValue = [], uaMajor = [], uaFullVersion = []\<rparr>, piMetadata = zeroMetadata,
     piLanguages = [], piWebGL = zeroWebGL\<rparr>"


section \<open>The file\<close>

text \<open>The profile directory: the identity file, and the temporary files made beside it.\<close>

record profileDir =
  pdIdentity :: "jsonBody option"
  pdTemps :: "string list"

text \<open>\<open>readErr\<close> is the error of \<open>os.ReadFile\<close> on a file that is there, if it has one.\<close>

definition loadSessionIdentity ::
  "string \<Rightarrow> string \<Rightarrow> goerr option \<Rightarrow> BrowserConfig \<Rightarrow> profileDir \<Rightarrow> persistentBrowserIdentity option result" where
  "loadSessionIdentity goos goarch readErr config dir =
    (if bcUserAgentMode config \<noteq> UserAgentSession then Inr None
     else case (readErr, pdIdentity dir) of
         (Some e, _) \<Rightarrow> if errorsIs e ErrNotExist then Inr None else Inl (wrapE ''read browser session identity'' e)
       | (None, None) \<Rightarrow> Inr None
       | (None, Some contents) \<Rightarrow>
           (case Unmarshal decodeIdentity contents zeroIdentity of
              (_, Some e) \<Rightarrow> Inl (wrapE ''decode browser session identity'' e)
            | (identity, None) \<Rightarrow>
                bindR (mapErr (wrapE ''validate browser session identity'') (validateIdentity goos goarch identity)) (\<lambda>_. Inr (Some identity))))"

datatype saveOp = ChmodTemp | WriteTemp | SyncTemp | CloseTemp | RenameTemp

text \<open>The name of the temporary file or why there is none, the error of each operation, whether the removal at the end fails, and the length of a text.\<close>

record saveEnv =
  svTemp :: "string result"
  svErr :: "saveOp \<Rightarrow> goerr option"
  svRemoveFails :: bool
  svLength :: "json \<Rightarrow> nat"

definition writtenBody :: "(json \<Rightarrow> nat) \<Rightarrow> json \<Rightarrow> jsonBody" where
  "writtenBody len j = \<lparr>bSize = len j, bFirst = Some (j, len j), bRest = None\<rparr>"

text \<open>The operations on the temporary file in their order, with the error text of each.\<close>

definition saveOps :: "(saveOp \<times> string) list" where
  "saveOps = [(ChmodTemp, ''protect browser session identity''), (WriteTemp, ''write browser session identity''),
     (SyncTemp, ''sync browser session identity''), (CloseTemp, ''close browser session identity''), (RenameTemp, ''replace browser session identity'')]"

fun runSaveOps :: "(saveOp \<Rightarrow> goerr option) \<Rightarrow> (saveOp \<times> string) list \<Rightarrow> unit result" where
  "runSaveOps err [] = Inr ()"
| "runSaveOps err ((op, what) # ops) = (case err op of Some e \<Rightarrow> Inl (wrapE what e) | None \<Rightarrow> runSaveOps err ops)"

definition saveSessionIdentity ::
  "string \<Rightarrow> string \<Rightarrow> saveEnv \<Rightarrow> BrowserConfig \<Rightarrow> persistentBrowserIdentity \<Rightarrow> profileDir \<Rightarrow> unit result \<times> profileDir" where
  "saveSessionIdentity goos goarch env config identity0 dir =
    (if bcUserAgentMode config \<noteq> UserAgentSession then (Inr (), dir)
     else
       let identity = identity0\<lparr>piVersion := sessionIdentityVersion\<rparr> in
       case validateIdentity goos goarch identity of
         Inl e \<Rightarrow> (Inl (wrapE ''validate browser session identity'' e), dir)
       | Inr _ \<Rightarrow>
           (case svTemp env of
              Inl e \<Rightarrow> (Inl (wrapE ''create browser session identity'' e), dir)
            | Inr temporaryPath \<Rightarrow>
                (let left = (if svRemoveFails env then [temporaryPath] else []) in
                 case runSaveOps (svErr env) saveOps of
                   Inl e \<Rightarrow> (Inl e, dir\<lparr>pdTemps := pdTemps dir @ left\<rparr>)
                 | Inr _ \<Rightarrow> (Inr (), dir\<lparr>pdIdentity := Some (writtenBody (svLength env) (encodeIdentity identity))\<rparr>))))"


section \<open>Reading back what was written\<close>

definition textIdentity :: "persistentBrowserIdentity \<Rightarrow> bool" where
  "textIdentity i \<longleftrightarrow> list_all validUTF8 ([uaValue (piUserAgent i), uaMajor (piUserAgent i), uaFullVersion (piUserAgent i),
      uiPlatform (piMetadata i), uiPlatformVersion (piMetadata i), uiArchitecture (piMetadata i), uiBitness (piMetadata i),
      wgVendor (piWebGL i), wgRenderer (piWebGL i)]
    @ uiFormFactors (piMetadata i) @ piLanguages i
    @ concat (map (\<lambda>b. [ubBrand b, ubVersion b]) (uiBrands (piMetadata i) @ uiFullVersionList (piMetadata i))))"

lemma decodeString_encode [simp]: "validUTF8 s \<Longrightarrow> decodeString (encodeString s) v = (s, None)"
  by (simp add: encodeString_def validUTF8_def)

lemma decodeElems_encode: "(\<And>x. x \<in> set xs \<Longrightarrow> dec (enc x) z = (x, None)) \<Longrightarrow> decodeElems dec z (map enc xs) = (xs, None)"
  by (induction xs) (simp_all add: orErr_def)

lemma field_names [go_simps]:
  "\<not> EqualFold ''Value'' ''Major''" "\<not> EqualFold ''Value'' ''FullVersion''" "\<not> EqualFold ''Major'' ''FullVersion''"
  "\<not> EqualFold ''brand'' ''version''" "\<not> EqualFold ''vendor'' ''renderer''"
  "list_all (\<lambda>k. \<not> EqualFold ''version'' k) [''userAgent'', ''metadata'', ''languages'', ''webgl'']"
  "list_all (\<lambda>k. \<not> EqualFold ''userAgent'' k) [''metadata'', ''languages'', ''webgl'']"
  "list_all (\<lambda>k. \<not> EqualFold ''metadata'' k) [''languages'', ''webgl'']" "\<not> EqualFold ''languages'' ''webgl''"
  by code_simp+

lemma metadata_names [go_simps]:
  "list_all (\<lambda>k. \<not> EqualFold ''brands'' k) [''fullVersionList'', ''platform'', ''platformVersion'', ''architecture'', ''bitness'', ''mobile'', ''wow64'', ''formFactors'']"
  "list_all (\<lambda>k. \<not> EqualFold ''fullVersionList'' k) [''platform'', ''platformVersion'', ''architecture'', ''bitness'', ''mobile'', ''wow64'', ''formFactors'']"
  "list_all (\<lambda>k. \<not> EqualFold ''platform'' k) [''platformVersion'', ''architecture'', ''bitness'', ''mobile'', ''wow64'', ''formFactors'']"
  "list_all (\<lambda>k. \<not> EqualFold ''platformVersion'' k) [''architecture'', ''bitness'', ''mobile'', ''wow64'', ''formFactors'']"
  "list_all (\<lambda>k. \<not> EqualFold ''architecture'' k) [''bitness'', ''mobile'', ''wow64'', ''formFactors'']"
  "list_all (\<lambda>k. \<not> EqualFold ''bitness'' k) [''mobile'', ''wow64'', ''formFactors'']"
  "list_all (\<lambda>k. \<not> EqualFold ''mobile'' k) [''wow64'', ''formFactors'']" "\<not> EqualFold ''wow64'' ''formFactors''"
  by code_simp+

lemma decodeUserAgent_encode:
  assumes "validUTF8 (uaValue ua)" "validUTF8 (uaMajor ua)" "validUTF8 (uaFullVersion ua)"
  shows "decodeUserAgent (encodeUserAgent ua) v = (ua, None)"
  using assms by (simp add: decodeUserAgent_def encodeUserAgent_def onField_def orErr_def go_simps)

lemma decodeBrand_encode: "validUTF8 (ubBrand b) \<Longrightarrow> validUTF8 (ubVersion b) \<Longrightarrow> decodeBrand (encodeBrand b) v = (b, None)"
  by (simp add: decodeBrand_def encodeBrand_def onField_def orErr_def go_simps)

lemma decodeWebGL_encode: "validUTF8 (wgVendor w) \<Longrightarrow> validUTF8 (wgRenderer w) \<Longrightarrow> decodeWebGL (encodeWebGL w) v = (w, None)"
  by (simp add: decodeWebGL_def encodeWebGL_def onField_def orErr_def go_simps)

lemma decodeMetadata_encode:
  assumes "list_all validUTF8 ([uiPlatform m, uiPlatformVersion m, uiArchitecture m, uiBitness m] @ uiFormFactors m)"
    "\<And>b. b \<in> set (uiBrands m @ uiFullVersionList m) \<Longrightarrow> validUTF8 (ubBrand b) \<and> validUTF8 (ubVersion b)"
  shows "decodeMetadata (encodeMetadata m) v = (m, None)"
proof -
  have "decodeElems decodeBrand zeroBrand (map encodeBrand (uiBrands m)) = (uiBrands m, None)"
    "decodeElems decodeBrand zeroBrand (map encodeBrand (uiFullVersionList m)) = (uiFullVersionList m, None)"
    using assms(2) by (auto intro!: decodeElems_encode decodeBrand_encode)
  moreover have "decodeElems decodeString [] (map encodeString (uiFormFactors m)) = (uiFormFactors m, None)"
    using assms(1) by (auto intro!: decodeElems_encode simp: list_all_iff)
  ultimately show ?thesis using assms(1) metadata_names
    by (simp add: decodeMetadata_def encodeMetadata_def onField_def orErr_def)
qed

lemma decodeIdentity_encode:
  assumes "textIdentity i" "piVersion i = sessionIdentityVersion"
  shows "decodeIdentity (encodeIdentity i) v = (i, None)"
proof -
  have "decodeUserAgent (encodeUserAgent (piUserAgent i)) x = (piUserAgent i, None)" "decodeWebGL (encodeWebGL (piWebGL i)) y = (piWebGL i, None)" for x y
    using assms(1) by (simp_all add: textIdentity_def decodeUserAgent_encode decodeWebGL_encode)
  moreover have "decodeMetadata (encodeMetadata (piMetadata i)) z = (piMetadata i, None)" for z
    using assms(1) by (intro decodeMetadata_encode) (auto simp: textIdentity_def list_all_iff)
  moreover have "decodeElems decodeString [] (map encodeString (piLanguages i)) = (piLanguages i, None)"
    using assms(1) by (auto intro!: decodeElems_encode simp: list_all_iff textIdentity_def)
  moreover have "ParseInt 64 (Itoa 1) = Some 1" by code_simp
  ultimately show ?thesis using assms(2) field_names
    by (simp add: decodeIdentity_def encodeIdentity_def onField_def orErr_def sessionIdentityVersion_def)
qed

lemma saved_loads:
  assumes "saveSessionIdentity goos goarch env config identity dir = (Inr (), dir')" "bcUserAgentMode config = UserAgentSession" "textIdentity identity"
  shows "loadSessionIdentity goos goarch None config dir' = Inr (Some (identity\<lparr>piVersion := sessionIdentityVersion\<rparr>))"
proof -
  let ?i = "identity\<lparr>piVersion := sessionIdentityVersion\<rparr>"
  have d: "dir' = dir\<lparr>pdIdentity := Some (writtenBody (svLength env) (encodeIdentity ?i))\<rparr>" "validateIdentity goos goarch ?i = Inr ()"
    using assms(1,2) by (auto simp: saveSessionIdentity_def Let_def split: sum.splits if_splits)
  have "decodeIdentity (encodeIdentity ?i) zeroIdentity = (?i, None)" using assms(3) by (intro decodeIdentity_encode) (simp_all add: textIdentity_def)
  then show ?thesis using assms(2) by (simp add: loadSessionIdentity_def d Unmarshal_def writtenBody_def)
qed

lemma loaded_valid:
  assumes "loadSessionIdentity goos goarch readErr config dir = Inr (Some identity)"
  shows "validateIdentity goos goarch identity = Inr () \<and> bcUserAgentMode config = UserAgentSession"
  using assms by (auto simp: loadSessionIdentity_def result_simps split: if_splits option.splits prod.splits)

lemma validateIdentity_surfaces:
  assumes "validateIdentity goos goarch identity = Inr ()"
  shows "piVersion identity = sessionIdentityVersion \<and> piLanguages identity \<noteq> [] \<and> uiPlatform (piMetadata identity) = browserUADataPlatform goos"
  using assms by (auto simp: validateIdentity_def validateBrowserSurfaces_def validateMetadata_def Let_def result_simps split: if_splits)

text \<open>
  C27. A session profile keeps its identity: what was saved without an error is read back exactly, with
  the current version, whatever the profile held before; a save that fails, at whichever operation,
  leaves the identity file as it was, and a temporary file only if the removal failed, too; and whatever
  a file contains, an identity that is read is of the current version, of this platform and has a first
  language.
\<close>

theorem identity_file_roundtrip:
  assumes "saveSessionIdentity goos goarch env config identity dir = (r, dir')" "bcUserAgentMode config = UserAgentSession"
  shows "(case r of
      Inr _ \<Rightarrow> textIdentity identity \<longrightarrow> loadSessionIdentity goos goarch None config dir' = Inr (Some (identity\<lparr>piVersion := sessionIdentityVersion\<rparr>))
    | Inl _ \<Rightarrow> pdIdentity dir' = pdIdentity dir \<and> (\<not> svRemoveFails env \<longrightarrow> dir' = dir))
   \<and> (\<forall>readErr other loaded. loadSessionIdentity goos goarch readErr config other = Inr (Some loaded) \<longrightarrow>
       piVersion loaded = sessionIdentityVersion \<and> uiPlatform (piMetadata loaded) = browserUADataPlatform goos \<and> piLanguages loaded \<noteq> [])"
proof (rule conjI)
  show "case r of
      Inr _ \<Rightarrow> textIdentity identity \<longrightarrow> loadSessionIdentity goos goarch None config dir' = Inr (Some (identity\<lparr>piVersion := sessionIdentityVersion\<rparr>))
    | Inl _ \<Rightarrow> pdIdentity dir' = pdIdentity dir \<and> (\<not> svRemoveFails env \<longrightarrow> dir' = dir)"
  proof (cases r)
    case (Inl e)
    then show ?thesis using assms by (auto simp: saveSessionIdentity_def Let_def split: sum.splits if_splits)
  next
    case (Inr u)
    then show ?thesis using saved_loads[of goos goarch env config identity dir dir'] assms by simp
  qed
qed (use loaded_valid validateIdentity_surfaces in blast)

definition sampleFileIdentity :: persistentBrowserIdentity where
  "sampleFileIdentity = \<lparr>piVersion = 0,
     piUserAgent = \<lparr>uaValue = ''Mozilla/5.0 (X11; Linux x86_64) Chrome/151.0.0.0'', uaMajor = ''151'', uaFullVersion = ''151.0.7922.137''\<rparr>,
     piMetadata = \<lparr>uiBrands = [\<lparr>ubBrand = ''Chromium'', ubVersion = ''151''\<rparr>], uiFullVersionList = [\<lparr>ubBrand = ''Chromium'', ubVersion = ''151.0.7922.137''\<rparr>],
       uiPlatform = ''Linux'', uiPlatformVersion = [], uiArchitecture = ''x86'', uiBitness = ''64'', uiMobile = False, uiWow64 = False, uiFormFactors = []\<rparr>,
     piLanguages = [''ko-KR''], piWebGL = \<lparr>wgVendor = ''V'', wgRenderer = ''R''\<rparr>\<rparr>"

definition sampleSave :: saveEnv where
  "sampleSave = \<lparr>svTemp = Inr ''.session-identity-1'', svErr = (\<lambda>_. None), svRemoveFails = False, svLength = (\<lambda>_. 1)\<rparr>"

lemma sampleIdentity_ok: "isOk (validateIdentity ''linux'' ''amd64'' (sampleFileIdentity\<lparr>piVersion := sessionIdentityVersion\<rparr>))" "textIdentity sampleFileIdentity"
  by code_simp+

lemma sampleSave_ok:
  "\<exists>dir. saveSessionIdentity ''linux'' ''amd64'' sampleSave (DefaultBrowserConfig\<lparr>bcUserAgentMode := UserAgentSession\<rparr>) sampleFileIdentity
     \<lparr>pdIdentity = None, pdTemps = []\<rparr> = (Inr (), dir)"
proof -
  obtain u where "validateIdentity ''linux'' ''amd64'' (sampleFileIdentity\<lparr>piVersion := sessionIdentityVersion\<rparr>) = Inr u"
    using sampleIdentity_ok(1) unfolding isOk_iff by blast
  then show ?thesis by (simp add: saveSessionIdentity_def sampleSave_def saveOps_def Let_def)
qed

theorem identity_file_roundtrip_witness:
  "\<exists>dir. saveSessionIdentity ''linux'' ''amd64'' sampleSave (DefaultBrowserConfig\<lparr>bcUserAgentMode := UserAgentSession\<rparr>) sampleFileIdentity
      \<lparr>pdIdentity = None, pdTemps = []\<rparr> = (Inr (), dir)
    \<and> loadSessionIdentity ''linux'' ''amd64'' None (DefaultBrowserConfig\<lparr>bcUserAgentMode := UserAgentSession\<rparr>) dir
        = Inr (Some (sampleFileIdentity\<lparr>piVersion := sessionIdentityVersion\<rparr>))
    \<and> piLanguages (sampleFileIdentity\<lparr>piVersion := sessionIdentityVersion\<rparr>) \<noteq> []"
proof -
  let ?config = "DefaultBrowserConfig\<lparr>bcUserAgentMode := UserAgentSession\<rparr>"
  obtain dir where s: "saveSessionIdentity ''linux'' ''amd64'' sampleSave ?config sampleFileIdentity \<lparr>pdIdentity = None, pdTemps = []\<rparr> = (Inr (), dir)"
    using sampleSave_ok by (elim exE) (rule that)
  have m: "bcUserAgentMode ?config = UserAgentSession" by simp
  from conjunct1[OF identity_file_roundtrip[OF s m]] sampleIdentity_ok(2)
  have l: "loadSessionIdentity ''linux'' ''amd64'' None ?config dir = Inr (Some (sampleFileIdentity\<lparr>piVersion := sessionIdentityVersion\<rparr>))" by simp
  from conjunct2[OF identity_file_roundtrip[OF s m], rule_format, OF l] s l show ?thesis by (intro exI[of _ dir] conjI) simp_all
qed

end
