(* ===== verification/BrowserSetup.thy ===== *)
theory BrowserSetup
  imports SessionIdentity
begin

text \<open>
  Starting a browser (\<open>newAdapter\<close> and its helpers in \<open>internal/provider/cgv/browser.go\<close>, the stealth
  configuration of \<open>stealth.go\<close>, the identity session of \<open>user_agent.go\<close> and the checks of
  \<open>browser_runtime.go\<close>). The driver, the page and the files answer through a record of arguments; the
  scripts of third parties are strings given from outside. What is started, opened and closed is a list
  of events.
\<close>


section \<open>The runtime\<close>

text \<open>\<open>os.Stat\<close>: whether the file is regular, or the error.\<close>

definition validateBrowserExecutable :: "(string \<Rightarrow> bool result) \<Rightarrow> string \<Rightarrow> string \<Rightarrow> string result" where
  "validateBrowserExecutable stat path0 source =
    (let path = Clean (TrimSpace path0) in
     if path = ''.'' then Inl (errNew (source @ '' Chromium executable path is empty''))
     else case stat path of
         Inl e \<Rightarrow> Inl (wrapE (source @ '' Chromium executable '' @ quoteGo path) e)
       | Inr regular \<Rightarrow> if \<not> regular then Inl (errNew (source @ '' Chromium executable '' @ quoteGo path @ '' is not a file'')) else Inr path)"

text \<open>The environment variable, and the path of the managed browser, \<open>None\<close> when the driver has none.\<close>

definition resolveBrowserExecutable :: "(string \<Rightarrow> bool result) \<Rightarrow> string \<Rightarrow> string option \<Rightarrow> string \<Rightarrow> string result" where
  "resolveBrowserExecutable stat chromePathVariable managed configured0 =
    (let configured1 = TrimSpace configured0;
         configured = (if configured1 = [] then TrimSpace chromePathVariable else configured1)
     in if configured \<noteq> [] then validateBrowserExecutable stat configured ''configured''
        else case managed of
            None \<Rightarrow> Inl (errNew ''playwright Chromium is unavailable'')
          | Some path \<Rightarrow> validateBrowserExecutable stat path ''managed'')"

definition validatePlaywrightDriver :: "string \<Rightarrow> (string \<Rightarrow> bool result) \<Rightarrow> string \<Rightarrow> unit result" where
  "validatePlaywrightDriver goos stat driverDirectory =
    (let node = (if goos = ''windows'' then ''node.exe'' else ''node'') in
     foldR (\<lambda>_ required.
         case stat required of Inl e \<Rightarrow> Inl (wrapE (''launcher Playwright driver is incomplete at '' @ quoteGo required) e) | Inr _ \<Rightarrow> Inr ())
       () [JoinPath [driverDirectory, node], JoinPath [driverDirectory, ''package'', ''cli.js'']])"

datatype setupEvent =
    PlaywrightStarted | PlaywrightStopped | BrowserLaunched | BrowserClosed | PageOpened | PageClosed
  | SessionOpened | SessionDetached | ContextCancelled

text \<open>\<open>run\<close> is the answer of \<open>playwright.Run\<close>.\<close>

definition startPlaywright :: "string \<Rightarrow> (string \<Rightarrow> bool result) \<Rightarrow> string \<Rightarrow> goerr option \<Rightarrow> unit result \<times> setupEvent list" where
  "startPlaywright goos stat driverPathVariable run =
    (let driverDirectory = TrimSpace driverPathVariable;
         started = (case run of None \<Rightarrow> (Inr (), [PlaywrightStarted]) | Some e \<Rightarrow> (Inl e, []))
     in if driverDirectory = [] then started
        else case validatePlaywrightDriver goos stat driverDirectory of Inl e \<Rightarrow> (Inl e, []) | Inr _ \<Rightarrow> started)"

text \<open>What starting the driver and finding a browser depends on.\<close>

record runtimeEnv =
  reGoos :: string
  reStat :: "string \<Rightarrow> bool result"
  reDriverPath :: string
  reRun :: "goerr option"
  reChromePath :: string
  reManaged :: "string option"
  reMkdir :: "string \<Rightarrow> goerr option"

text \<open>
  The preflight: the error of the context at the first, the second and the last look at it, \<open>None\<close> for
  a nil context, and the answers of the browser.
\<close>

record preflightEnv =
  pfContext :: "(goerr option \<times> goerr option \<times> goerr option) option"
  pfLaunch :: "goerr option"
  pfPage :: "goerr option"
  pfEvaluate :: "goerr option"

definition preflightPage :: "preflightEnv \<Rightarrow> goerr option \<Rightarrow> goerr option \<Rightarrow> unit result" where
  "preflightPage env ctx2 ctx3 =
    (case ctx2 of Some e \<Rightarrow> Inl e | None \<Rightarrow>
     case pfPage env of Some e \<Rightarrow> Inl (wrapE ''create Chromium preflight page'' e) | None \<Rightarrow>
     case pfEvaluate env of Some e \<Rightarrow> Inl (wrapE ''evaluate Chromium preflight page'' e) | None \<Rightarrow>
     case ctx3 of Some e \<Rightarrow> Inl e | None \<Rightarrow> Inr ())"

definition PreflightBrowserRuntime :: "runtimeEnv \<Rightarrow> preflightEnv \<Rightarrow> string \<Rightarrow> unit result \<times> setupEvent list" where
  "PreflightBrowserRuntime re env configuredExecutable =
    (case pfContext env of
       None \<Rightarrow> (Inl (errNew ''browser preflight context is required''), [])
     | Some (Some e, _, _) \<Rightarrow> (Inl e, [])
     | Some (None, ctx2, ctx3) \<Rightarrow>
         (case startPlaywright (reGoos re) (reStat re) (reDriverPath re) (reRun re) of
            (Inl e, events) \<Rightarrow> (Inl (wrapE ''start Playwright preflight'' e), events)
          | (Inr _, events) \<Rightarrow>
              (case resolveBrowserExecutable (reStat re) (reChromePath re) (reManaged re) configuredExecutable of
                 Inl e \<Rightarrow> (Inl e, events @ [PlaywrightStopped])
               | Inr _ \<Rightarrow>
                   (case pfLaunch env of
                      Some e \<Rightarrow> (Inl (wrapE ''launch Chromium preflight'' e), events @ [PlaywrightStopped])
                    | None \<Rightarrow> (preflightPage env ctx2 ctx3, events @ [BrowserLaunched, BrowserClosed, PlaywrightStopped])))))"

definition prepareBrowserDirectories :: "(string \<Rightarrow> goerr option) \<Rightarrow> BrowserConfig \<Rightarrow> unit result" where
  "prepareBrowserDirectories mkdir config =
    foldR (\<lambda>_ directory. case mkdir directory of Some e \<Rightarrow> Inl (wrapE ''create browser directory'' e) | None \<Rightarrow> Inr ())
      () [bcProfileDir config, bcArtifactsDir config]"


section \<open>The options of a launch\<close>

definition optionalString :: "string \<Rightarrow> string option" where
  "optionalString value = (if value = [] then None else Some value)"

record contextOptions =
  coExecutable :: string
  coHeadless :: bool
  coIgnoreDefaultArgs :: "string list"
  coArgs :: "string list"
  coTimezone :: string
  coLocale :: "string option"
  coProxy :: "(string \<times> string option \<times> string option) option"
  coBlockServiceWorkers :: bool
  coSize :: "int \<times> int"

definition persistentContextOptions :: "BrowserConfig \<Rightarrow> string \<Rightarrow> contextOptions" where
  "persistentContextOptions config locale =
    (let position = (if bcStartMinimized config \<and> \<not> bcHeadless config then ''--window-position=-32000,-32000'' else ''--window-position=80,80'') in
     \<lparr>coExecutable = bcChromePath config, coHeadless = bcHeadless config,
      coIgnoreDefaultArgs = ''--enable-automation'' # (if bcRestoreSession config then [''--no-startup-window''] else []),
      coArgs = [''--disable-blink-features=AutomationControlled'', ''--disable-background-timer-throttling'',
          ''--disable-backgrounding-occluded-windows'', ''--disable-renderer-backgrounding'', ''--window-size=1440,1100'', position]
        @ (if bcRestoreSession config then [''--restore-last-session''] else []),
      coTimezone = bcTimeZone config, coLocale = optionalString locale,
      coProxy = map_option (\<lambda>p. (Server p, optionalString (Username p), optionalString (Password p))) (bcProxy config),
      coBlockServiceWorkers = True, coSize = (1440, 1100)\<rparr>)"

text \<open>The preferences file of the profile, or the error of reading it.\<close>

definition decodePreferences :: "string decoder" where
  "decodePreferences = decodeStruct (fieldTable [(''intl'', decodeStruct (fieldTable [(''accept_languages'', decodeString)]))])"

definition profilePrimaryLanguage :: "jsonBody result \<Rightarrow> string" where
  "profilePrimaryLanguage preferences =
    (case preferences of
       Inl _ \<Rightarrow> []
     | Inr contents \<Rightarrow>
         (case Unmarshal decodePreferences contents [] of
            (_, Some _) \<Rightarrow> []
          | (acceptLanguages, None) \<Rightarrow> TrimSpace (hd (Split (CHR '','') acceptLanguages))))"


section \<open>The identity\<close>

text \<open>What the page answers, a tree or an error of the evaluation.\<close>

definition readNativeBrowserLanguages :: "json result \<Rightarrow> string list result" where
  "readNativeBrowserLanguages page =
    bindR (mapErr (wrapE ''read browser languages'') page) (\<lambda>value.
    case decodeSlice decodeString [] value [] of
      (_, Some e) \<Rightarrow> Inl (wrapE ''decode browser languages'' e)
    | (languages, None) \<Rightarrow> nativeLanguages languages)"

definition readNativeWebGLIdentity :: "json result \<Rightarrow> webGLIdentity result" where
  "readNativeWebGLIdentity page =
    bindR (mapErr (wrapE ''read browser WebGL identity'') page) (\<lambda>value.
    case decodeWebGL value zeroWebGL of
      (_, Some e) \<Rightarrow> Inl (wrapE ''decode browser WebGL identity'' e)
    | (identity, None) \<Rightarrow>
        if TrimSpace (wgVendor identity) = [] \<or> TrimSpace (wgRenderer identity) = [] then Inl (errNew ''browser returned no WebGL identity'')
        else Inr identity)"

text \<open>The metadata the page reports, after it was sent to the local origin.\<close>

definition reportedMetadata :: "goerr option \<Rightarrow> json result \<Rightarrow> userAgentBootstrapIdentity result" where
  "reportedMetadata navigated page =
    (case navigated of
       Some e \<Rightarrow> Inl (wrapE ''open local browser identity origin'' e)
     | None \<Rightarrow>
         bindR (mapErr (wrapE ''read native browser UA metadata'') page) (\<lambda>value.
         case decodeMetadata value zeroMetadata of
           (_, Some e) \<Rightarrow> Inl (wrapE ''decode native browser UA metadata'' e)
         | (identity, None) \<Rightarrow> Inr identity))"

text \<open>\<open>strings.Count\<close> and \<open>strings.Replace\<close> with one replacement, of a text that is not empty.\<close>

function countOf :: "string \<Rightarrow> string \<Rightarrow> nat" where
  "countOf s old =
    (if s = [] \<or> old = [] then 0
     else if HasPrefix s old then Suc (countOf (drop (length old) s) old) else countOf (tl s) old)"
  by pat_completeness auto
termination
  by (relation "measure (\<lambda>(s, old). length s)") auto

declare countOf.simps [simp del]

fun replaceOnce :: "string \<Rightarrow> string \<Rightarrow> string \<Rightarrow> string" where
  "replaceOnce old new [] = []"
| "replaceOnce old new (c # s) = (if HasPrefix (c # s) old then new @ drop (length old) (c # s) else c # replaceOnce old new s)"

definition stealthLanguageArgs :: string where
  "stealthLanguageArgs = ''_args:[{opts:{languages:[]}}]}''"

definition stealthWebGLArgs :: string where
  "stealthWebGLArgs = ''_args:[{}]}),(()=>{try{if(window.outerWidth&&window.outerHeight)''"

text \<open>The vendored script and the text of a tree are arguments.\<close>

definition stealthBootstrapForIdentity :: "(json \<Rightarrow> string) \<Rightarrow> string \<Rightarrow> string list \<Rightarrow> webGLIdentity \<Rightarrow> string result" where
  "stealthBootstrapForIdentity marshal stealthBootstrap languages webGL =
    (if languages = [] then Inl (errNew ''browser languages are required'')
     else if TrimSpace (wgVendor webGL) = [] \<or> TrimSpace (wgRenderer webGL) = [] then Inl (errNew ''browser WebGL identity is required'')
     else if countOf stealthBootstrap stealthLanguageArgs \<noteq> 1 then Inl (errNew ''vendored stealth language hook changed'')
     else if countOf stealthBootstrap stealthWebGLArgs \<noteq> 1 then Inl (errNew ''vendored stealth WebGL hook changed'')
     else Inr (replaceOnce stealthWebGLArgs
                 (''_args:['' @ marshal (encodeWebGL webGL) @ '']}),(()=>{try{if(window.outerWidth&&window.outerHeight)'')
                 (replaceOnce stealthLanguageArgs (''_args:[{opts:{languages:'' @ marshal (JArray (map encodeString languages)) @ ''}}]}'') stealthBootstrap)))"

section \<open>The adapter\<close>

text \<open>What launching a browser depends on: the page, the session, the scripts and the store of exchanges.\<close>

record launchEnv =
  lnGoos :: string
  lnGoarch :: string
  lnReadErr :: "goerr option"
  lnInstalled :: "string result"
  lnDraw :: "int \<Rightarrow> int result"
  lnPreferences :: "jsonBody result"
  lnLaunch :: "goerr option"
  lnPages :: nat
  lnNewPage :: "goerr option"
  lnUserAgent :: "string option result"
  lnLanguages :: "json result"
  lnWebGL :: "json result"
  lnNavigated :: "goerr option"
  lnMetadata :: "json result"
  lnSession :: "goerr option"
  lnSend :: "goerr option"
  lnMarshal :: "json \<Rightarrow> string"
  lnStealth :: string
  lnChromeStealth :: string
  lnBootstrap :: "string \<Rightarrow> string"
  lnOverrides :: string
  lnShadow :: string
  lnStore :: "goerr option"
  lnSave :: saveEnv
  lnInitScript :: "string \<Rightarrow> goerr option"
  lnRoute :: "goerr option"
  lnEvaluate :: "string \<Rightarrow> goerr option"

text \<open>The first page stays; the others are closed.\<close>

definition onlyBrowserPage :: "launchEnv \<Rightarrow> unit result \<times> setupEvent list" where
  "onlyBrowserPage env =
    (if lnPages env = 0 then
       (case lnNewPage env of Some e \<Rightarrow> (Inl (wrapE ''create browser page'' e), []) | None \<Rightarrow> (Inr (), [PageOpened]))
     else (Inr (), replicate (lnPages env - 1) PageClosed))"

record browserIdentitySetup =
  bsWebGL :: webGLIdentity
  bsMetadata :: userAgentBootstrapIdentity
  bsLanguages :: "string list"
  bsScripts :: "string list"

definition identitySurfaces ::
  "launchEnv \<Rightarrow> browserUserAgent \<Rightarrow> persistentBrowserIdentity option \<Rightarrow> (string list \<times> webGLIdentity \<times> userAgentBootstrapIdentity) result" where
  "identitySurfaces env userAgent persisted =
    (case persisted of
       None \<Rightarrow>
         bindR (readNativeBrowserLanguages (lnLanguages env)) (\<lambda>languages.
         bindR (readNativeWebGLIdentity (lnWebGL env)) (\<lambda>webGL.
         bindR (readNativeUserAgentIdentity (reportedMetadata (lnNavigated env) (lnMetadata env)) userAgent) (\<lambda>metadata.
         Inr (take 1 languages, webGL, metadata))))
     | Some p \<Rightarrow> Inr (piLanguages p, piWebGL p, piMetadata p))"

definition openBrowserIdentitySession :: "launchEnv \<Rightarrow> unit result \<times> setupEvent list" where
  "openBrowserIdentitySession env =
    (case lnSession env of
       Some e \<Rightarrow> (Inl (wrapE ''open browser identity session'' e), [])
     | None \<Rightarrow>
         (case lnSend env of
            Some e \<Rightarrow> (Inl (wrapE ''apply browser user agent metadata'' e), [SessionOpened, SessionDetached])
          | None \<Rightarrow> (Inr (), [SessionOpened])))"

definition initializeBrowserIdentity ::
  "launchEnv \<Rightarrow> browserUserAgent \<Rightarrow> persistentBrowserIdentity option \<Rightarrow> browserIdentitySetup result \<times> setupEvent list" where
  "initializeBrowserIdentity env userAgent persisted =
    (case identitySurfaces env userAgent persisted of
       Inl e \<Rightarrow> (Inl e, [])
     | Inr (languages, webGL, metadata) \<Rightarrow>
         (let userAgentScript = lnBootstrap env (lnMarshal env (encodeMetadata metadata)) in
          case openBrowserIdentitySession env of
            (Inl e, events) \<Rightarrow> (Inl e, events)
          | (Inr _, events) \<Rightarrow>
              (case stealthBootstrapForIdentity (lnMarshal env) (lnStealth env) languages webGL of
                 Inl e \<Rightarrow> (Inl (wrapE ''configure browser stealth'' e), events @ [SessionDetached])
               | Inr localizedStealth \<Rightarrow>
                   (Inr \<lparr>bsWebGL = webGL, bsMetadata = metadata, bsLanguages = languages,
                         bsScripts = [localizedStealth, lnChromeStealth env, userAgentScript, lnOverrides env, lnShadow env]\<rparr>, events))))"

definition firstFailure :: "string \<Rightarrow> (string \<Rightarrow> goerr option) \<Rightarrow> string list \<Rightarrow> unit result" where
  "firstFailure what run scripts = foldR (\<lambda>_ script. case run script of Some e \<Rightarrow> Inl (wrapE what e) | None \<Rightarrow> Inr ()) () scripts"

definition installBrowserHooks :: "launchEnv \<Rightarrow> string list \<Rightarrow> unit result" where
  "installBrowserHooks env scripts =
    bindR (firstFailure ''install browser init script'' (lnInitScript env) scripts) (\<lambda>_.
    bindR (case lnRoute env of Some e \<Rightarrow> Inl (wrapE ''install browser resource routing'' e) | None \<Rightarrow> Inr ()) (\<lambda>_.
    firstFailure ''initialize browser page'' (lnEvaluate env) scripts))"

text \<open>The fields of the adapter that come from its setup.\<close>

record adapterSetup =
  asUserAgent :: browserUserAgent
  asMetadata :: userAgentBootstrapIdentity
  asWebGL :: webGLIdentity
  asLanguages :: "string list"
  asOptions :: contextOptions
  asScripts :: "string list"
  asBlockResources :: bool

text \<open>\<open>Adapter.Close\<close> up to its hooks; \<open>stops\<close> says whether the adapter stops the driver, too.\<close>

definition adapterClose :: "bool \<Rightarrow> setupEvent list" where
  "adapterClose stops = [ContextCancelled, SessionDetached, BrowserClosed] @ (if stops then [PlaywrightStopped] else [])"

text \<open>The part of \<open>newAdapter\<close> after the adapter was made: the store of exchanges, the identity file and the hooks.\<close>

definition finishAdapter ::
  "launchEnv \<Rightarrow> bool \<Rightarrow> bool \<Rightarrow> BrowserConfig \<Rightarrow> persistentBrowserIdentity option \<Rightarrow> browserUserAgent \<Rightarrow> browserIdentitySetup \<Rightarrow> contextOptions \<Rightarrow>
   profileDir \<Rightarrow> adapterSetup result \<times> setupEvent list \<times> profileDir" where
  "finishAdapter env stops hasCapture config persisted userAgent identity options dir =
    (case (if hasCapture then None else lnStore env) of
       Some e \<Rightarrow> (Inl (wrapE ''initialize browser network capture'' e), adapterClose stops, dir)
     | None \<Rightarrow>
         (case (if persisted \<noteq> None then (Inr (), dir)
                else saveSessionIdentity (lnGoos env) (lnGoarch env) (lnSave env) config
                  \<lparr>piVersion = sessionIdentityVersion, piUserAgent = userAgent, piMetadata = bsMetadata identity,
                   piLanguages = bsLanguages identity, piWebGL = bsWebGL identity\<rparr> dir) of
            (Inl e, dir') \<Rightarrow> (Inl e, adapterClose stops, dir')
          | (Inr _, dir') \<Rightarrow>
              (case installBrowserHooks env (bsScripts identity) of
                 Inl e \<Rightarrow> (Inl e, adapterClose stops, dir')
               | Inr _ \<Rightarrow>
                   (Inr \<lparr>asUserAgent = userAgent, asMetadata = bsMetadata identity, asWebGL = bsWebGL identity, asLanguages = bsLanguages identity,
                         asOptions = options, asScripts = bsScripts identity, asBlockResources = bcBlockResources config\<rparr>, [], dir'))))"

definition newAdapter ::
  "launchEnv \<Rightarrow> bool \<Rightarrow> bool \<Rightarrow> bool \<Rightarrow> BrowserConfig \<Rightarrow> profileDir \<Rightarrow> adapterSetup result \<times> setupEvent list \<times> profileDir" where
  "newAdapter env hasDriver stops hasCapture config dir =
    (if \<not> hasDriver then (Inl (errNew ''playwright runtime is required''), [], dir)
     else case loadSessionIdentity (lnGoos env) (lnGoarch env) (lnReadErr env) config dir of
         Inl e \<Rightarrow> (Inl e, [ContextCancelled], dir)
       | Inr persisted \<Rightarrow>
           (case (case persisted of Some p \<Rightarrow> Inr (piUserAgent p)
                  | None \<Rightarrow> selectBrowserUserAgent (lnGoos env) (lnGoarch env) (lnInstalled env) (bcUserAgentMode config) (lnDraw env)) of
              Inl e \<Rightarrow> (Inl e, [ContextCancelled], dir)
            | Inr selected \<Rightarrow>
                (let options = persistentContextOptions config (browserLocale config persisted (profilePrimaryLanguage (lnPreferences env))) in
                 case lnLaunch env of
                   Some e \<Rightarrow> (Inl (wrapE ''launch Chrome with Playwright'' e), [ContextCancelled], dir)
                 | None \<Rightarrow>
                     (case onlyBrowserPage env of
                        (Inl e, events) \<Rightarrow> (Inl e, [BrowserLaunched] @ events @ [BrowserClosed, ContextCancelled], dir)
                      | (Inr _, pageEvents) \<Rightarrow>
                          (case (if persisted \<noteq> None then Inr selected
                                 else bindR (readNativeReducedUserAgent (lnUserAgent env) (uaMajor selected)) (\<lambda>value. Inr (selected\<lparr>uaValue := value\<rparr>))) of
                             Inl e \<Rightarrow> (Inl e, [BrowserLaunched] @ pageEvents @ [BrowserClosed, ContextCancelled], dir)
                           | Inr userAgent \<Rightarrow>
                               (case initializeBrowserIdentity env userAgent persisted of
                                  (Inl e, events) \<Rightarrow> (Inl e, [BrowserLaunched] @ pageEvents @ events @ [BrowserClosed, ContextCancelled], dir)
                                | (Inr identity, events) \<Rightarrow>
                                    (let (r, later, dir') = finishAdapter env stops hasCapture config persisted userAgent identity options dir
                                     in (r, [BrowserLaunched] @ pageEvents @ events @ later, dir'))))))))"

text \<open>An adapter of its own, which stops the driver; the pool's start of the driver.\<close>

definition NewAdapter ::
  "runtimeEnv \<Rightarrow> launchEnv \<Rightarrow> bool \<Rightarrow> bool \<Rightarrow> BrowserConfig \<Rightarrow> profileDir \<Rightarrow> adapterSetup result \<times> setupEvent list \<times> profileDir" where
  "NewAdapter re env hasParent hasCapture config0 dir =
    (if \<not> hasParent then (Inl (errNew ''browser task context is required''), [], dir)
     else
       let config = normalizedBrowserConfig config0 in
       case prepareBrowserDirectories (reMkdir re) config of
         Inl e \<Rightarrow> (Inl e, [], dir)
       | Inr _ \<Rightarrow>
           (case startPlaywright (reGoos re) (reStat re) (reDriverPath re) (reRun re) of
              (Inl e, events) \<Rightarrow> (Inl (wrapE ''start Playwright'' e), events, dir)
            | (Inr _, events) \<Rightarrow>
                (case resolveBrowserExecutable (reStat re) (reChromePath re) (reManaged re) (bcChromePath config) of
                   Inl e \<Rightarrow> (Inl e, events @ [PlaywrightStopped], dir)
                 | Inr path \<Rightarrow>
                     (case newAdapter env True True hasCapture (config\<lparr>bcChromePath := path\<rparr>) dir of
                        (Inl e, later, dir') \<Rightarrow> (Inl e, events @ later @ [PlaywrightStopped], dir')
                      | (Inr adapter, later, dir') \<Rightarrow> (Inr adapter, events @ later, dir')))))"

definition startPool :: "runtimeEnv \<Rightarrow> BrowserConfig \<Rightarrow> BrowserConfig result \<times> setupEvent list" where
  "startPool re config0 =
    (let config = normalizedBrowserConfig config0 in
     case prepareBrowserDirectories (reMkdir re) config of
       Inl e \<Rightarrow> (Inl e, [])
     | Inr _ \<Rightarrow>
         (case startPlaywright (reGoos re) (reStat re) (reDriverPath re) (reRun re) of
            (Inl e, events) \<Rightarrow> (Inl (wrapE ''start Playwright'' e), events)
          | (Inr _, events) \<Rightarrow>
              (case resolveBrowserExecutable (reStat re) (reChromePath re) (reManaged re) (bcChromePath config) of
                 Inl e \<Rightarrow> (Inl e, events @ [PlaywrightStopped])
               | Inr path \<Rightarrow> (Inr (config\<lparr>bcChromePath := path\<rparr>), events))))"

text \<open>The configuration the pool gives a task before it launches its browser.\<close>

definition poolTaskConfig :: "runtimeEnv \<Rightarrow> BrowserConfig \<Rightarrow> BrowserConfig \<Rightarrow> BrowserConfig result" where
  "poolTaskConfig re pool config0 =
    (let config1 = normalizedBrowserConfig config0 in
     bindR (if bcChromePath config1 = [] then Inr (bcChromePath pool)
            else resolveBrowserExecutable (reStat re) (reChromePath re) (reManaged re) (bcChromePath config1)) (\<lambda>path.
     let config2 = config1\<lparr>bcChromePath := path\<rparr>;
         config = (if bcArtifactsDir config2 = bcArtifactsDir DefaultBrowserConfig then config2\<lparr>bcArtifactsDir := bcArtifactsDir pool\<rparr> else config2)
     in bindR (prepareBrowserDirectories (reMkdir re) config) (\<lambda>_. Inr config)))"

section \<open>Nothing stays open\<close>

text \<open>Browsers and identity sessions opened and closed, as differences, and the driver.\<close>

definition openBrowsers :: "setupEvent list \<Rightarrow> int" where
  "openBrowsers ev = int (count_list ev BrowserLaunched) - int (count_list ev BrowserClosed)"

definition openSessions :: "setupEvent list \<Rightarrow> int" where
  "openSessions ev = int (count_list ev SessionOpened) - int (count_list ev SessionDetached)"

definition driverLeft :: "setupEvent list \<Rightarrow> bool" where
  "driverLeft ev \<longleftrightarrow> PlaywrightStarted \<in> set ev \<and> PlaywrightStopped \<notin> set ev"

lemma open_append [simp]: "openBrowsers (xs @ ys) = openBrowsers xs + openBrowsers ys" "openSessions (xs @ ys) = openSessions xs + openSessions ys"
  by (simp_all add: openBrowsers_def openSessions_def)

lemma open_simps [simp]:
  "openBrowsers [] = 0" "openBrowsers (e # ev) = (if e = BrowserLaunched then 1 else if e = BrowserClosed then -1 else 0) + openBrowsers ev"
  "openSessions [] = 0" "openSessions (e # ev) = (if e = SessionOpened then 1 else if e = SessionDetached then -1 else 0) + openSessions ev"
  by (simp_all add: openBrowsers_def openSessions_def)

lemma onlyBrowserPage_events:
  "onlyBrowserPage env = (r, ev) \<Longrightarrow> openBrowsers ev = 0 \<and> openSessions ev = 0 \<and> set ev \<subseteq> {PageOpened, PageClosed}"
  by (auto simp: onlyBrowserPage_def openBrowsers_def openSessions_def count_list_0_iff split: if_splits option.splits)

lemma openBrowserIdentitySession_events:
  "openBrowserIdentitySession env = (r, ev) \<Longrightarrow> openBrowsers ev = 0 \<and> openSessions ev = (if isOk r then 1 else 0) \<and> set ev \<subseteq> {SessionOpened, SessionDetached}"
  by (auto simp: openBrowserIdentitySession_def split: option.splits)

lemma initializeBrowserIdentity_events:
  assumes "initializeBrowserIdentity env ua persisted = (r, ev)"
  shows "openBrowsers ev = 0 \<and> openSessions ev = (if isOk r then 1 else 0) \<and> set ev \<subseteq> {SessionOpened, SessionDetached}"
proof -
  obtain r1 ev1 where s: "openBrowserIdentitySession env = (r1, ev1)" by fastforce
  show ?thesis using assms openBrowserIdentitySession_events[OF s]
    by (auto simp: initializeBrowserIdentity_def s Let_def split: sum.splits prod.splits)
qed

lemma finishAdapter_events:
  "finishAdapter env stops capture config persisted ua identity options dir = (r, ev, dir') \<Longrightarrow> ev = (if isOk r then [] else adapterClose stops)"
  by (auto simp: finishAdapter_def split: option.splits sum.splits prod.splits if_splits)

text \<open>The cases of \<open>newAdapter\<close>: it fails before the launch, after the launch, or is finished.\<close>

lemma newAdapter_cases:
  assumes "newAdapter env hasDriver stops capture config dir = (r, ev, dir')"
  obtains (early) "\<not> isOk r" "set ev \<subseteq> {ContextCancelled}"
  | (launched) mid where "\<not> isOk r" "ev = [BrowserLaunched] @ mid @ [BrowserClosed, ContextCancelled]" "openBrowsers mid = 0" "openSessions mid = 0"
      "set mid \<subseteq> {PageOpened, PageClosed, SessionOpened, SessionDetached}"
  | (finished) mid where "ev = [BrowserLaunched] @ mid @ (if isOk r then [] else adapterClose stops)" "openBrowsers mid = 0" "openSessions mid = 1"
      "set mid \<subseteq> {PageOpened, PageClosed, SessionOpened, SessionDetached}"
proof -
  note splits = option.splits sum.splits prod.splits if_splits
  obtain pr pev where p: "onlyBrowserPage env = (pr, pev)" by fastforce
  note page = onlyBrowserPage_events[OF p]
  show thesis
  proof (cases "hasDriver \<and> lnLaunch env = None \<and> (\<exists>persisted selected. loadSessionIdentity (lnGoos env) (lnGoarch env) (lnReadErr env) config dir = Inr persisted
      \<and> (case persisted of Some p \<Rightarrow> Inr (piUserAgent p)
         | None \<Rightarrow> selectBrowserUserAgent (lnGoos env) (lnGoarch env) (lnInstalled env) (bcUserAgentMode config) (lnDraw env)) = Inr selected)")
    case False
    then show ?thesis using assms by (intro early) (auto simp: newAdapter_def Let_def split: splits)
  next
    case True
    then obtain persisted selected where l: "hasDriver" "lnLaunch env = None" "loadSessionIdentity (lnGoos env) (lnGoarch env) (lnReadErr env) config dir = Inr persisted"
      "(case persisted of Some p \<Rightarrow> Inr (piUserAgent p)
         | None \<Rightarrow> selectBrowserUserAgent (lnGoos env) (lnGoarch env) (lnInstalled env) (bcUserAgentMode config) (lnDraw env)) = Inr selected" by blast
    let ?ua = "if persisted \<noteq> None then Inr selected
       else bindR (readNativeReducedUserAgent (lnUserAgent env) (uaMajor selected)) (\<lambda>value. Inr (selected\<lparr>uaValue := value\<rparr>))"
    note new = assms[unfolded newAdapter_def l(3) l(2) sum.case l(4) Let_def p prod.case option.case]
    show ?thesis
    proof (cases "isOk pr \<and> isOk ?ua")
      case False
      then have "\<not> isOk r" "ev = [BrowserLaunched] @ pev @ [BrowserClosed, ContextCancelled]"
        using new l(1) by (auto split: sum.splits)
      then show ?thesis using page by (intro launched) auto
    next
      case True
      then obtain u ua where u: "pr = Inr u" "?ua = Inr ua" unfolding isOk_iff by blast
      obtain ir iev where i: "initializeBrowserIdentity env ua persisted = (ir, iev)" by fastforce
      note ident = initializeBrowserIdentity_events[OF i]
      note new1 = new[unfolded u sum.case i prod.case]
      show ?thesis
      proof (cases ir)
        case (Inl e)
        then have "\<not> isOk r" "ev = [BrowserLaunched] @ (pev @ iev) @ [BrowserClosed, ContextCancelled]" using new1 l(1) by auto
        then show ?thesis using page ident Inl by (intro launched) auto
      next
        case (Inr identity)
        obtain fr fev fdir where f: "finishAdapter env stops capture config persisted ua identity
            (persistentContextOptions config (browserLocale config persisted (profilePrimaryLanguage (lnPreferences env)))) dir = (fr, fev, fdir)"
          using prod_cases3 by blast
        from new1 l(1) Inr have "r = fr" "ev = [BrowserLaunched] @ (pev @ iev) @ fev" by (auto simp: f)
        then show ?thesis using finishAdapter_events[OF f] page ident Inr by (intro finished[of "pev @ iev"]) auto
      qed
    qed
  qed
qed

lemma newAdapter_events:
  assumes "newAdapter env hasDriver stops capture config dir = (r, ev, dir')"
  shows "openBrowsers ev = (if isOk r then 1 else 0) \<and> openSessions ev = (if isOk r then 1 else 0)
    \<and> PlaywrightStarted \<notin> set ev \<and> (isOk r \<longrightarrow> PlaywrightStopped \<notin> set ev)"
  using assms
proof (cases rule: newAdapter_cases)
  case early
  then have "openBrowsers ev = 0" "openSessions ev = 0" by (induction ev) auto
  then show ?thesis using early by auto
next
  case (launched mid)
  then show ?thesis by auto
next
  case (finished mid)
  then show ?thesis by (auto simp: adapterClose_def)
qed

lemma startPlaywright_events: "startPlaywright goos stat var run = (r, ev) \<Longrightarrow> ev = (if isOk r then [PlaywrightStarted] else [])"
  by (cases r; cases "validatePlaywrightDriver goos stat (TrimSpace var)"; auto simp: startPlaywright_def Let_def split: option.splits if_splits)

definition allClosed :: "setupEvent list \<Rightarrow> bool" where
  "allClosed ev \<longleftrightarrow> openBrowsers ev = 0 \<and> openSessions ev = 0 \<and> \<not> driverLeft ev"

text \<open>
  C12. A browser that could not be set up leaves nothing running: whatever fails, in reading the
  identity, the launch, the page, the identity session, the scripts, the store of exchanges, the saving
  of the identity or the hooks, the browser is closed, the session detached and, for an adapter that
  has a driver of its own and for the check of the runtime, the driver stopped. A setup that succeeds
  has one browser and one session open, and closing the adapter closes them.
\<close>

theorem setup_no_leak:
  "(case newAdapter env hasDriver stops capture config dir of
      (Inl _, ev, _) \<Rightarrow> allClosed ev
    | (Inr _, ev, _) \<Rightarrow> openBrowsers ev = 1 \<and> openSessions ev = 1 \<and> allClosed (ev @ adapterClose stops))
   \<and> (case NewAdapter re env hasParent capture config dir of
      (Inl _, ev, _) \<Rightarrow> allClosed ev
    | (Inr _, ev, _) \<Rightarrow> openBrowsers ev = 1 \<and> driverLeft ev \<and> allClosed (ev @ adapterClose True))
   \<and> (case startPool re config of (Inl _, ev) \<Rightarrow> allClosed ev | (Inr _, ev) \<Rightarrow> ev = [PlaywrightStarted])
   \<and> allClosed (snd (PreflightBrowserRuntime re check executable))"
proof (intro conjI)
  show "case newAdapter env hasDriver stops capture config dir of
      (Inl _, ev, _) \<Rightarrow> allClosed ev
    | (Inr _, ev, _) \<Rightarrow> openBrowsers ev = 1 \<and> openSessions ev = 1 \<and> allClosed (ev @ adapterClose stops)"
    using newAdapter_events[of env hasDriver stops capture config dir]
    by (auto simp: allClosed_def driverLeft_def adapterClose_def split: prod.splits sum.splits)
next
  obtain pr pev where s: "startPlaywright (reGoos re) (reStat re) (reDriverPath re) (reRun re) = (pr, pev)" by fastforce
  note start = startPlaywright_events[OF s]
  show "case NewAdapter re env hasParent capture config dir of
      (Inl _, ev, _) \<Rightarrow> allClosed ev
    | (Inr _, ev, _) \<Rightarrow> openBrowsers ev = 1 \<and> driverLeft ev \<and> allClosed (ev @ adapterClose True)"
  proof (cases "resolveBrowserExecutable (reStat re) (reChromePath re) (reManaged re) (bcChromePath (normalizedBrowserConfig config))")
    case (Inl e)
    then show ?thesis using start by (auto simp: NewAdapter_def s Let_def allClosed_def driverLeft_def split: sum.splits)
  next
    case (Inr path)
    obtain r ev dir' where n: "newAdapter env True True capture ((normalizedBrowserConfig config)\<lparr>bcChromePath := path\<rparr>) dir = (r, ev, dir')"
      using prod_cases3 by blast
    show ?thesis using start newAdapter_events[OF n] Inr
      by (cases r; auto simp: NewAdapter_def s n Let_def allClosed_def driverLeft_def adapterClose_def split: sum.splits)
  qed
  show "case startPool re config of (Inl _, ev) \<Rightarrow> allClosed ev | (Inr _, ev) \<Rightarrow> ev = [PlaywrightStarted]"
    using start by (auto simp: startPool_def s Let_def allClosed_def driverLeft_def split: sum.splits)
  show "allClosed (snd (PreflightBrowserRuntime re check executable))"
    using start by (auto simp: PreflightBrowserRuntime_def s allClosed_def driverLeft_def split: option.splits sum.splits prod.splits)
qed


section \<open>One identity for a profile\<close>

definition adapterIdentity :: "adapterSetup \<Rightarrow> persistentBrowserIdentity" where
  "adapterIdentity a = \<lparr>piVersion = sessionIdentityVersion, piUserAgent = asUserAgent a, piMetadata = asMetadata a,
     piLanguages = asLanguages a, piWebGL = asWebGL a\<rparr>"

lemma initializeBrowserIdentity_persisted:
  assumes "initializeBrowserIdentity env ua (Some p) = (Inr identity, ev)"
  shows "bsMetadata identity = piMetadata p \<and> bsLanguages identity = piLanguages p \<and> bsWebGL identity = piWebGL p"
  using assms by (auto simp: initializeBrowserIdentity_def identitySurfaces_def Let_def split: sum.splits prod.splits)

lemma finishAdapter_identity:
  assumes "finishAdapter env stops capture config persisted ua identity options dir = (Inr a, ev, dir')"
  shows "asUserAgent a = ua \<and> asMetadata a = bsMetadata identity \<and> asWebGL a = bsWebGL identity \<and> asLanguages a = bsLanguages identity
    \<and> (if persisted = None then saveSessionIdentity (lnGoos env) (lnGoarch env) (lnSave env) config (adapterIdentity a) dir = (Inr (), dir') else dir' = dir)"
  using assms by (auto simp: finishAdapter_def adapterIdentity_def split: option.splits sum.splits prod.splits if_splits)

lemma newAdapter_identity:
  assumes "newAdapter env hasDriver stops capture config dir = (Inr a, ev, dir')"
  shows "\<exists>persisted. loadSessionIdentity (lnGoos env) (lnGoarch env) (lnReadErr env) config dir = Inr persisted
    \<and> (case persisted of Some p \<Rightarrow> adapterIdentity a = p \<and> dir' = dir
       | None \<Rightarrow> saveSessionIdentity (lnGoos env) (lnGoarch env) (lnSave env) config (adapterIdentity a) dir = (Inr (), dir'))"
proof -
  obtain persisted where l: "loadSessionIdentity (lnGoos env) (lnGoarch env) (lnReadErr env) config dir = Inr persisted"
    using assms by (auto simp: newAdapter_def split: if_splits sum.splits)
  obtain ua identity iev options fev where i: "initializeBrowserIdentity env ua persisted = (Inr identity, iev)"
    and f: "finishAdapter env stops capture config persisted ua identity options dir = (Inr a, fev, dir')"
    and u: "\<And>p. persisted = Some p \<Longrightarrow> ua = piUserAgent p"
    using assms l by (auto simp: newAdapter_def Let_def split: if_splits sum.splits option.splits prod.splits)
  note a = finishAdapter_identity[OF f]
  show ?thesis
  proof (cases persisted)
    case None
    then show ?thesis using l a by simp
  next
    case (Some p)
    have "piVersion p = sessionIdentityVersion" using loaded_valid[OF l[unfolded Some]] validateIdentity_surfaces by blast
    then have "adapterIdentity a = p" using a u[OF Some] initializeBrowserIdentity_persisted[OF i[unfolded Some]] by (simp add: adapterIdentity_def)
    then show ?thesis using l a Some by simp
  qed
qed

lemma load_same:
  assumes "loadSessionIdentity goos goarch readErr config dir = Inr (Some p)" "loadSessionIdentity goos' goarch' None config' dir = Inr persisted"
    "bcUserAgentMode config' = UserAgentSession"
  shows "persisted = Some p"
  using assms by (auto simp: loadSessionIdentity_def result_simps split: if_splits option.splits prod.splits)

text \<open>
  C13. A session profile shows one identity for ever: once a session browser was set up on a profile,
  every later one on the profile it left, whatever version of Chrome is installed then and whatever the
  page reports, shows the same user agent, client hints, languages and graphics identity.
\<close>

theorem session_identity_stable:
  assumes "newAdapter env hasDriver stops capture config dir = (Inr shown, ev, dir')" "bcUserAgentMode config = UserAgentSession"
    "textIdentity (adapterIdentity shown)"
    "newAdapter env' hasDriver' stops' capture' config' dir' = (Inr later, ev', dir'')" "bcUserAgentMode config' = UserAgentSession" "lnReadErr env' = None"
  shows "adapterIdentity later = adapterIdentity shown \<and> dir'' = dir'"
proof -
  obtain persisted where p: "loadSessionIdentity (lnGoos env) (lnGoarch env) (lnReadErr env) config dir = Inr persisted"
    "case persisted of Some p \<Rightarrow> adapterIdentity shown = p \<and> dir' = dir
       | None \<Rightarrow> saveSessionIdentity (lnGoos env) (lnGoarch env) (lnSave env) config (adapterIdentity shown) dir = (Inr (), dir')"
    using newAdapter_identity[OF assms(1)] by blast
  have "\<exists>goos goarch readErr. loadSessionIdentity goos goarch readErr config dir' = Inr (Some (adapterIdentity shown))"
  proof (cases persisted)
    case None
    then have "loadSessionIdentity (lnGoos env) (lnGoarch env) None config dir' = Inr (Some ((adapterIdentity shown)\<lparr>piVersion := sessionIdentityVersion\<rparr>))"
      using saved_loads[OF _ assms(2,3)] p(2) by simp
    then show ?thesis by (auto simp: adapterIdentity_def)
  next
    case (Some q)
    then show ?thesis using p by auto
  qed
  then obtain goos goarch readErr where l: "loadSessionIdentity goos goarch readErr config dir' = Inr (Some (adapterIdentity shown))" by blast
  obtain q where q: "loadSessionIdentity (lnGoos env') (lnGoarch env') None config' dir' = Inr q"
    "case q of Some p \<Rightarrow> adapterIdentity later = p \<and> dir'' = dir'
       | None \<Rightarrow> saveSessionIdentity (lnGoos env') (lnGoarch env') (lnSave env') config' (adapterIdentity later) dir' = (Inr (), dir'')"
    using newAdapter_identity[OF assms(4)] assms(6) by auto
  show ?thesis using q(2) by (simp add: load_same[OF l q(1) assms(5)])
qed

definition sampleLaunch :: launchEnv where
  "sampleLaunch = \<lparr>lnGoos = ''linux'', lnGoarch = ''amd64'', lnReadErr = None, lnInstalled = Inr ''151.0.7922.137'', lnDraw = (\<lambda>_. Inr 0),
     lnPreferences = Inl (Sentinel ErrNotExist), lnLaunch = None, lnPages = 1, lnNewPage = None,
     lnUserAgent = Inr (Some ''Mozilla/5.0 (X11; Linux x86_64) HeadlessChrome/151.0.7922.137''),
     lnLanguages = Inr (JArray [JString ''ko-KR'']), lnWebGL = Inr (JObject [(''vendor'', JString ''V''), (''renderer'', JString ''R'')]), lnNavigated = None,
     lnMetadata = Inr (JObject [(''brands'', JArray [JObject [(''brand'', JString ''Chromium''), (''version'', JString ''151'')]]),
        (''fullVersionList'', JArray [JObject [(''brand'', JString ''Chromium''), (''version'', JString ''151.0.7922.137'')]]),
        (''platform'', JString ''Linux''), (''architecture'', JString ''x86''), (''bitness'', JString ''64'')]),
     lnSession = None, lnSend = None, lnMarshal = (\<lambda>_. ''{}''), lnStealth = stealthLanguageArgs @ stealthWebGLArgs, lnChromeStealth = ''c'',
     lnBootstrap = id, lnOverrides = ''o'', lnShadow = ''s'', lnStore = None, lnSave = sampleSave, lnInitScript = (\<lambda>_. None), lnRoute = None,
     lnEvaluate = (\<lambda>_. None)\<rparr>"

definition sampleProfile :: profileDir where "sampleProfile = \<lparr>pdIdentity = None, pdTemps = []\<rparr>"

definition sampleSession :: BrowserConfig where "sampleSession = DefaultBrowserConfig\<lparr>bcUserAgentMode := UserAgentSession\<rparr>"

text \<open>The same profile with a newer browser.\<close>

definition upgradedLaunch :: launchEnv where
  "upgradedLaunch = sampleLaunch\<lparr>lnInstalled := Inr ''152.0.8000.1'', lnUserAgent := Inr (Some ''Mozilla/5.0 (X11; Linux x86_64) HeadlessChrome/152.0.8000.1'')\<rparr>"

lemma sampleLaunch_twice:
  "case newAdapter sampleLaunch True False True sampleSession sampleProfile of
     (Inr shown, _, dir) \<Rightarrow> textIdentity (adapterIdentity shown) \<and> uaMajor (asUserAgent shown) = ''151''
       \<and> isOk (fst (newAdapter upgradedLaunch True False True sampleSession dir))
   | (Inl _, _, _) \<Rightarrow> False"
  by code_simp

theorem session_identity_stable_witness:
  "\<exists>shown later ev ev' dir. newAdapter sampleLaunch True False True sampleSession sampleProfile = (Inr shown, ev, dir)
     \<and> newAdapter upgradedLaunch True False True sampleSession dir = (Inr later, ev', dir)
     \<and> uaMajor (asUserAgent later) = ''151''"
proof -
  obtain shown ev dir where s: "newAdapter sampleLaunch True False True sampleSession sampleProfile = (Inr shown, ev, dir)"
    "textIdentity (adapterIdentity shown)" "uaMajor (asUserAgent shown) = ''151''" "isOk (fst (newAdapter upgradedLaunch True False True sampleSession dir))"
    using sampleLaunch_twice by (auto split: prod.splits sum.splits)
  obtain later ev' dir' where l: "newAdapter upgradedLaunch True False True sampleSession dir = (Inr later, ev', dir')"
    using s(4) unfolding isOk_iff by (metis prod.collapse)
  have m: "bcUserAgentMode sampleSession = UserAgentSession" "lnReadErr upgradedLaunch = None" by (simp_all add: sampleSession_def upgradedLaunch_def sampleLaunch_def)
  from session_identity_stable[OF s(1) m(1) s(2) l m] have e: "adapterIdentity later = adapterIdentity shown" "dir' = dir" by simp_all
  then have "asUserAgent later = asUserAgent shown" by (simp add: adapterIdentity_def)
  then show ?thesis using s(1,3) l e(2) by (intro exI[of _ shown] exI[of _ later] exI[of _ ev] exI[of _ ev'] exI[of _ dir]) simp
qed

end
