(* ===== verification/BrowserRouting.thy ===== *)
theory BrowserRouting
  imports RateLimit BrowserIdentity
begin

text \<open>
  What an adapter does with the requests of its page (\<open>routeRequest\<close> of \<open>internal/provider/cgv/browser.go\<close>)
  and with their outcomes (\<open>http_logging.go\<close>): the resources a scan blocks, the gate that holds back
  requests to a provider that asked for it, the headers of a request that goes out, and what is
  reported of its completion. The records logged and the saving of exchanges are in \<open>PlaywrightCapture\<close>; the identifiers
  of requests made by the telemetry package are arguments.
\<close>


section \<open>Blocked resources\<close>

definition thirdPartyBlocklist :: "string list" where
  "thirdPartyBlocklist = [''google-analytics.com'', ''googletagmanager.com'', ''doubleclick.net'', ''googlesyndication.com'', ''adservice.google.'',
     ''connect.facebook.net'', ''facebook.com/tr'', ''nsso.cjone.com/findcookieredirect.jsp'', ''analytics'', ''tracking'', ''/pixel'', ''pixel.'']"

definition providerHost :: "string \<Rightarrow> bool" where
  "providerHost host \<longleftrightarrow> host = ''cgv.co.kr'' \<or> HasSuffix host ''.cgv.co.kr''"

definition shouldBlockResource :: "string \<Rightarrow> string \<Rightarrow> bool" where
  "shouldBlockResource requestURL resourceType =
    (if \<exists>pattern \<in> set thirdPartyBlocklist. Contains (ToLower requestURL) pattern then True
     else if ToLower resourceType \<in> {''document'', ''xhr'', ''fetch''} then False
     else if ToLower resourceType = ''script'' then
       (case urlParse requestURL of
          Inl _ \<Rightarrow> True
        | Inr parsed \<Rightarrow> \<not> providerHost (ToLower (Hostname parsed)))
     else True)"


section \<open>Routing\<close>

definition rateLimitKey :: "string \<Rightarrow> string" where
  "rateLimitKey rawURL = (case urlParse rawURL of Inl _ \<Rightarrow> rawURL | Inr parsed \<Rightarrow> Hostname parsed)"

text \<open>The part of an adapter that routing uses; the two counters are 64-bit and wrap around.\<close>

record routeState =
  roGate :: "RateLimitGate option"
  roPosters :: posterState
  roBlockResources :: bool
  roBlocked :: "64 word"
  roContinued :: "64 word"
  roUserAgent :: browserUserAgent
  roMetadata :: userAgentBootstrapIdentity

text \<open>A request of the page; its headers may be unreadable, and nil.\<close>

record pageRequest =
  pqURL :: string
  pqResourceType :: string
  pqHeaders :: "(string \<rightharpoonup> string) option result"

datatype routeAction = AbortRequest string | ContinueRequest "(string \<rightharpoonup> string) option"

definition telemetryRequestIDHeader :: string where "telemetryRequestIDHeader = ''X-Request-Id''"

text \<open>The headers of a request that goes on, with the identifier of the context and a new one as arguments.\<close>

definition outgoingHeaders :: "string \<Rightarrow> string \<Rightarrow> routeState \<Rightarrow> (string \<rightharpoonup> string) option \<Rightarrow> (string \<rightharpoonup> string)" where
  "outgoingHeaders contextID newID st headers0 =
    (let headers = applyUserAgentHeaders (case headers0 of None \<Rightarrow> Map.empty | Some h \<Rightarrow> h) (roUserAgent st) (roMetadata st);
         given = TrimSpace (case headers (ToLower telemetryRequestIDHeader) of None \<Rightarrow> [] | Some v \<Rightarrow> v);
         requestID = (if given \<noteq> [] then given else if contextID \<noteq> [] then contextID else newID)
     in headers(telemetryRequestIDHeader \<mapsto> requestID))"

definition resourceBlocked :: "routeState \<Rightarrow> pageRequest \<Rightarrow> bool" where
  "resourceBlocked st request =
    (let (posterAllowed, posterRequest) = catalogPosterRequestAllowed (pqURL request) (pqResourceType request) (roPosters st) in
     roBlockResources st \<and> ((\<not> posterRequest \<and> shouldBlockResource (pqURL request) (pqResourceType request)) \<or> (posterRequest \<and> \<not> posterAllowed)))"

definition routeRequest :: "instant \<Rightarrow> string \<Rightarrow> string \<Rightarrow> pageRequest \<Rightarrow> routeState \<Rightarrow> routeAction \<times> routeState" where
  "routeRequest now contextID newID request st =
    (if resourceBlocked st request then (AbortRequest ''blockedbyclient'', st\<lparr>roBlocked := roBlocked st + 1\<rparr>)
     else
       (case Allow (roGate st) now (rateLimitKey (pqURL request)) of
          ((allowed, _), gate) \<Rightarrow>
            if \<not> allowed then (AbortRequest ''blockedbyclient'', st\<lparr>roGate := gate, roBlocked := roBlocked st + 1\<rparr>)
            else (case pqHeaders request of
                Inl _ \<Rightarrow> ContinueRequest None
              | Inr headers \<Rightarrow> ContinueRequest (Some (outgoingHeaders contextID newID st headers)),
              st\<lparr>roGate := gate, roContinued := roContinued st + 1\<rparr>)))"


section \<open>Outcomes\<close>

text \<open>\<open>observeRateLimitFailure\<close> and \<open>observeRateLimitResponse\<close>; unreadable headers count as none.\<close>

definition observeRateLimitFailure :: "(duration \<Rightarrow> duration) option \<Rightarrow> instant \<Rightarrow> string \<Rightarrow> routeState \<Rightarrow> routeState" where
  "observeRateLimitFailure jitter now requestURL st =
    (case roGate st of
       None \<Rightarrow> st
     | Some _ \<Rightarrow> st\<lparr>roGate := snd (ObserveFailure jitter (roGate st) now (rateLimitKey requestURL))\<rparr>)"

definition observeRateLimitResponse ::
  "(string \<Rightarrow> int \<Rightarrow> int option) \<Rightarrow> (duration \<Rightarrow> duration) option \<Rightarrow> instant \<Rightarrow> string \<Rightarrow> int \<Rightarrow> header list \<Rightarrow> routeState \<Rightarrow> routeState" where
  "observeRateLimitResponse lookupName jitter now responseURL status headers st =
    (case roGate st of
       None \<Rightarrow> st
     | Some _ \<Rightarrow>
         st\<lparr>roGate := (if status \<noteq> 429 then snd (ObserveSuccess (roGate st) (rateLimitKey responseURL))
                       else snd (Observe429 lookupName jitter (roGate st) now (rateLimitKey responseURL) headers))\<rparr>)"

text \<open>The state of the circuit as an error of the provider; the text with the deadline is left out.\<close>

definition providerRateLimited :: "instant \<Rightarrow> string \<Rightarrow> routeState \<Rightarrow> bool" where
  "providerRateLimited now rawURL st = fst (Blocked (roGate st) now (rateLimitKey rawURL))"

definition browserRequestLocation :: "string \<Rightarrow> string \<times> string" where
  "browserRequestLocation rawURL =
    (case urlParse rawURL of
       Inl _ \<Rightarrow> (''/'', [])
     | Inr parsed \<Rightarrow> (if uPath parsed = [] then ''/'' else uPath parsed, Hostname parsed))"

text \<open>The status of a request: the response the driver has already, or the one it waits for.\<close>

definition browserRequestStatus :: "int option result \<Rightarrow> int option result \<Rightarrow> bool \<Rightarrow> int \<times> goerr option" where
  "browserRequestStatus existing waited failed =
    (case existing of
       Inr (Some status) \<Rightarrow> (status, None)
     | _ \<Rightarrow>
         if failed then (0, None)
         else case waited of Inl e \<Rightarrow> (0, Some e) | Inr None \<Rightarrow> (0, None) | Inr (Some status) \<Rightarrow> (status, None))"

definition browserRequestError :: "goerr option \<Rightarrow> bool \<Rightarrow> int \<Rightarrow> goerr option \<Rightarrow> goerr option" where
  "browserRequestError requestErr failed status responseErr =
    (if requestErr \<noteq> None then requestErr
     else if responseErr \<noteq> None then responseErr
     else if failed then Some (errNew ''browser request failed'')
     else if 400 \<le> status then Some (errNew (''HTTP '' @ Itoa status))
     else None)"

definition expectedBrowserRequestOutcome :: "goerr option \<Rightarrow> string" where
  "expectedBrowserRequestOutcome err =
    (case err of
       None \<Rightarrow> []
     | Some e \<Rightarrow>
         (let reason = ToUpper (errorText e) in
          if Contains reason ''ERR_BLOCKED_BY_CLIENT'' \<or> Contains reason ''BLOCKEDBYCLIENT'' then ''blocked''
          else if Contains reason ''ERR_ABORTED'' then ''canceled'' else []))"

text \<open>The level and the outcome a completed request is logged with.\<close>

definition browserRequestLog :: "goerr option \<Rightarrow> string \<times> string" where
  "browserRequestLog rawErr =
    (let outcome = expectedBrowserRequestOutcome rawErr in
     if outcome \<noteq> [] then (''debug'', outcome)
     else if rawErr \<noteq> None then (''error'', ''failed'') else (''debug'', ''succeeded''))"

definition browserRequestID :: "string result \<Rightarrow> string \<Rightarrow> string \<Rightarrow> string" where
  "browserRequestID headerValue contextID newID =
    (case headerValue of
       Inr value \<Rightarrow> if TrimSpace value \<noteq> [] then TrimSpace value else if contextID \<noteq> [] then contextID else newID
     | Inl _ \<Rightarrow> if contextID \<noteq> [] then contextID else newID)"

text \<open>The captures under way: none begins once the closing has started, and the closing waits for them.\<close>

record captureCount =
  ccClosing :: bool
  ccRunning :: nat

definition beginNetworkCapture :: "captureCount \<Rightarrow> bool \<times> captureCount" where
  "beginNetworkCapture c = (if ccClosing c then (False, c) else (True, c\<lparr>ccRunning := ccRunning c + 1\<rparr>))"

definition endNetworkCapture :: "captureCount \<Rightarrow> captureCount" where
  "endNetworkCapture c = c\<lparr>ccRunning := ccRunning c - 1\<rparr>"

definition stopNetworkCapture :: "captureCount \<Rightarrow> captureCount" where
  "stopNetworkCapture c = c\<lparr>ccClosing := True\<rparr>"

section \<open>What goes out\<close>

lemma applyUserAgentHeaders_fixed:
  "applyUserAgentHeaders headers ua identity ''user-agent'' = Some (uaValue ua)"
  "applyUserAgentHeaders headers ua identity ''sec-ch-ua'' = Some (formatBrandHeader (uiBrands identity))"
proof -
  have keep: "name \<notin> fst ` set kvs \<Longrightarrow> fold (\<lambda>(name, value) h. if h name \<noteq> None then h(name \<mapsto> value) else h) kvs h name = h name" for name kvs and h :: "string \<rightharpoonup> string"
    by (induction kvs arbitrary: h) auto
  have n1: "''user-agent'' \<notin> fst ` set (conditionalHeaders ua identity)" and n2: "''sec-ch-ua'' \<notin> fst ` set (conditionalHeaders ua identity)"
    by (simp_all add: conditionalHeaders_def)
  show "applyUserAgentHeaders headers ua identity ''user-agent'' = Some (uaValue ua)"
    unfolding applyUserAgentHeaders_def Let_def by (subst keep[OF n1]) simp
  show "applyUserAgentHeaders headers ua identity ''sec-ch-ua'' = Some (formatBrandHeader (uiBrands identity))"
    unfolding applyUserAgentHeaders_def Let_def by (subst keep[OF n2]) simp
qed

text \<open>
  C32. A scan lets only three kinds of request out: with resource blocking on, a request that is
  continued is a poster image of the catalog while posters are being captured, or matches no pattern
  of the block list and is a document or data request or a script of the provider's own hosts; its
  headers, when they could be read, carry the adapter's user agent, its brands and a request
  identifier.
\<close>

theorem scan_requests_filtered:
  assumes "routeRequest now contextID newID request st = (ContinueRequest headers, st')" "roBlockResources st"
  shows "((pmMode (roPosters st) \<and> EqualFold (TrimSpace (pqResourceType request)) ''image'' \<and> catalogPosterMovieSource (pqURL request) \<noteq> None)
      \<or> ((\<forall>pattern \<in> set thirdPartyBlocklist. \<not> Contains (ToLower (pqURL request)) pattern)
         \<and> (ToLower (pqResourceType request) \<in> {''document'', ''xhr'', ''fetch''}
            \<or> (ToLower (pqResourceType request) = ''script''
               \<and> (\<exists>parsed. urlParse (pqURL request) = Inr parsed \<and> providerHost (ToLower (Hostname parsed)))))))
    \<and> (\<forall>hs. headers = Some hs \<longrightarrow> hs ''user-agent'' = Some (uaValue (roUserAgent st))
         \<and> hs ''sec-ch-ua'' = Some (formatBrandHeader (uiBrands (roMetadata st))) \<and> hs telemetryRequestIDHeader \<noteq> None)"
proof -
  have "\<not> resourceBlocked st request" using assms(1) by (auto simp: routeRequest_def split: if_splits)
  then have kind: "catalogPosterRequestAllowed (pqURL request) (pqResourceType request) (roPosters st) = (True, True)
      \<or> \<not> shouldBlockResource (pqURL request) (pqResourceType request)"
    using assms(2) by (auto simp: resourceBlocked_def catalogPosterRequestAllowed_def split: if_splits)
  have names: "telemetryRequestIDHeader \<noteq> ''user-agent''" "telemetryRequestIDHeader \<noteq> ''sec-ch-ua''" by (simp_all add: telemetryRequestIDHeader_def)
  have hs: "hs ''user-agent'' = Some (uaValue (roUserAgent st)) \<and> hs ''sec-ch-ua'' = Some (formatBrandHeader (uiBrands (roMetadata st))) \<and> hs telemetryRequestIDHeader \<noteq> None"
    if some: "headers = Some hs" for hs
  proof -
    obtain h0 where "hs = outgoingHeaders contextID newID st h0"
      using assms(1) some by (auto simp: routeRequest_def split: if_splits prod.splits sum.splits)
    then show ?thesis using names by (simp add: outgoingHeaders_def Let_def applyUserAgentHeaders_fixed)
  qed
  show ?thesis
  proof (cases "shouldBlockResource (pqURL request) (pqResourceType request)")
    case True
    then have "catalogPosterRequestAllowed (pqURL request) (pqResourceType request) (roPosters st) = (True, True)" using kind by simp
    then show ?thesis using hs by (auto simp: catalogPosterRequestAllowed_def split: if_splits)
  next
    case False
    then show ?thesis using hs by (auto simp: shouldBlockResource_def split: if_splits sum.splits)
  qed
qed

definition sampleRoute :: routeState where
  "sampleRoute = \<lparr>roGate = Some NewRateLimitGate, roPosters = idlePosters, roBlockResources = True, roBlocked = 0, roContinued = 0,
     roUserAgent = sampleUA, roMetadata = sampleMetadata\<rparr>"

definition sampleDataRequest :: pageRequest where
  "sampleDataRequest = \<lparr>pqURL = ''https://api.cgv.co.kr/cnm/atkt/searchMovScnInfo'', pqResourceType = ''xhr'', pqHeaders = Inr (Some Map.empty)\<rparr>"

theorem scan_requests_filtered_witness:
  "\<exists>hs. fst (routeRequest 0 [] ''r1'' sampleDataRequest sampleRoute) = ContinueRequest (Some hs) \<and> hs ''user-agent'' = Some (uaValue sampleUA)"
proof -
  have blocked: "\<not> resourceBlocked sampleRoute sampleDataRequest" by code_simp
  have gate: "Allow (roGate sampleRoute) 0 k = ((True, zeroDecision), roGate sampleRoute)" for k
    by (simp add: Allow_def sampleRoute_def NewRateLimitGate_def Let_def)
  let ?hs = "outgoingHeaders [] ''r1'' sampleRoute (Some Map.empty)"
  have run: "routeRequest 0 [] ''r1'' sampleDataRequest sampleRoute = (ContinueRequest (Some ?hs), sampleRoute\<lparr>roContinued := roContinued sampleRoute + 1\<rparr>)"
    using blocked gate by (simp add: routeRequest_def sampleDataRequest_def)
  have "roBlockResources sampleRoute" "roUserAgent sampleRoute = sampleUA" by (simp_all add: sampleRoute_def)
  with scan_requests_filtered[OF run] show ?thesis using run by auto
qed

section \<open>Held back until the announced deadline\<close>

text \<open>The events of a page, each at its time: a request is routed, a response arrives, a request fails.\<close>

datatype pageEvent = Routed string string pageRequest | Responded string int "header list" | RequestFailed string

fun pageStep :: "(string \<Rightarrow> int \<Rightarrow> int option) \<Rightarrow> (duration \<Rightarrow> duration) option \<Rightarrow> instant \<times> pageEvent \<Rightarrow> routeState \<Rightarrow> routeState" where
  "pageStep lookupName jitter (now, Routed contextID newID request) st = snd (routeRequest now contextID newID request st)"
| "pageStep lookupName jitter (now, Responded url status headers) st = observeRateLimitResponse lookupName jitter now url status headers st"
| "pageStep lookupName jitter (now, RequestFailed url) st = observeRateLimitFailure jitter now url st"

text \<open>The requests that a run lets out, with their times.\<close>

fun continuedRequests :: "(string \<Rightarrow> int \<Rightarrow> int option) \<Rightarrow> (duration \<Rightarrow> duration) option \<Rightarrow> (instant \<times> pageEvent) list \<Rightarrow> routeState \<Rightarrow> pageRequest list" where
  "continuedRequests lookupName jitter [] st = []"
| "continuedRequests lookupName jitter ((now, ev) # evs) st =
     (case ev of
        Routed contextID newID request \<Rightarrow>
          (case fst (routeRequest now contextID newID request st) of ContinueRequest _ \<Rightarrow> [request] | AbortRequest _ \<Rightarrow> [])
      | _ \<Rightarrow> [])
     @ continuedRequests lookupName jitter evs (pageStep lookupName jitter (now, ev) st)"

lemma ObserveSuccess_total: "\<exists>ok g'. ObserveSuccess (Some g) key = (ok, Some g')"
  by (auto simp: ObserveSuccess_def Let_def split: option.split)

lemma ObserveFailure_total: "\<exists>d ok g'. ObserveFailure jitter (Some g) now key = ((d, ok), Some g')"
  by (auto simp: ObserveFailure_def Let_def split: option.split)

text \<open>One event of the page is at most one call on the gate.\<close>

lemma pageStep_gate:
  assumes "roGate st = Some g" "jitterOk jitter" "zeroTime \<le> now"
  shows "\<exists>tr g'. roGate (pageStep lookupName jitter (now, ev) st) = Some g' \<and> runs (gateStep lookupName) g tr g' \<and> (\<forall>(t, e, ok) \<in> set tr. t = now)
    \<and> (\<forall>contextID newID request headers. ev = Routed contextID newID request \<longrightarrow> fst (routeRequest now contextID newID request st) = ContinueRequest headers
         \<longrightarrow> (now, EAllow (rateLimitKey (pqURL request)), True) \<in> set tr)"
proof (cases ev)
  case (Routed contextID newID request)
  let ?k = "rateLimitKey (pqURL request)"
  obtain ok d g' where a: "Allow (Some g) now ?k = ((ok, d), Some g')" using Allow_total by blast
  have one: "runs (gateStep lookupName) g [(now, EAllow ?k, ok)] g'" by (rule runs_Cons, rule step_allow[OF a], rule runs_Nil)
  show ?thesis
  proof (cases "resourceBlocked st request")
    case True
    then show ?thesis using assms(1) Routed by (intro exI[of _ "[]"] exI[of _ g]) (auto simp: routeRequest_def intro: runs_Nil)
  next
    case False
    then show ?thesis using assms(1) Routed a one
      by (intro exI[of _ "[(now, EAllow ?k, ok)]"] exI[of _ g']) (auto simp: routeRequest_def split: if_splits)
  qed
next
  case (Responded url status headers)
  let ?k = "rateLimitKey url"
  obtain ok g1 where s: "ObserveSuccess (Some g) ?k = (ok, Some g1)" using ObserveSuccess_total by blast
  obtain d g2 where o: "Observe429 lookupName jitter (Some g) now ?k headers = (d, Some g2)" using Observe429_total by blast
  have r: "runs (gateStep lookupName) g [(now, ESuccess ?k, ok)] g1" by (rule runs_Cons, rule step_success[OF s], rule runs_Nil)
  have q: "runs (gateStep lookupName) g [(now, E429 ?k headers, True)] g2" by (rule runs_Cons, rule step_429[OF assms(3,2) o], rule runs_Nil)
  show ?thesis
  proof (cases "status = 429")
    case True
    then show ?thesis using assms(1) Responded o q
      by (intro exI[of _ "[(now, E429 ?k headers, True)]"] exI[of _ g2]) (simp add: observeRateLimitResponse_def)
  next
    case False
    then show ?thesis using assms(1) Responded s r
      by (intro exI[of _ "[(now, ESuccess ?k, ok)]"] exI[of _ g1]) (simp add: observeRateLimitResponse_def)
  qed
next
  case (RequestFailed url)
  let ?k = "rateLimitKey url"
  obtain d ok g1 where f: "ObserveFailure jitter (Some g) now ?k = ((d, ok), Some g1)" using ObserveFailure_total by blast
  have "runs (gateStep lookupName) g [(now, EFailure ?k, ok)] g1" by (rule runs_Cons, rule step_failure[OF assms(2) f], rule runs_Nil)
  then show ?thesis using assms(1) RequestFailed f
    by (intro exI[of _ "[(now, EFailure ?k, ok)]"] exI[of _ g1]) (simp add: observeRateLimitFailure_def)
qed

lemma runs_append: "runs step g xs g1 \<Longrightarrow> runs step g1 ys g2 \<Longrightarrow> runs step g (xs @ ys) g2"
  by (induction rule: runs.induct) (auto intro: runs_Cons)

lemma page_runs:
  assumes "roGate st = Some g" "jitterOk jitter" "\<forall>(now, ev) \<in> set evs. zeroTime \<le> now \<and> now < u"
  shows "\<exists>tr g'. runs (gateStep lookupName) g tr g' \<and> (\<forall>(t, e, ok) \<in> set tr. t < u)
    \<and> (\<forall>request \<in> set (continuedRequests lookupName jitter evs st). \<exists>t. (t, EAllow (rateLimitKey (pqURL request)), True) \<in> set tr)"
  using assms
proof (induction evs arbitrary: st g)
  case Nil
  then show ?case by (intro exI[of _ "[]"] exI[of _ g]) (auto intro: runs_Nil)
next
  case (Cons x evs)
  obtain now ev where x: "x = (now, ev)" by (cases x)
  have now: "zeroTime \<le> now" "now < u" using Cons.prems(3) by (auto simp: x)
  obtain tr1 g1 where 1: "roGate (pageStep lookupName jitter (now, ev) st) = Some g1" "runs (gateStep lookupName) g tr1 g1" "\<forall>(t, e, ok) \<in> set tr1. t = now"
    "\<forall>contextID newID request headers. ev = Routed contextID newID request \<longrightarrow> fst (routeRequest now contextID newID request st) = ContinueRequest headers
         \<longrightarrow> (now, EAllow (rateLimitKey (pqURL request)), True) \<in> set tr1"
    using pageStep_gate[OF Cons.prems(1,2) now(1), of lookupName ev] by blast
  have rest: "\<forall>(now, ev) \<in> set evs. zeroTime \<le> now \<and> now < u" using Cons.prems(3) by simp
  obtain tr2 g2 where 2: "runs (gateStep lookupName) g1 tr2 g2" "\<forall>(t, e, ok) \<in> set tr2. t < u"
    "\<forall>request \<in> set (continuedRequests lookupName jitter evs (pageStep lookupName jitter (now, ev) st)). \<exists>t. (t, EAllow (rateLimitKey (pqURL request)), True) \<in> set tr2"
    using Cons.IH[OF 1(1) Cons.prems(2) rest] by blast
  have "\<exists>t. (t, EAllow (rateLimitKey (pqURL request)), True) \<in> set (tr1 @ tr2)" if "request \<in> set (continuedRequests lookupName jitter (x # evs) st)" for request
  proof (cases ev)
    case (Routed c n q)
    then show ?thesis using that 1(4) 2(3) by (cases "fst (routeRequest now c n q st)") (auto simp: x)
  qed (use that 2(3) in \<open>auto simp: x\<close>)
  moreover have "\<forall>(t, e, ok) \<in> set (tr1 @ tr2). t < u" using 1(3) 2(2) now(2) by auto
  ultimately show ?case using runs_append[OF 1(2) 2(1)] by blast
qed

text \<open>
  C9. A provider that answers 429 is left alone: after the response was observed, until the deadline
  the gate announced for it, no request of the page to that host is let out, whatever requests, other
  responses and failures come in between.
\<close>

theorem limited_host_left_alone:
  assumes "roGate st = Some g" "gateOk g" "zeroTime \<le> now" "jitterOk jitter"
    "Observe429 lookupName jitter (Some g) now (rateLimitKey url) headers = (decision, Some g1)"
    "st1 = observeRateLimitResponse lookupName jitter now url 429 headers st"
    "\<forall>(t, ev) \<in> set evs. zeroTime \<le> t \<and> t < BlockedUntil decision"
    "request \<in> set (continuedRequests lookupName jitter evs st1)"
  shows "normalizedRateLimitKey (rateLimitKey (pqURL request)) \<noteq> normalizedRateLimitKey (rateLimitKey url)"
proof
  assume same: "normalizedRateLimitKey (rateLimitKey (pqURL request)) = normalizedRateLimitKey (rateLimitKey url)"
  have st1: "roGate st1 = Some g1" using assms(1,5,6) by (simp add: observeRateLimitResponse_def)
  from Observe429_spec[OF assms(2,4,3,5)] obtain n where n: "circuitOf g1 (rateLimitKey url) = Open (BlockedUntil decision) n" by blast
  have "gateStep lookupName g now (E429 (rateLimitKey url) headers) True g1" by (rule step_429[OF assms(3,4,5)])
  then have ok: "gateOk g1" by (rule gate.keeps[OF assms(2)])
  obtain tr g' t where r: "runs (gateStep lookupName) g1 tr g'" "\<forall>(t, e, ok) \<in> set tr. t < BlockedUntil decision"
      "(t, EAllow (rateLimitKey (pqURL request)), True) \<in> set tr"
    using page_runs[OF st1 assms(4,7), of lookupName] assms(8) by blast
  from gate.refused_until_deadline[OF r(1) ok n r(2)] r(3) same show False by blast
qed

definition limitedRoute :: routeState where
  "limitedRoute = observeRateLimitResponse (\<lambda>_ _. None) None 0 (pqURL sampleDataRequest) 429 retryAfter60 sampleRoute"

theorem limited_host_left_alone_witness:
  "continuedRequests (\<lambda>_ _. None) None [(10 * second, Routed [] ''r2'' sampleDataRequest)] limitedRoute = []"
proof (rule ccontr)
  let ?k = "rateLimitKey (pqURL sampleDataRequest)" and ?evs = "[(10 * second, Routed [] ''r2'' sampleDataRequest)]"
  assume "continuedRequests (\<lambda>_ _. None) None ?evs limitedRoute \<noteq> []"
  then have m: "sampleDataRequest \<in> set (continuedRequests (\<lambda>_ _. None) None ?evs limitedRoute)" by (auto split: routeAction.splits if_splits)
  obtain d g1 where o: "Observe429 (\<lambda>_ _. None) None (Some NewRateLimitGate) 0 ?k retryAfter60 = (d, Some g1)" using Observe429_total by blast
  have "BlockedUntil (fst (Observe429 (\<lambda>_ _. None) None (Some NewRateLimitGate) 0 ?k retryAfter60)) = 60 * second" by code_simp
  then have until: "BlockedUntil d = 60 * second" using o by simp
  have gate: "roGate sampleRoute = Some NewRateLimitGate" by (simp add: sampleRoute_def)
  have times: "\<forall>(t, ev) \<in> set ?evs. zeroTime \<le> t \<and> t < BlockedUntil d" using until by (auto simp: second_def intro: order_trans[OF zeroTime_neg(1)])
  have "jitterOk None" by (simp add: jitterOk_def)
  from limited_host_left_alone[OF gate NewRateLimitGate_ok zeroTime_neg(1) this o limitedRoute_def times m] show False by simp
qed

text \<open>
  A request that the gate itself holds back fails like any other, so the failure of a held-back
  sibling is taken for the failure of the one request that is out, and opens the circuit again.
\<close>

lemma aborted_sibling_reopens:
  assumes "roGate st = Some g" "gateOk g" "jitterOk jitter" "circuitOf g (rateLimitKey (pqURL request)) = HalfOpen u n"
  shows "\<exists>reason. fst (routeRequest now contextID newID request st) = AbortRequest reason"
    "\<exists>g' v. roGate (pageStep lookupName jitter (now, RequestFailed (pqURL request)) (pageStep lookupName jitter (now, Routed contextID newID request) st)) = Some g'
       \<and> now < v \<and> circuitOf g' (rateLimitKey (pqURL request)) = Open v (Suc n)"
proof -
  let ?k = "rateLimitKey (pqURL request)"
  have allow: "\<exists>d. Allow (Some g) now ?k = ((False, d), Some g)"
    using assms(4) by (auto simp: circuitOf_def Allow_def Let_def split: option.splits if_splits)
  then show "\<exists>reason. fst (routeRequest now contextID newID request st) = AbortRequest reason"
    using assms(1) by (auto simp: routeRequest_def)
  have same: "roGate (pageStep lookupName jitter (now, Routed contextID newID request) st) = Some g"
    using allow assms(1) by (auto simp: routeRequest_def)
  obtain d ok g' where f: "ObserveFailure jitter (Some g) now ?k = ((d, ok), Some g')" using ObserveFailure_total by blast
  have "gateStep lookupName g now (EFailure ?k) ok g'" by (rule step_failure[OF assms(3) f])
  from gateStep_circuit[OF assms(2) this] have "circuitStep now KFailure ok (HalfOpen u n) (circuitOf g' ?k)" using assms(4) by simp
  then have "\<exists>v. now < v \<and> circuitOf g' ?k = Open v (Suc n)" by (auto elim: circuit_from_half)
  then show "\<exists>g' v. roGate (pageStep lookupName jitter (now, RequestFailed (pqURL request)) (pageStep lookupName jitter (now, Routed contextID newID request) st)) = Some g'
       \<and> now < v \<and> circuitOf g' ?k = Open v (Suc n)"
    using same f by (auto simp: observeRateLimitFailure_def)
qed

end
