(* ===== verification/PlaywrightCapture.thy ===== *)
theory PlaywrightCapture
  imports BrowserRouting CaptureStore
begin

text \<open>
  The record of a browser request (\<open>networkcapture/playwrightcapture/playwright.go\<close>), which requests are
  captured, and what an adapter does with a request that ended (\<open>captureNetworkExchange\<close> and
  \<open>logProviderRequestCompletion\<close> of \<open>internal/provider/cgv/http_logging.go\<close>). A request is a record of
  what the driver answers about it; a call that is made twice may answer twice.
\<close>


section \<open>Requests and responses of the driver\<close>

record playwrightResponse =
  bwStatus :: int
  bwStatusText :: string
  bwHeaders :: "header list"
  bwHeadersErr :: "goerr option"
  bwBody :: "string option"
  bwBodyErr :: "goerr option"
  bwProtocol :: string
  bwProtocolErr :: "goerr option"
  bwServer :: "(string \<times> int) option"
  bwServerErr :: "goerr option"
  bwFromServiceWorker :: bool

record requestSizes =
  szRequestHeaders :: int
  szRequestBody :: int
  szResponseHeaders :: int
  szResponseBody :: int

text \<open>\<open>None\<close> for the sizes stands for an error and for nil.\<close>

record playwrightRequest =
  brTiming :: "Timing option"
  brHeaders :: "header list"
  brPostData :: "string option"
  brPostDataErr :: "goerr option"
  brMethod :: string
  brURL :: string
  brResourceType :: string
  brNavigation :: bool
  brRedirectedFrom :: "string option"
  brRedirectedTo :: "string option"
  brSizes :: "requestSizes option"
  brResponseSizes :: "requestSizes option"
  brExisting :: "playwrightResponse option result"
  brWaited :: "playwrightResponse option result"
  brFailure :: "goerr option"

text \<open>
  Multiplication of floats, and the conversion to a 64-bit integer: the fraction is dropped; of a value
  that has no integer in the range, the argument \<open>odd\<close> says what the machine makes of it.
\<close>

definition fmul :: "float64 \<Rightarrow> float64 \<Rightarrow> float64" where
  "fmul x y =
    (let s = (signBit x \<noteq> signBit y) in
     if x = NaN \<or> y = NaN \<or> (isInf x \<and> ratOf y = 0 \<and> isFinite y) \<or> (isInf y \<and> ratOf x = 0 \<and> isFinite x) then NaN
     else if isInf x \<or> isInf y then Inf s
     else if ratOf x = 0 \<or> ratOf y = 0 then fzero s
     else toFloat (ratOf x * ratOf y))"

definition floatInt :: "(float64 \<Rightarrow> int) \<Rightarrow> float64 \<Rightarrow> int" where
  "floatInt oddValue x =
    (let n = (if 0 \<le> ratOf x then \<lfloor>ratOf x\<rfloor> else \<lceil>ratOf x\<rceil>) in if isFinite x \<and> inInt64 n then n else oddValue x)"

definition PlaywrightHeaders :: "header list \<Rightarrow> header list" where
  "PlaywrightHeaders headers = map (\<lambda>h. \<lparr>hName = hName h, hValue = hValue h\<rparr>) headers"

definition playwrightHeaderValue :: "header list \<Rightarrow> string \<Rightarrow> string" where
  "playwrightHeaderValue headers name = (case find (\<lambda>h. EqualFold (hName h) name) headers of Some h \<Rightarrow> hValue h | None \<Rightarrow> [])"

definition playwrightRequestError :: "playwrightRequest \<Rightarrow> bool \<Rightarrow> int \<Rightarrow> goerr option" where
  "playwrightRequestError request failed status =
    (if brFailure request \<noteq> None then brFailure request
     else if failed then Some (errNew ''browser request failed'')
     else if 400 \<le> status then Some (errNew (''HTTP '' @ Itoa status))
     else None)"

definition playwrightExpectedOutcome :: "goerr option \<Rightarrow> string" where
  "playwrightExpectedOutcome err =
    (case err of
       None \<Rightarrow> []
     | Some e \<Rightarrow>
         (let reason = ToUpper (errorText e) in
          if Contains reason ''ERR_BLOCKED_BY_CLIENT'' \<or> Contains reason ''BLOCKEDBYCLIENT'' then ''blocked''
          else if Contains reason ''ERR_ABORTED'' then ''canceled'' else []))"

definition ShouldCapturePlaywrightRequest :: "Store option \<Rightarrow> playwrightRequest option \<Rightarrow> bool \<Rightarrow> bool" where
  "ShouldCapturePlaywrightRequest store request failed =
    (case (store, request) of
       (Some s, Some r) \<Rightarrow>
         if DebugEnabled s then True
         else if brFailure r \<noteq> None then playwrightExpectedOutcome (brFailure r) = []
         else if failed then True
         else (case brExisting r of Inl _ \<Rightarrow> True | Inr None \<Rightarrow> False | Inr (Some response) \<Rightarrow> 400 \<le> bwStatus response)
     | _ \<Rightarrow> False)"


section \<open>The record\<close>

definition emptyRequest :: Request where
  "emptyRequest = \<lparr>rqMethod = [], rqURL = [], rqHeaders = [], rqBody = None, rqResourceType = [], rqNavigation = False,
     rqRedirectedFrom = [], rqRedirectedTo = [], rqBytes = 0, rqTiming = None\<rparr>"

definition emptyExchange :: Exchange where
  "emptyExchange = \<lparr>exVersion = 0, exID = [], exCorrelationID = [], exService = [], exScenario = [], exTransport = ''chromium'',
     exStartedAt = zeroTime, exCompletedAt = zeroTime, exDurationMS = 0, exOutcome = [], exError = [], exCaptureError = [],
     exRequest = emptyRequest, exResponse = None\<rparr>"

definition emptyRecord :: Record where
  "emptyRecord = \<lparr>rcExchange = emptyExchange, rcRequestBody = None, rcRequestBodyPath = [], rcRequestContentType = [],
     rcRequestRepresentation = [], rcResponseBody = None, rcResponseBodyPath = [], rcResponseContentType = [], rcResponseRepresentation = []\<rparr>"

text \<open>When the request started and completed; the times of the driver are milliseconds.\<close>

definition playwrightTimes :: "(float64 \<Rightarrow> int) \<Rightarrow> instant \<Rightarrow> Timing option \<Rightarrow> instant \<times> instant" where
  "playwrightTimes oddValue now timing =
    (case timing of
       None \<Rightarrow> (now, now)
     | Some t \<Rightarrow>
         (let startedAt = (if fless (Fin 0) (tmStartMillis t) then floatInt oddValue (tmStartMillis t) * millisecond else now);
              completedAt = (if fleq (Fin 0) (tmResponseEnd t) then startedAt + floatInt oddValue (fmul (tmResponseEnd t) (Fin (of_int millisecond))) else now)
          in (startedAt, completedAt)))"

definition requestCapture :: "playwrightRequest \<Rightarrow> Request" where
  "requestCapture request =
    \<lparr>rqMethod = brMethod request, rqURL = brURL request, rqHeaders = PlaywrightHeaders (brHeaders request), rqBody = None,
     rqResourceType = brResourceType request, rqNavigation = brNavigation request,
     rqRedirectedFrom = (case brRedirectedFrom request of None \<Rightarrow> [] | Some u \<Rightarrow> u),
     rqRedirectedTo = (case brRedirectedTo request of None \<Rightarrow> [] | Some u \<Rightarrow> u),
     rqBytes = (case brSizes request of None \<Rightarrow> 0 | Some s \<Rightarrow> wrap64 (szRequestHeaders s + szRequestBody s)),
     rqTiming = brTiming request\<rparr>"

definition capturedResponse :: "playwrightRequest \<Rightarrow> playwrightResponse \<Rightarrow> Response" where
  "capturedResponse request response =
    \<lparr>rpStatus = bwStatus response, rpStatusText = bwStatusText response, rpProtocol = bwProtocol response,
     rpHeaders = PlaywrightHeaders (bwHeaders response), rpBody = None,
     rpBytes = (case brResponseSizes request of None \<Rightarrow> 0 | Some s \<Rightarrow> wrap64 (szResponseHeaders s + szResponseBody s)),
     rpFromServiceWorker = bwFromServiceWorker response,
     rpServerAddress = (case bwServer response of None \<Rightarrow> [] | Some (address, _) \<Rightarrow> address),
     rpServerPort = (case bwServer response of None \<Rightarrow> 0 | Some (_, port) \<Rightarrow> port)\<rparr>"

text \<open>The response the driver has, or, unless the request failed, the one it waits for, and the error of the lookup.\<close>

definition lookupResponse :: "playwrightRequest \<Rightarrow> bool \<Rightarrow> playwrightResponse option \<times> goerr option" where
  "lookupResponse request failed =
    (case brExisting request of
       Inl e \<Rightarrow> (None, Some e)
     | Inr (Some response) \<Rightarrow> (Some response, None)
     | Inr None \<Rightarrow>
         if failed then (None, None)
         else (case brWaited request of Inl e \<Rightarrow> (None, Some e) | Inr response \<Rightarrow> (response, None)))"

definition PlaywrightRecord :: "(float64 \<Rightarrow> int) \<Rightarrow> instant \<Rightarrow> playwrightRequest option \<Rightarrow> bool \<Rightarrow> Record" where
  "PlaywrightRecord oddValue now request0 failed =
    (case request0 of
       None \<Rightarrow> emptyRecord\<lparr>rcExchange := emptyExchange\<lparr>exStartedAt := now, exCompletedAt := now, exOutcome := ''failed'', exError := ''browser request is nil''\<rparr>\<rparr>
     | Some request \<Rightarrow>
         (let (startedAt, completedAt) = playwrightTimes oddValue now (brTiming request);
              (response, lookupErr) = lookupResponse request failed;
              responseErr = (case response of None \<Rightarrow> None
                | Some r \<Rightarrow> errorsJoin [bwHeadersErr r, bwBodyErr r, bwProtocolErr r, bwServerErr r]);
              captureErr = errorsJoin [brPostDataErr request, lookupErr, responseErr];
              status = (case response of None \<Rightarrow> 0 | Some r \<Rightarrow> bwStatus r);
              rawErr = playwrightRequestError request failed status;
              outcome = playwrightExpectedOutcome rawErr
          in \<lparr>rcExchange = emptyExchange\<lparr>exStartedAt := startedAt, exCompletedAt := completedAt,
                exOutcome := (if outcome \<noteq> [] then outcome else if rawErr \<noteq> None then ''failed'' else ''succeeded''),
                exError := (if outcome \<noteq> [] then [] else case rawErr of None \<Rightarrow> [] | Some e \<Rightarrow> errorText e),
                exCaptureError := (case captureErr of None \<Rightarrow> [] | Some e \<Rightarrow> errorText e),
                exRequest := requestCapture request, exResponse := map_option (capturedResponse request) response\<rparr>,
              rcRequestBody = brPostData request, rcRequestBodyPath = [],
              rcRequestContentType = playwrightHeaderValue (brHeaders request) ''content-type'', rcRequestRepresentation = ''application'',
              rcResponseBody = (case response of None \<Rightarrow> None | Some r \<Rightarrow> bwBody r), rcResponseBodyPath = [],
              rcResponseContentType = (case response of None \<Rightarrow> [] | Some r \<Rightarrow> playwrightHeaderValue (bwHeaders r) ''content-type''),
              rcResponseRepresentation = (case response of None \<Rightarrow> [] | Some r \<Rightarrow> ''decoded'')\<rparr>))"


section \<open>What an adapter does when a request ended\<close>

text \<open>What the saving depends on, and the answer of the driver to the header of the request identifier.\<close>

record exchangeEnv =
  ceNow :: instant
  ceOdd :: "float64 \<Rightarrow> int"
  ceHeaderID :: "string result"
  ceContextID :: string
  ceNewID :: string
  ceIo :: ioFaults
  ceLocalDay :: "instant \<Rightarrow> string"
  ceRandom :: "nat list option"



definition browserRequestSizes :: "requestSizes option \<Rightarrow> int \<times> int" where
  "browserRequestSizes sizes = (case sizes of None \<Rightarrow> (0, 0) | Some s \<Rightarrow> (szRequestBody s, szResponseBody s))"

definition browserRequestDuration :: "(float64 \<Rightarrow> int) \<Rightarrow> playwrightRequest option \<Rightarrow> int" where
  "browserRequestDuration oddValue request =
    (case request of
       None \<Rightarrow> 0
     | Some r \<Rightarrow>
         (case brTiming r of
            None \<Rightarrow> 0
          | Some t \<Rightarrow> if fless (tmResponseEnd t) (Fin 0) then 0 else floatInt oddValue (tmResponseEnd t)))"

record requestCompletion =
  qcRequestID :: string
  qcMethod :: string
  qcPath :: string
  qcHost :: string
  qcResourceType :: string
  qcDurationMS :: int
  qcStatus :: int
  qcRequestBytes :: int
  qcResponseBytes :: int
  qcLevel :: string
  qcOutcome :: string
  qcBlockReason :: string
  qcError :: "goerr option"

definition logProviderRequestCompletion :: "exchangeEnv \<Rightarrow> playwrightRequest \<Rightarrow> bool \<Rightarrow> requestCompletion" where
  "logProviderRequestCompletion env request failed =
    (let (path, host) = browserRequestLocation (brURL request);
         (requestBytes, responseBytes) = browserRequestSizes (brSizes request);
         (status, responseErr) = browserRequestStatus (bindR (brExisting request) (\<lambda>r. Inr (map_option bwStatus r)))
            (bindR (brWaited request) (\<lambda>r. Inr (map_option bwStatus r))) failed;
         rawErr = browserRequestError (brFailure request) failed status responseErr;
         (level, outcome) = browserRequestLog rawErr
     in \<lparr>qcRequestID = browserRequestID (ceHeaderID env) (ceContextID env) (ceNewID env), qcMethod = brMethod request, qcPath = path, qcHost = host,
         qcResourceType = brResourceType request, qcDurationMS = browserRequestDuration (ceOdd env) (Some request), qcStatus = status,
         qcRequestBytes = requestBytes, qcResponseBytes = responseBytes, qcLevel = level, qcOutcome = outcome,
         qcBlockReason = (if outcome = ''blocked'' then ''intentional_resource_filter'' else []),
         qcError = (if outcome = ''failed'' then rawErr else None)\<rparr>)"

section \<open>Failures are kept\<close>






lemma playwrightExpectedOutcome_range: "playwrightExpectedOutcome e \<in> {[], ''blocked'', ''canceled''}"
  by (auto simp: playwrightExpectedOutcome_def Let_def split: option.splits)











text \<open>
  A request that was cancelled after the provider had answered with an error status is dropped before
  the store, whose own policy would keep it, sees it.
\<close>

lemma cancelled_error_dropped:
  assumes "\<not> DebugEnabled s" "brFailure request = Some (errNew ''net::ERR_ABORTED'')" "brExisting request = Inr (Some response)" "400 \<le> bwStatus response"
  shows "\<not> ShouldCapturePlaywrightRequest (Some s) (Some request) failed"
    "shouldPersist s (rcExchange (PlaywrightRecord oddValue now (Some request) failed))"
proof -
  have "playwrightExpectedOutcome (Some (errNew ''net::ERR_ABORTED'')) = ''canceled''" by code_simp
  then show "\<not> ShouldCapturePlaywrightRequest (Some s) (Some request) failed" "shouldPersist s (rcExchange (PlaywrightRecord oddValue now (Some request) failed))"
    using assms by (auto simp: ShouldCapturePlaywrightRequest_def shouldPersist_def PlaywrightRecord_def lookupResponse_def playwrightRequestError_def
        capturedResponse_def Let_def split: prod.splits)
qed

end
