(* ===== verification/Spec2Isabelle.thy ===== *)
theory Spec2Isabelle
  imports Soxy EgressLease TelemetryHttp TelemetryLog BrowserSetup PlaywrightCapture
begin

text \<open>
  A verification library of the Cineko probe, the program that collects theater catalogs, movie
  schedules, seat maps and seat availability from the CGV site with a real browser, through leased
  proxies, and publishes them in a contract. Paths below are relative to \<open>src/\<close>.

  \<^bold>\<open>The program.\<close> An assignment reaches \<open>probe/cgv_executor.go\<close> or the client's
  \<open>probe/local_scanner.go\<close>. They open a browser through the factory
  \<open>internal/provider/cgv/browser/factory.go\<close>, which hands out task slots, takes a proxy lease from
  \<open>internal/egress\<close> and launches a page from the pool of \<open>internal/provider/cgv/browser.go\<close>. The adapter
  drives the page (\<open>schedule.go\<close>, \<open>catalog.go\<close>, \<open>catalog_poster.go\<close>, \<open>seat_map.go\<close>), buffers the
  provider's responses, parses them, and derives identities. Every request of the page passes a gate
  (\<open>networkcapture/ratelimit.go\<close>) that stops when the provider answers 429. Exchanges are stored for
  debugging by \<open>networkcapture/store.go\<close>; \<open>internal/telemetry\<close> logs what clients and servers do. Finally
  the captures are converted into contract messages.

  \<^bold>\<open>Foundations.\<close>
  \<^item> \<open>Prelude\<close>: results, the loops over slices that recur, 32- and 64-bit integers, collections of facts.
  \<^item> \<open>GoErrors\<close>, \<open>GoStrings\<close>, \<open>GoTime\<close>, \<open>GoHttpTime\<close>, \<open>GoUrl\<close>, \<open>GoJson\<close>, \<open>GoFloat\<close>, \<open>GoPath\<close>,
    \<open>Sha256\<close>: what the sources use of Go's standard library.

  \<^bold>\<open>Components.\<close>
  \<^item> \<open>RateLimit\<close> (\<open>networkcapture/ratelimit.go\<close>): the gate as a state per host. The locale
    \<open>circuit_breaker\<close> states the contract of a three-state breaker and proves its safety once; the
    gate's methods interpret it. Shown: refinement, no request before an announced deadline, one
    half-open request, bounds of the waiting time with the wrap-around of durations.
  \<^item> \<open>Egress\<close> (\<open>internal/egress/egress.go\<close>): secret files, environment, proxy URLs and \<open>New\<close>; the
    invariant of every manager, exactness of secret reading, errors that do not show secrets.
  \<^item> \<open>Soxy\<close> (\<open>soxy.go\<close>, \<open>health.go\<close>, acquisition of \<open>egress.go\<close>): requests and sessions against an
    arbitrary service with a log of calls. The locale \<open>session_ledger\<close> is interpreted on the client;
    every session handed out is held or released, the slot loop ends and asks each slot once, plain
    HTTP stays private.
  \<^item> \<open>EgressLease\<close> (\<open>Lease\<close> of \<open>egress.go\<close>): renewal, report, cancellation and close as steps; released
    once and reported at most once in every interleaving.
  \<^item> \<open>CgvIdentity\<close> (\<open>identity.go\<close>, \<open>contract_identity.go\<close>, \<open>showtime_time.go\<close>): identifiers, dates, clocks
    and their round trips.
  \<^item> \<open>CgvSchedule\<close> (\<open>schedule_response.go\<close>, \<open>schedule_capture.go\<close>, \<open>schedule.go\<close>): parsing, the bounded
    response buffer, extraction, date selection and the scan; a capture says complete only when it is.
  \<^item> \<open>CgvCatalog\<close> (\<open>catalog_response.go\<close>, \<open>catalog.go\<close>, \<open>catalog_poster.go\<close>): theaters, movies and the
    poster capture with its state.
  \<^item> \<open>SeatLayout\<close> (\<open>seat_map_snapshot.go\<close>, \<open>seat_availability.go\<close>): seat maps with IEEE coordinates; well
    formed, independent of the order of the response, availability complete or refused.
  \<^item> \<open>SeatCapture\<close> (\<open>seat_map.go\<close>): task validation, showtime resolution and both captures.
  \<^item> \<open>CaptureStore\<close> (\<open>store.go\<close>, \<open>query.go\<close> of \<open>networkcapture\<close>): saving with a fault at any file
    operation, listing, reading; the locale \<open>content_store\<close> is interpreted on the blobs. Nothing dangles,
    what is saved is read back, paths stay below the root.
  \<^item> \<open>CaptureHttp\<close> (\<open>networkcapture/http.go\<close>): the capturing round tripper over that store; a capture is
    completed once, leaves no staging file, and keeps the whole body of a failed response.
  \<^item> \<open>ProbeExecutor\<close> (\<open>probe/\<close>): task checks, the browser around each capture, conversion into the
    contract, schedule sessions and the scanner that keeps one; events record the calls on the browser.
  \<^item> \<open>BrowserFactory\<close> (\<open>browser/factory.go\<close> and the pool and close hooks of \<open>browser.go\<close>): a step function
    over the points where goroutines interleave. The locale \<open>resource\<close> proves conservation once and is
    interpreted on the slots and on the session token; no leak of slots, leases or profiles, and a
    returned \<open>Close\<close> leaves no browser.
  \<^item> \<open>BrowserIdentity\<close> (\<open>user_agent.go\<close>, \<open>session_identity.go\<close>): the version a browser shows and the checks
    of an identity.
  \<^item> \<open>SessionIdentity\<close> (the file of \<open>session_identity.go\<close>): saving with a fault at any file operation and
    loading; what is saved is loaded again, and a failed save leaves the old file and no temporary one.
  \<^item> \<open>BrowserSetup\<close> (\<open>newAdapter\<close> of \<open>browser.go\<close>, \<open>browser_runtime.go\<close>, \<open>stealth.go\<close>, the identity session of
    \<open>user_agent.go\<close>): starting a browser over arbitrary answers of the driver; a failed start closes
    what it opened, and a profile keeps its identity.
  \<^item> \<open>BrowserRouting\<close> (\<open>routeRequest\<close> of \<open>browser.go\<close>, \<open>http_logging.go\<close>): which requests go out, over the
    gate of \<open>RateLimit\<close> and the identity of \<open>BrowserIdentity\<close>.
  \<^item> \<open>PlaywrightCapture\<close> (\<open>playwrightcapture/playwright.go\<close> and the completion handlers of
    \<open>http_logging.go\<close>): the record of a browser request and when it is handed to \<open>CaptureStore\<close>; a failed
    exchange is stored, a cancelled one is not.
  \<^item> \<open>TelemetryHttp\<close> (\<open>internal/telemetry/http.go\<close>): the logging transport with its counting bodies, and the
    server middleware with its counting writer; one completion for each request, with the bytes moved.
  \<^item> \<open>TelemetryLog\<close> (\<open>internal/telemetry/telemetry.go\<close>): canonical keys, errors as text, trace identifiers,
    and the handler that passes a record on to several.
  \<^item> This theory: properties across components, from the provider's rows to the published schedule.

  \<^bold>\<open>Conventions.\<close> A Go function with an error result is a function into \<open>goerr + T\<close>. State is passed and
  returned; a mutex makes its critical section one step. Clocks, random draws, the environment, files,
  the page and remote services are arguments, so the theorems hold for all their answers; hypotheses on
  them (\<open>drawBelow\<close>: a draw is below its bound; \<open>jitterOk\<close>: the jitter is within its range; fresh names
  of temporary files; \<open>randomOk\<close>: random bytes are 16 bytes; \<open>tableOk\<close>: the lower case of
  a letter is no underscore; \<open>textIdentity\<close>: the strings of an identity are UTF-8) state what their documentation promises and are met in the witnesses.

  \<^bold>\<open>Bounds.\<close> There is no fuel to choose for loops that end by their data. A wait of the code polls until
  a deadline: it runs over the list of ticks, or of polls, that its argument gives, and its exhaustion
  is the code's time-out. The search of a date label looks at 400 days and the response buffer holds
  33 entries because the code says so. Draining a body is \<open>None\<close> when the reads given never reach an end,
  and so is the writer's \<open>ReadFrom\<close>, a \<open>partial_function\<close>, when its recursion does not return.
  The factory runs over arbitrary event lists; an event that is not enabled in a state is no step.

  \<^bold>\<open>Simplifications.\<close> Case mapping is ASCII's. \<open>sort.Slice\<close> keeps the order of equal elements. JSON is a
  syntax tree, so the byte-level parser is outside. Media types, status texts, time zones and the
  deterministic protobuf encoding are arguments. Log records are modelled where a component exists to
  write them (\<open>TelemetryHttp\<close>, \<open>TelemetryLog\<close>, \<open>PlaywrightCapture\<close>); elsewhere they and the trace spans are left out.

  \<^bold>\<open>Not modelled.\<close> The vendored Playwright driver, which answers through arguments; the JavaScript that
  runs in the page, and the helpers that do nothing but evaluate it; the scripts of the stealth package,
  strings given from outside; the set-up of the OpenTelemetry exporters (\<open>New\<close> of \<open>telemetry.go\<close>), a
  sequence of calls of that library; the generated contract and the shell scripts of the build.
\<close>

section \<open>From the provider's rows to the published schedule\<close>

lemma extracted_rows:
  assumes "extractFromRows clock date theater rows = Inr es" "canonicalProviderDate date = Inr c" "e \<in> set es"
  shows "\<exists>now row. scheduleEntryFromProviderRow now row theater = Inr e \<and> rwDate row = c"
proof -
  from extractFromRows_Inr[OF assms(1)] assms(2) have "extractLoop clock theater c [] rows = Inr es" by auto
  from extractLoop_sound[OF this assms(3)] show ?thesis by (auto simp: wantedRow_def)
qed



definition siteTheater :: "string \<Rightarrow> ScheduleTheater" where
  "siteTheater site = \<lparr>stID = CatalogID ProviderCGV ''theater'' site, stProviderID = ProviderCGV, stSourceKey = site, stRegion = ''R'', stName = ''T''\<rparr>"

lemma published_date: "canonicalProviderDate ''20250102'' = Inr ''2025-01-02''"
proof -
  have "case canonicalProviderDate ''20250102'' of Inr d \<Rightarrow> d = ''2025-01-02'' | Inl _ \<Rightarrow> False" by code_simp
  then show ?thesis by (auto split: sum.splits)
qed

lemma sample_entry:
  assumes "TrimSpace site = site" "providerSiteIdentifier site"
  shows "\<exists>e. scheduleEntryFromProviderRow 0 (sampleRow site) (siteTheater site) = Inr e
    \<and> extractFromRows (\<lambda>_. 0) ''20250102'' (siteTheater site) [sampleRow site] = Inr [e]"
proof -
  have "fst (parseAuditorium [] ''IMAX 1'') = ''IMAX 1''" by code_simp
  then obtain types where "parseAuditorium [] ''IMAX 1'' = (''IMAX 1'', types)" by (metis prod.collapse)
  then obtain e where e: "scheduleEntryFromProviderRow 0 (sampleRow site) (siteTheater site) = Inr e"
    using assms by (simp add: scheduleEntryFromProviderRow_def sampleRow_def siteTheater_def Let_def)
  moreover have "extractFromRows (\<lambda>_. 0) ''20250102'' (siteTheater site) [sampleRow site] = Inr [e]"
    using e assms(1) published_date by (simp add: extractFromRows_def targetRow_def siteTheater_def sampleRow_def Let_def)
  ultimately show ?thesis by blast
qed

lemma sample_site: "TrimSpace ''0013'' = ''0013''" "providerSiteIdentifier ''0013''" "numericIdentifier ''0013''"
  "TrimSpace ''P013'' = ''P013''" "providerSiteIdentifier ''P013''" "\<not> numericIdentifier ''P013''"
  by code_simp+




text \<open>
  C40. The schedule of a theater whose site number is not all digits, which the catalog and the
  identities of the provider admit, is never published: every capture with a showtime of it fails to
  convert, with an identity mismatch, and with it the whole round.
\<close>

theorem opaque_site_unpublished:
  assumes "extractFromRows clock date theater rows = Inr es" "rows \<noteq> []" "canonicalProviderDate date = Inr c"
    "\<not> numericIdentifier (TrimSpace (stSourceKey theater))"
  shows "\<exists>err. convertCapture now loc (completeCapture c es) = Inl err \<and> errorsIs err ErrIdentityMismatch"
proof -
  have "es \<noteq> []"
  proof
    assume "es = []"
    obtain c' where c': "canonicalProviderDate date = Inr c'" "extractLoop clock theater c' [] rows = Inr es"
      "rows \<noteq> [] \<longrightarrow> filter (wantedRow theater c') rows \<noteq> []" using extractFromRows_Inr[OF assms(1)] by blast
    show False using extractLoop_ids[OF c'(2)] c'(3) assms(2) \<open>es = []\<close> by simp
  qed
  then obtain e es' where es: "es = e # es'" by (cases es) simp_all
  obtain t row where "scheduleEntryFromProviderRow t row theater = Inr e" using extracted_rows[OF assms(1,3), of e] es by auto
  from convertCapture_opaque_site[OF assms(3) this assms(4)] show ?thesis by (simp add: es)
qed

theorem opaque_site_unpublished_witness:
  "\<exists>es err. extractFromRows (\<lambda>_. 0) ''20250102'' (siteTheater ''P013'') [sampleRow ''P013''] = Inr es
     \<and> convertCapture 0 seoul (completeCapture ''2025-01-02'' es) = Inl err \<and> errorsIs err ErrIdentityMismatch"
proof -
  obtain e where x: "extractFromRows (\<lambda>_. 0) ''20250102'' (siteTheater ''P013'') [sampleRow ''P013''] = Inr [e]"
    using sample_entry[OF sample_site(4,5)] by (elim exE conjE) (rule that)
  have n: "\<not> numericIdentifier (TrimSpace (stSourceKey (siteTheater ''P013'')))" using sample_site(4,6) by (simp add: siteTheater_def)
  from opaque_site_unpublished[OF x _ published_date n] x show ?thesis by blast
qed

end
